theory Spec2Isabelle
  imports Complex_Main
begin

section \<open>The canvas as the wiring code sees it\<close>

text \<open>
  \<^verbatim>\<open>frontend/main.js\<close> keeps its state in globals (\<^verbatim>\<open>connections\<close>,
  \<^verbatim>\<open>pendingConnections\<close>, \<^verbatim>\<open>isWiring\<close>, \<^verbatim>\<open>currentWire\<close>, \<^verbatim>\<open>startPort\<close>) and in
  the Konva scene graph below \<^verbatim>\<open>mainLayer\<close>. The scene graph is embedded as the ordered
  list of the layer's children (index 0 is the bottom of the z-order); a component group
  carries the list of its child shapes. Every Konva object has an identity (\<open>ref\<close>),
  allocated from a counter at each \<^verbatim>\<open>new Konva.X(...)\<close>, because the code compares
  objects with \<^verbatim>\<open>!==\<close> and destroys them through references kept in the map.

  What Konva itself does is taken from the calls the code makes:
  \<^verbatim>\<open>findOne('#' + id)\<close> is the first node, in the order of the layer's children, whose
  \<^verbatim>\<open>id\<close> attribute is that string (no child shape is ever given an id in this file);
  \<^verbatim>\<open>group.find(pred)\<close> scans the group's children; \<^verbatim>\<open>find\<close> and \<^verbatim>\<open>findOne\<close> exist on
  containers only, so calling them on a line raises a TypeError;
  \<^verbatim>\<open>node.destroy()\<close> removes the node from its parent; \<^verbatim>\<open>moveToBottom()\<close> moves it to
  index 0; \<^verbatim>\<open>getParent()\<close> of a shape whose group is no longer on the layer is null.
\<close>

type_synonym ref = nat
type_synonym pos = "real \<times> real"

datatype klass = Group | Line | Rect | Circle | Text

record shape =
  s_ref :: ref
  s_class :: klass
  s_name :: string
  s_pos :: pos
  s_height :: real
  s_text :: string

record node =
  n_ref :: ref
  n_class :: klass
  n_id :: "string option"
  n_name :: string
  n_pos :: pos
  n_draggable :: bool
  n_children :: "shape list"
  n_points :: "real list"
  n_contextmenu :: "string option option"

text \<open>
  \<open>n_id = None\<close> is a node created without an \<^verbatim>\<open>id\<close> (or with \<^verbatim>\<open>id: undefined\<close>).
  \<open>n_contextmenu = Some i\<close> is the \<^verbatim>\<open>contextmenu\<close> listener that \<^verbatim>\<open>createWire\<close> attaches,
  a closure over its argument \<^verbatim>\<open>id\<close>.
\<close>

record params =
  connectionId :: "string option"
  sourceComponentId :: "string option"
  sourcePortName :: "string option"
  targetComponentId :: "string option"
  targetPortName :: "string option"
  componentId :: "string option"
  outputName :: "string option"
  data_json :: string

text \<open>
  A \<^verbatim>\<open>params\<close> object of a message: each field is a string or absent (\<open>None\<close>,
  JavaScript's \<^verbatim>\<open>undefined\<close>); \<open>data_json\<close> is \<^verbatim>\<open>JSON.stringify(params.data)\<close>.
  Values are immutable here, so \<^verbatim>\<open>JSON.parse(JSON.stringify(params))\<close> is the value itself.
\<close>

record conn =
  c_id :: "string option"
  c_from :: shape
  c_to :: shape
  c_line :: ref

record rpc =
  jsonrpc :: string
  rq_method :: string
  rq_params :: params
  rq_id :: string

datatype level = LOG | WARN | ERROR

record timer_state =
  timeout :: "nat option"
  pending :: "(nat \<times> nat) list"
  next_handle :: nat

text \<open>
  The timers of the page. \<open>timeout\<close> is the variable of that name in the closure of
  \<^verbatim>\<open>debounce\<close> (\<open>None\<close> while it is \<^verbatim>\<open>undefined\<close>), \<open>pending\<close> are the timers the
  browser holds, each with the handle \<^verbatim>\<open>setTimeout\<close> returned for it and its delay, in the
  order they were set, and \<open>next_handle\<close> is the handle the next \<^verbatim>\<open>setTimeout\<close> returns.
\<close>

record gstate =
  layer :: "node list"
  connections :: "string option \<rightharpoonup> conn"
  pendingConnections :: "params list"
  isWiring :: bool
  currentWire :: "ref option"
  startPort :: "shape option"
  socket_open :: bool
  sent :: "rpc list"
  console :: "(level \<times> string) list"
  draws :: nat
  timer :: timer_state
  next_ref :: ref

text \<open>
  \<open>connections\<close> is the JavaScript \<^verbatim>\<open>Map\<close>, a partial function from keys to entries
  (the code never iterates it in the functions embedded here, so insertion order is not
  kept). \<open>sent\<close> collects the arguments of \<^verbatim>\<open>socket.send\<close>, \<open>console\<close> the
  calls of \<^verbatim>\<open>console.log/warn/error\<close> (the literal part of each message; the
  messages \<^verbatim>\<open>renderLoadedConnection\<close> writes before it looks for an existing line keep
  their prefix with the id), \<open>draws\<close> counts
  \<^verbatim>\<open>mainLayer.draw()\<close>, and \<open>timer\<close> holds the timers.
\<close>

datatype 'a completion = Return 'a | Throw

text \<open>A function that can raise returns the state reached together with how it ended.\<close>

definition say :: "level \<Rightarrow> string \<Rightarrow> gstate \<Rightarrow> gstate" where
  "say l m s = s\<lparr>console := console s @ [(l, m)]\<rparr>"

definition draw :: "gstate \<Rightarrow> gstate" where
  "draw s = s\<lparr>draws := Suc (draws s)\<rparr>"

definition js_str :: "string option \<Rightarrow> string" where
  "js_str v = (case v of None \<Rightarrow> ''undefined'' | Some x \<Rightarrow> x)"

definition findOne :: "node list \<Rightarrow> string \<Rightarrow> node option" where
  "findOne ns i = find (\<lambda>n. n_id n = Some i) ns"

definition getParent :: "gstate \<Rightarrow> shape \<Rightarrow> node option" where
  "getParent s p = find (\<lambda>n. s_ref p \<in> set (map s_ref (n_children n))) (layer s)"

definition getAbsolutePosition :: "gstate \<Rightarrow> shape \<Rightarrow> pos option" where
  "getAbsolutePosition s p =
     Some (case getParent s p of
             None \<Rightarrow> s_pos p
           | Some g \<Rightarrow> (fst (n_pos g) + fst (s_pos p), snd (n_pos g) + snd (s_pos p)))"

definition destroy :: "ref \<Rightarrow> gstate \<Rightarrow> gstate" where
  "destroy r s = s\<lparr>layer := filter (\<lambda>n. n_ref n \<noteq> r) (layer s)\<rparr>"

definition find_ports :: "node \<Rightarrow> string option \<Rightarrow> shape list" where
  "find_ports g nm = filter (\<lambda>c. Some (s_name c) = nm \<and> s_class c = Circle) (n_children g)"

fun splice_first :: "('a \<Rightarrow> bool) \<Rightarrow> 'a list \<Rightarrow> 'a list" where
  "splice_first P [] = []"
| "splice_first P (x # xs) = (if P x then xs else x # splice_first P xs)"

text \<open>
  \<open>splice_first P xs\<close> is \<^verbatim>\<open>i = xs.findIndex(P); if (i > -1) xs.splice(i, 1)\<close>.
\<close>

section \<open>createWire\<close>

definition new_wire :: "ref \<Rightarrow> string option \<Rightarrow> pos \<Rightarrow> pos \<Rightarrow> node" where
  "new_wire r i a b =
     \<lparr>n_ref = r, n_class = Line, n_id = i, n_name = [], n_pos = (0, 0),
      n_draggable = False, n_children = [],
      n_points = [fst a, snd a, fst b, snd b], n_contextmenu = Some i\<rparr>"

definition createWire ::
  "gstate \<Rightarrow> string option \<Rightarrow> shape \<Rightarrow> shape \<Rightarrow> gstate \<times> ref option completion" where
  "createWire s i fromPort toPort =
     (if getParent s fromPort = None \<or> getParent s toPort = None then (s, Throw)
      else
        let s1 = say LOG ''[createWire] Creating wire'' s in
        (case (getAbsolutePosition s1 fromPort, getAbsolutePosition s1 toPort) of
           (Some sourcePos, Some targetPos) \<Rightarrow>
             let wire = new_wire (next_ref s1) i sourcePos targetPos;
                 s2 = s1\<lparr>next_ref := Suc (next_ref s1),
                         layer := wire # layer s1,
                         connections := (connections s1)(i \<mapsto>
                           \<lparr>c_id = i, c_from = fromPort, c_to = toPort, c_line = n_ref wire\<rparr>)\<rparr>;
                 s3 = say LOG ''[createWire] Wire created and stored.'' (draw s2)
             in (s3, Return (Some (n_ref wire)))
         | _ \<Rightarrow>
             (say ERROR ''[createWire] Could not get absolute positions for ports.'' s1,
              Return None)))"

text \<open>
  The first line of \<^verbatim>\<open>createWire\<close> evaluates \<^verbatim>\<open>fromPort.getParent().id()\<close> and
  \<^verbatim>\<open>toPort.getParent().id()\<close> for its log message, which raises on a detached port.
  The new line is added to the layer and moved to the bottom, the map entry is set under
  \<^verbatim>\<open>id\<close> whether or not one exists, the listener is attached, the layer is drawn.
\<close>

section \<open>renderLoadedConnection\<close>

definition queue_if_absent :: "params \<Rightarrow> string \<Rightarrow> gstate \<Rightarrow> gstate" where
  "queue_if_absent p m s =
     (case find (\<lambda>q. connectionId q = connectionId p) (pendingConnections s) of
        None \<Rightarrow> (say LOG m s)\<lparr>pendingConnections := pendingConnections s @ [p]\<rparr>
      | Some alreadyQueued \<Rightarrow> s)"

definition warn_if :: "bool \<Rightarrow> string \<Rightarrow> gstate \<Rightarrow> gstate" where
  "warn_if b m s = (if b then say WARN m s else s)"

definition adopt_or_create ::
  "gstate \<Rightarrow> params \<Rightarrow> shape \<Rightarrow> shape \<Rightarrow> gstate \<times> bool completion" where
  "adopt_or_create s p sourceOutputPort targetInputPort =
     (let konvaLineExists = findOne (layer s) (js_str (connectionId p));
          mapEntryExists = (connections s (connectionId p) \<noteq> None)
      in case konvaLineExists of
           Some existing \<Rightarrow>
             let s1 = say WARN ''Line already exists on stage.'' s in
             if \<not> mapEntryExists then
               ((say WARN ''Line was on stage but not in connections Map. Adding to Map now.'' s1)
                  \<lparr>connections := (connections s1)(connectionId p \<mapsto>
                     \<lparr>c_id = connectionId p, c_from = sourceOutputPort,
                      c_to = targetInputPort, c_line = n_ref existing\<rparr>)\<rparr>,
                Return True)
             else (s1, Return True)
         | None \<Rightarrow>
             let s1 = warn_if mapEntryExists
                        ''Connection exists in Map but not on stage. Proceeding to recreate.'' s
             in (case createWire s1 (connectionId p) sourceOutputPort targetInputPort of
                   (s2, Throw) \<Rightarrow> (s2, Throw)
                 | (s2, Return (Some wire)) \<Rightarrow>
                     (say LOG ''Wire creation successful via createWire.'' s2, Return True)
                 | (s2, Return None) \<Rightarrow>
                     (say ERROR ''Wire creation failed via createWire.'' s2, Return False)))"

definition logPrefix :: "bool \<Rightarrow> params \<Rightarrow> string" where
  "logPrefix isRetry p =
     ''[renderLoadedConnection'' @ (if isRetry then ''-retry'' else []) @ '']('' @
     js_str (connectionId p) @ ''):''"

definition dequeue :: "bool \<Rightarrow> params \<Rightarrow> gstate \<Rightarrow> gstate" where
  "dequeue isRetry p s =
     (if find (\<lambda>q. connectionId q = connectionId p) (pendingConnections s) \<noteq> None
      then (say LOG (logPrefix isRetry p @ '' Removed successfully rendered connection from pending queue.'') s)
             \<lparr>pendingConnections :=
                splice_first (\<lambda>q. connectionId q = connectionId p) (pendingConnections s)\<rparr>
      else s)"

definition renderLoadedConnection ::
  "gstate \<Rightarrow> params \<Rightarrow> bool \<Rightarrow> gstate \<times> bool completion" where
  "renderLoadedConnection s0 p isRetry =
     (let s = say LOG (logPrefix isRetry p @ '' Attempting to render.'') s0
      in case (findOne (layer s) (js_str (sourceComponentId p)),
               findOne (layer s) (js_str (targetComponentId p))) of
           (Some sourceComponent, Some targetComponent) \<Rightarrow>
             if n_class sourceComponent \<noteq> Group \<or> n_class targetComponent \<noteq> Group
             then (s, Throw)
             else
               (case (find_ports sourceComponent (sourcePortName p),
                      find_ports targetComponent (targetPortName p)) of
                  (sourceOutputPort # _, targetInputPort # _) \<Rightarrow>
                    (case (getAbsolutePosition s sourceOutputPort,
                           getAbsolutePosition s targetInputPort) of
                       (Some sourcePortPos, Some targetPortPos) \<Rightarrow>
                         adopt_or_create (dequeue isRetry p s) p sourceOutputPort targetInputPort
                     | _ \<Rightarrow>
                         (say ERROR (logPrefix isRetry p @ '' Could not get absolute positions for ports.'') s,
                          Return False))
                | (sourcePorts, targetPorts) \<Rightarrow>
                    (queue_if_absent p (logPrefix isRetry p @ '' Queuing connection due to missing ports.'')
                       (warn_if (targetPorts = []) (logPrefix isRetry p @ '' Target port Circle not found.'')
                         (warn_if (sourcePorts = []) (logPrefix isRetry p @ '' Source port Circle not found.'') s)),
                     Return False))
         | (sourceComponent, targetComponent) \<Rightarrow>
             (queue_if_absent p (logPrefix isRetry p @ '' Queuing connection.'')
                (warn_if (targetComponent = None) (logPrefix isRetry p @ '' Target component not found.'')
                  (warn_if (sourceComponent = None) (logPrefix isRetry p @ '' Source component not found.'') s)),
              Return False))"

text \<open>
  The steps of \<^verbatim>\<open>renderLoadedConnection(params, isRetry)\<close> in the order of the source:
  both components are looked up by id on the stage; when one is missing the descriptor is
  pushed on \<^verbatim>\<open>pendingConnections\<close> unless \<^verbatim>\<open>find\<close> returns an entry with the same
  \<^verbatim>\<open>connectionId\<close>; the ports are the first \<^verbatim>\<open>Circle\<close> children with the given names
  (\<^verbatim>\<open>.find\<close> raises when the node found is not a container); when one is missing the
  descriptor is queued the same way; otherwise the first queued entry with this id is
  spliced out (\<open>dequeue\<close>), and \<open>adopt_or_create\<close> is the rest of the function from
  \<^verbatim>\<open>konvaLineExists\<close> on. \<open>logPrefix\<close> is the prefix of its messages: the name of the function, \<^verbatim>\<open>-retry\<close> on a retry, and the id in parentheses
  (\<^verbatim>\<open>undefined\<close> when the descriptor has none).
\<close>

section \<open>processPendingConnections and debounce\<close>

fun drain_ids :: "string option list \<Rightarrow> gstate \<Rightarrow> nat \<Rightarrow> gstate \<times> nat completion" where
  "drain_ids [] s successfullyRenderedCount = (s, Return successfullyRenderedCount)"
| "drain_ids (i # ids) s successfullyRenderedCount =
     (case find (\<lambda>q. connectionId q = i) (pendingConnections s) of
        None \<Rightarrow> drain_ids ids s successfullyRenderedCount
      | Some p \<Rightarrow>
          (case renderLoadedConnection s p True of
             (s', Throw) \<Rightarrow> (s', Throw)
           | (s', Return True) \<Rightarrow> drain_ids ids s' (Suc successfullyRenderedCount)
           | (s', Return False) \<Rightarrow> drain_ids ids s' successfullyRenderedCount))"

definition processPendingConnections :: "gstate \<Rightarrow> gstate \<times> unit completion" where
  "processPendingConnections s =
     (let connectionIdsToRetry = map connectionId (pendingConnections s) in
      if connectionIdsToRetry = [] then (s, Return ())
      else
        (case drain_ids connectionIdsToRetry
                (say LOG ''[processPendingConnections] Attempting to process pending connection(s)'' s) 0 of
           (s', Throw) \<Rightarrow> (s', Throw)
         | (s', Return successfullyRenderedCount) \<Rightarrow>
             if successfullyRenderedCount > 0
             then (draw (say LOG ''[processPendingConnections] Successfully rendered connection(s) from queue.'' s'),
                   Return ())
             else if pendingConnections s' \<noteq> []
             then (say LOG ''[processPendingConnections] No pending connections were rendered in this pass.'' s',
                   Return ())
             else (say LOG ''[processPendingConnections] No pending connections rendered, and queue is now empty.'' s',
                   Return ())))"

text \<open>
  \<open>drain_ids\<close> is the \<^verbatim>\<open>forEach\<close> over \<^verbatim>\<open>connectionIdsToRetry\<close>, the array of ids mapped
  from the queue before the loop; each round looks the id up in the queue as it is then.
  An exception of \<^verbatim>\<open>renderLoadedConnection\<close> is not caught here and ends the pass.
\<close>

definition clearTimeout :: "nat option \<Rightarrow> timer_state \<Rightarrow> timer_state" where
  "clearTimeout h c = c\<lparr>pending := filter (\<lambda>t. Some (fst t) \<noteq> h) (pending c)\<rparr>"

definition setTimeout :: "nat \<Rightarrow> timer_state \<Rightarrow> timer_state \<times> nat" where
  "setTimeout wait c =
     (c\<lparr>pending := pending c @ [(next_handle c, wait)], next_handle := Suc (next_handle c)\<rparr>,
      next_handle c)"

definition debounce_call :: "nat \<Rightarrow> gstate \<Rightarrow> gstate" where
  "debounce_call wait s =
     (let c1 = clearTimeout (timeout (timer s)) (timer s);
          (c2, h) = setTimeout wait c1
      in s\<lparr>timer := c2\<lparr>timeout := Some h\<rparr>\<rparr>)"

definition debouncedProcessPendingConnections :: "gstate \<Rightarrow> gstate" where
  "debouncedProcessPendingConnections = debounce_call 16"

definition later :: "gstate \<Rightarrow> gstate \<times> unit completion" where
  "later s = processPendingConnections (s\<lparr>timer := clearTimeout (timeout (timer s)) (timer s)\<rparr>)"

definition timeout_fires :: "nat \<Rightarrow> gstate \<Rightarrow> gstate \<times> unit completion" where
  "timeout_fires h s =
     (if h \<in> set (map fst (pending (timer s)))
      then later (s\<lparr>timer := (timer s)\<lparr>pending := filter (\<lambda>t. fst t \<noteq> h) (pending (timer s))\<rparr>\<rparr>)
      else (s, Return ()))"

text \<open>
  \<^verbatim>\<open>clearTimeout(h)\<close> takes the timer with handle \<open>h\<close> from the pending ones (and does
  nothing for \<^verbatim>\<open>undefined\<close> or a handle that is not pending); \<^verbatim>\<open>setTimeout\<close> adds a timer
  and returns its handle. \<open>debounce_call wait\<close> is one call of the function
  \<^verbatim>\<open>debounce(func, wait)\<close> returns: \<^verbatim>\<open>clearTimeout(timeout); timeout = setTimeout(later, wait)\<close>.
  \<open>later\<close> is the callback, \<^verbatim>\<open>clearTimeout(timeout); func()\<close> with
  \<^verbatim>\<open>processPendingConnections\<close> for \<^verbatim>\<open>func\<close>. \<open>timeout_fires h\<close> is the expiry of the timer
  with handle \<open>h\<close>: a pending timer stops being pending and its callback runs; a handle
  that is not pending (never set, cleared, or expired before) runs nothing.
\<close>

definition stage_on_add :: "gstate \<Rightarrow> node option \<Rightarrow> gstate" where
  "stage_on_add s target =
     (case target of
        None \<Rightarrow> s
      | Some t \<Rightarrow>
          if n_name t = ''component_group'' \<and> n_ref t \<in> set (map n_ref (layer s))
          then debouncedProcessPendingConnections
                 (say LOG ''[mainStage add event] Component group added to mainLayer'' s)
          else s)"

section \<open>socket.onmessage\<close>

datatype inbound = Undecodable | DecodedNull | Decoded "string option" "params option"

text \<open>
  \<^verbatim>\<open>event.data\<close> after \<^verbatim>\<open>JSON.parse\<close>: \<open>Undecodable\<close> when parsing raises,
  \<open>DecodedNull\<close> for the JSON text \<^verbatim>\<open>null\<close>, and otherwise the two properties the
  handler reads, \<^verbatim>\<open>method\<close> and \<^verbatim>\<open>params\<close> (\<open>None\<close> when absent or null; a value
  that is not an object has neither).
\<close>

definition set_child_text :: "ref \<Rightarrow> ref \<Rightarrow> string \<Rightarrow> node list \<Rightarrow> node list" where
  "set_child_text g d t ns =
     map (\<lambda>n. if n_ref n = g
               then n\<lparr>n_children := map (\<lambda>c. if s_ref c = d then c\<lparr>s_text := t\<rparr> else c)
                                          (n_children n)\<rparr>
               else n) ns"

definition add_child :: "ref \<Rightarrow> shape \<Rightarrow> node list \<Rightarrow> node list" where
  "add_child g c ns =
     map (\<lambda>n. if n_ref n = g then n\<lparr>n_children := n_children n @ [c]\<rparr> else n) ns"

definition emitOutput :: "gstate \<Rightarrow> params \<Rightarrow> gstate \<times> unit completion" where
  "emitOutput s0 p =
     (let s = say LOG ''[WebSocket] Received component.emitOutput'' s0;
          t = ''Output '' @ js_str (outputName p) @ '': '' @ data_json p
      in case findOne (layer s) (js_str (componentId p)) of
           None \<Rightarrow> (say WARN ''[WebSocket] Component not found on stage to display output.'' s,
                    Return ())
         | Some componentGroup \<Rightarrow>
             if n_class componentGroup \<noteq> Group then (s, Throw)
             else
               (case find (\<lambda>c. s_name c = ''data-display'') (n_children componentGroup) of
                  Some dataDisplay \<Rightarrow>
                    (draw (s\<lparr>layer := set_child_text (n_ref componentGroup) (s_ref dataDisplay) t
                                        (layer s)\<rparr>),
                     Return ())
                | None \<Rightarrow>
                    (case find (\<lambda>c. s_class c = Rect) (n_children componentGroup) of
                       None \<Rightarrow> (s, Throw)
                     | Some rect \<Rightarrow>
                         (draw (s\<lparr>next_ref := Suc (next_ref s),
                                  layer := add_child (n_ref componentGroup)
                                    \<lparr>s_ref = next_ref s, s_class = Text, s_name = ''data-display'',
                                     s_pos = (5, s_height rect + 5), s_height = 10, s_text = t\<rparr>
                                    (layer s)\<rparr>),
                          Return ()))))"

definition connection_created :: "gstate \<Rightarrow> params \<Rightarrow> gstate \<times> unit completion" where
  "connection_created s0 p =
     (let s = say LOG ''[WebSocket] Received v1.connection.created'' s0 in
      if connections s (connectionId p) \<noteq> None
      then (say LOG ''[WebSocket] Connection already exists (likely self-echo). Ignoring v1.connection.created.'' s,
            Return ())
      else
        (case renderLoadedConnection s p False of
           (s', Throw) \<Rightarrow> (s', Throw)
         | (s', Return True) \<Rightarrow>
             (say LOG ''[WebSocket] Live connection created successfully.'' s', Return ())
         | (s', Return False) \<Rightarrow>
             (say LOG ''[WebSocket] Live connection queued or failed to render immediately.'' s',
              Return ())))"

definition connection_removed :: "gstate \<Rightarrow> params \<Rightarrow> gstate" where
  "connection_removed s0 p =
     (let s = say LOG ''[WebSocket] Received v1.connection.removed'' s0;
          connectionIdToRemove = connectionId p
      in case connections s connectionIdToRemove of
           Some connEntry \<Rightarrow>
             say LOG ''[WebSocket] Live connection removed successfully via v1.connection.removed.''
               (draw ((destroy (c_line connEntry) s)
                        \<lparr>connections := (connections s)(connectionIdToRemove := None)\<rparr>))
         | None \<Rightarrow>
             say WARN ''[WebSocket] Could not find connection to remove via v1.connection.removed.'' s)"

definition dispatch :: "gstate \<Rightarrow> string option \<Rightarrow> params option \<Rightarrow> gstate \<times> unit completion" where
  "dispatch s m ps =
     (if m = Some ''v1.connection.load'' then
        (case ps of
           Some p \<Rightarrow> (case renderLoadedConnection s p False of
                        (s', Throw) \<Rightarrow> (s', Throw)
                      | (s', Return success) \<Rightarrow> (s', Return ()))
         | None \<Rightarrow> (say ERROR ''[WebSocket] v1.connection.load message received without params'' s,
                    Return ()))
      else if m = Some ''component.emitOutput'' then
        (case ps of None \<Rightarrow> (s, Throw) | Some p \<Rightarrow> emitOutput s p)
      else if m = Some ''v1.connection.created'' then
        (case ps of None \<Rightarrow> (say LOG ''[WebSocket] Received v1.connection.created'' s, Throw)
                  | Some p \<Rightarrow> connection_created s p)
      else if m = Some ''v1.connection.removed'' then
        (case ps of None \<Rightarrow> (say LOG ''[WebSocket] Received v1.connection.removed'' s, Throw)
                  | Some p \<Rightarrow> (connection_removed s p, Return ()))
      else (s, Return ()))"

definition onmessage :: "gstate \<Rightarrow> inbound \<Rightarrow> gstate" where
  "onmessage s0 d =
     (let s = say LOG ''[WebSocket] Message received'' s0;
          caught = say ERROR ''[WebSocket] Error parsing message or handling method''
      in case d of
           Undecodable \<Rightarrow> caught s
         | DecodedNull \<Rightarrow> caught (say LOG ''[WebSocket] Parsed message'' s)
         | Decoded m ps \<Rightarrow>
             (case dispatch (say LOG ''[WebSocket] Parsed message'' s) m ps of
                (s', Throw) \<Rightarrow> caught s'
              | (s', Return u) \<Rightarrow> s'))"

text \<open>
  \<open>dispatch\<close> is the \<^verbatim>\<open>if / else if\<close> chain on \<^verbatim>\<open>parsedMessage.method\<close> inside the
  \<^verbatim>\<open>try\<close>; reading a property of an absent \<^verbatim>\<open>params\<close> raises (the \<^verbatim>\<open>created\<close> and
  \<^verbatim>\<open>removed\<close> branches log \<^verbatim>\<open>parsedMessage.params\<close> first), and so does
  \<^verbatim>\<open>null.method\<close>. \<open>onmessage\<close> is the handler with its \<^verbatim>\<open>catch\<close>, which logs and
  returns. An entry of the map always holds a line object, so \<^verbatim>\<open>if (connEntry.line)\<close>
  is taken.
\<close>

section \<open>The wiring gesture\<close>

function dec :: "nat \<Rightarrow> string" where
  "dec n = (if n < 10 then [char_of (48 + n)] else dec (n div 10) @ [char_of (48 + n mod 10)])"
  by pat_completeness auto
termination
  by (relation "measure id") auto

declare dec.simps [simp del]

text \<open>
  \<open>dec n\<close> is the decimal text of a number, as string concatenation with
  \<^verbatim>\<open>Date.now()\<close> produces it. \<^verbatim>\<open>Date.now()\<close>, \<^verbatim>\<open>Math.random().toString(36).substr(2, 9)\<close>,
  \<^verbatim>\<open>confirm(...)\<close> and \<^verbatim>\<open>getPointerPosition()\<close> are inputs of the handlers.
\<close>

definition set_draggable :: "ref \<Rightarrow> bool \<Rightarrow> gstate \<Rightarrow> gstate" where
  "set_draggable g b s =
     s\<lparr>layer := map (\<lambda>n. if n_ref n = g then n\<lparr>n_draggable := b\<rparr> else n) (layer s)\<rparr>"

definition destroy_currentWire :: "string \<Rightarrow> gstate \<Rightarrow> gstate" where
  "destroy_currentWire m s =
     (case currentWire s of None \<Rightarrow> s | Some w \<Rightarrow> say LOG m (destroy w s))"

definition reenable_drag :: "string \<Rightarrow> gstate \<Rightarrow> gstate" where
  "reenable_drag m s =
     (case startPort s of
        None \<Rightarrow> s
      | Some sp \<Rightarrow>
          (case getParent s sp of
             None \<Rightarrow> s
           | Some sourceComponentGroup \<Rightarrow>
               say LOG m (set_draggable (n_ref sourceComponentGroup) True s)))"

definition reset_wiring :: "gstate \<Rightarrow> gstate" where
  "reset_wiring s = s\<lparr>isWiring := False, currentWire := None, startPort := None\<rparr>"

definition output_mousedown :: "gstate \<Rightarrow> shape \<Rightarrow> gstate" where
  "output_mousedown s0 outputPort =
     (let s1 = s0\<lparr>isWiring := True, startPort := Some outputPort\<rparr>;
          s2 = (case getParent s1 outputPort of
                  None \<Rightarrow> s1
                | Some componentGroup \<Rightarrow>
                    say LOG ''[output mousedown] Disabled dragging for component''
                      (set_draggable (n_ref componentGroup) False s1));
          startPos = the (getAbsolutePosition s2 outputPort);
          s3 = say LOG ''[output mousedown] startPos'' s2;
          wire = \<lparr>n_ref = next_ref s3, n_class = Line, n_id = None, n_name = [], n_pos = (0, 0),
                  n_draggable = False, n_children = [],
                  n_points = [fst startPos, snd startPos, fst startPos, snd startPos],
                  n_contextmenu = None\<rparr>;
          s4 = (say LOG ''[output mousedown] currentWire created'' s3)
                 \<lparr>currentWire := Some (n_ref wire), next_ref := Suc (next_ref s3)\<rparr>;
          s5 = s4\<lparr>layer := layer s4 @ [wire]\<rparr>
      in draw (say LOG ''[output mousedown] About to draw mainLayer.'' s5))"

definition stage_mousemove :: "gstate \<Rightarrow> pos option \<Rightarrow> gstate \<times> unit completion" where
  "stage_mousemove s pointer =
     (case currentWire s of
        None \<Rightarrow> (s, Return ())
      | Some w \<Rightarrow>
          if \<not> isWiring s then (s, Return ())
          else
            let s1 = say LOG ''[stage mousemove] pos'' s in
            (case pointer of
               None \<Rightarrow> (s1, Throw)
             | Some pos \<Rightarrow>
                 let s2 = s1\<lparr>layer := map (\<lambda>n. if n_ref n = w
                                              then n\<lparr>n_points := take 2 (n_points n) @ [fst pos, snd pos]\<rparr>
                                              else n) (layer s1)\<rparr>
                 in (draw (say LOG ''[stage mousemove] About to draw mainLayer.''
                            (say LOG ''[stage mousemove] currentWire points updated'' s2)),
                     Return ())))"

definition stage_mouseup :: "gstate \<Rightarrow> string \<Rightarrow> gstate" where
  "stage_mouseup s0 target_name =
     (let s = say LOG ''[stage mouseup] Triggered.'' s0 in
      if isWiring s \<and> target_name \<noteq> ''input'' then
        draw (reset_wiring
               (reenable_drag ''[stage mouseup] Re-enabled dragging for source component''
                 (destroy_currentWire ''[stage mouseup] Wiring cancelled on stage. Destroying currentWire.'' s)))
      else if \<not> isWiring s \<and> currentWire s \<noteq> None then
        draw ((destroy (the (currentWire s))
                 (say LOG ''[stage mouseup] Cleanup: !isWiring but currentWire exists. Destroying currentWire.'' s))
                \<lparr>currentWire := None\<rparr>)
      else s)"

definition create_request :: "string \<Rightarrow> string option \<Rightarrow> string option \<Rightarrow> shape \<Rightarrow> shape \<Rightarrow> nat \<Rightarrow> rpc" where
  "create_request cid sourceComponentId' targetComponentId' sp inputPort now =
     \<lparr>jsonrpc = ''2.0'', rq_method = ''v1.connection.create'',
      rq_params = \<lparr>connectionId = Some cid, sourceComponentId = sourceComponentId',
                   sourcePortName = Some (s_name sp), targetComponentId = targetComponentId',
                   targetPortName = Some (s_name inputPort), componentId = None,
                   outputName = None, data_json = ''undefined''\<rparr>,
      rq_id = ''msg_create_'' @ dec now\<rparr>"

definition commit_wire ::
  "gstate \<Rightarrow> shape \<Rightarrow> shape \<Rightarrow> nat \<Rightarrow> string \<Rightarrow> nat \<Rightarrow> gstate \<times> unit completion" where
  "commit_wire s0 sp inputPort now rnd now' =
     (let s1 = destroy_currentWire ''[input mouseup] Destroyed temporary currentWire.''
                 (say LOG ''[input mouseup] Successful connection attempt.'' s0);
          connectionId' = ''conn_'' @ dec now @ ''_'' @ rnd
      in case (getParent s1 sp, getParent s1 inputPort) of
           (Some sg, Some tg) \<Rightarrow>
             (case createWire s1 (Some connectionId') sp inputPort of
                (s2, Throw) \<Rightarrow> (s2, Throw)
              | (s2, Return newWireObject) \<Rightarrow>
                  let s3 =
                    (case newWireObject of
                       Some w \<Rightarrow>
                         let s' = say LOG ''[input mouseup] Permanent wire created via createWire.'' s2 in
                         if socket_open s'
                         then say LOG ''[input mouseup] Sent connection.create message''
                                (s'\<lparr>sent := sent s' @
                                      [create_request connectionId' (n_id sg) (n_id tg) sp inputPort now']\<rparr>)
                         else say ERROR ''[input mouseup] WebSocket is not open. Cannot send connection.create message.'' s'
                     | None \<Rightarrow> say ERROR ''[input mouseup] Failed to create permanent wire.'' s2)
                  in (reset_wiring
                        (reenable_drag ''[input mouseup] Re-enabled dragging for source component'' s3),
                      Return ()))
         | _ \<Rightarrow> (s1, Throw))"

definition input_mouseup ::
  "gstate \<Rightarrow> shape \<Rightarrow> nat \<Rightarrow> string \<Rightarrow> nat \<Rightarrow> gstate \<times> unit completion" where
  "input_mouseup s0 inputPort now rnd now' =
     (let s = say LOG ''[input mouseup] Condition check'' (say LOG ''[input mouseup] Triggered.'' s0) in
      case startPort s of
        Some sp \<Rightarrow>
          if isWiring s \<and> map_option n_ref (getParent s sp) \<noteq> map_option n_ref (getParent s inputPort)
          then commit_wire s sp inputPort now rnd now'
          else (draw (reset_wiring
                        (reenable_drag ''[input mouseup][failure path] Re-enabled dragging for source component''
                          (destroy_currentWire ''[input mouseup] Destroyed temporary currentWire due to failed connection.''
                            (say LOG ''[input mouseup] Failed connection or self-connection attempt.'' s)))),
                Return ())
      | None \<Rightarrow>
          (draw (reset_wiring
                   (destroy_currentWire ''[input mouseup] Destroyed temporary currentWire due to failed connection.''
                     (say LOG ''[input mouseup] Failed connection or self-connection attempt.'' s))),
           Return ()))"

definition release_on_input ::
  "gstate \<Rightarrow> shape \<Rightarrow> nat \<Rightarrow> string \<Rightarrow> nat \<Rightarrow> gstate \<times> unit completion" where
  "release_on_input s inputPort now rnd now' =
     (case input_mouseup s inputPort now rnd now' of
        (s', Throw) \<Rightarrow> (s', Throw)
      | (s', Return u) \<Rightarrow> (stage_mouseup s' (s_name inputPort), Return ()))"

text \<open>
  \<open>input_mouseup\<close> is the listener of an input port, \<open>commit_wire\<close> its first branch.
  The two parents are compared as objects. \<^verbatim>\<open>startPort.getParent().id()\<close> and
  \<^verbatim>\<open>inputPort.getParent().id()\<close> raise when the parent is null. A \<^verbatim>\<open>mouseup\<close> on a
  port bubbles to the stage, so \<open>release_on_input\<close> runs the stage listener after the
  port's, with the port as \<^verbatim>\<open>e.target\<close>; \<open>stage_mouseup\<close> alone is a release anywhere
  else, its argument the name of the node under the pointer (empty for the stage).
\<close>

section \<open>Deleting a wire, dropping a component\<close>

definition delete_request :: "string option \<Rightarrow> nat \<Rightarrow> rpc" where
  "delete_request i now =
     \<lparr>jsonrpc = ''2.0'', rq_method = ''v1.connection.delete'',
      rq_params = \<lparr>connectionId = i, sourceComponentId = None, sourcePortName = None,
                   targetComponentId = None, targetPortName = None, componentId = None,
                   outputName = None, data_json = ''undefined''\<rparr>,
      rq_id = ''msg_delete_'' @ dec now\<rparr>"

definition wire_contextmenu :: "gstate \<Rightarrow> node \<Rightarrow> bool \<Rightarrow> nat \<Rightarrow> gstate" where
  "wire_contextmenu s wire confirmed now =
     (case n_contextmenu wire of
        None \<Rightarrow> s
      | Some i \<Rightarrow>
          if \<not> confirmed then s
          else
            let s1 = (if socket_open s
                      then say LOG ''[createWire] Sent connection.delete''
                             (s\<lparr>sent := sent s @ [delete_request i now]\<rparr>)
                      else say ERROR ''[createWire] WebSocket not open. Cannot send connection.delete'' s);
                s2 = (if connections s1 i \<noteq> None
                      then say LOG ''[createWire] Connection removed from Map.''
                             (s1\<lparr>connections := (connections s1)(i := None)\<rparr>)
                      else say WARN ''[createWire] Connection not found in Map for deletion.'' s1)
            in say LOG ''[createWire] Connection visual line deleted from frontend.''
                 (draw (destroy (n_ref wire) s2)))"

definition new_component :: "ref \<Rightarrow> string \<Rightarrow> pos \<Rightarrow> node" where
  "new_component r i pointer =
     \<lparr>n_ref = r, n_class = Group, n_id = Some i, n_name = ''component_group'',
      n_pos = (fst pointer - 50 / 2, snd pointer - 50 / 2), n_draggable = True,
      n_children =
        [\<lparr>s_ref = r + 1, s_class = Rect, s_name = [], s_pos = (0, 0), s_height = 50, s_text = []\<rparr>,
         \<lparr>s_ref = r + 2, s_class = Text, s_name = [], s_pos = (0, 0), s_height = 50,
          s_text = ''Dummy Component''\<rparr>,
         \<lparr>s_ref = r + 3, s_class = Circle, s_name = ''input'', s_pos = (0, 50 / 2), s_height = 10,
          s_text = []\<rparr>,
         \<lparr>s_ref = r + 4, s_class = Circle, s_name = ''output'', s_pos = (50, 50 / 2), s_height = 10,
          s_text = []\<rparr>],
      n_points = [], n_contextmenu = None\<rparr>"

definition dummy_dragend :: "gstate \<Rightarrow> pos option \<Rightarrow> nat \<Rightarrow> string \<Rightarrow> gstate" where
  "dummy_dragend s0 pointerPosition now rnd =
     (let s = say LOG ''Sidebar dummy component position reset.''
                (say LOG ''Sidebar dummy component drag ended.'' s0)
      in case pointerPosition of
           None \<Rightarrow> say WARN ''Drop event occurred, but pointer position is not available'' s
         | Some pp \<Rightarrow>
             if (fst pp > 0 \<and> fst pp < 500) \<and> (snd pp > 0 \<and> snd pp < 500)
             then
               say LOG ''New component group with ports created on main stage.''
                 (draw ((say LOG ''Drop position - Within bounds.'' s)
                    \<lparr>next_ref := next_ref s + 5,
                     layer := layer s @ [new_component (next_ref s) (''comp_'' @ dec now @ ''_'' @ rnd) pp]\<rparr>))
             else say LOG ''Drop position - Outside main stage bounds.'' s)"

definition init :: gstate where
  "init =
     \<lparr>layer = [\<lparr>n_ref = 0, n_class = Rect, n_id = None, n_name = [], n_pos = (50, 50),
                n_draggable = False, n_children = [], n_points = [], n_contextmenu = None\<rparr>],
      connections = Map.empty, pendingConnections = [], isWiring = False, currentWire = None,
      startPort = None, socket_open = False, sent = [], console = [], draws = 1,
      timer = \<lparr>timeout = None, pending = [], next_handle = 1\<rparr>, next_ref = 1\<rparr>"

text \<open>
  \<open>wire_contextmenu\<close> is the listener \<^verbatim>\<open>createWire\<close> attaches to a wire (\<open>wire\<close> is
  \<^verbatim>\<open>this\<close>, \<open>i\<close> the \<^verbatim>\<open>id\<close> of the closure). \<open>dummy_dragend\<close> drops a component from the
  sidebar: a group with a rectangle, a label and the two port circles named
  \<^verbatim>\<open>input\<close> and \<open>output\<close>. \<open>init\<close> is the state once the script has run: the layer holds
  \<^verbatim>\<open>mainRect\<close> and has been drawn once.
\<close>

section \<open>Vocabulary of the properties\<close>

text \<open>
  The three ways \<^verbatim>\<open>renderLoadedConnection\<close> can go, read off its conditions:
  \<open>endpoints s p\<close> are the two port circles it finds when both components are groups on
  the stage and both ports exist; \<open>raises s p\<close> says that both ids are found and one of
  the nodes found is not a container; \<open>unresolved s p\<close> is what remains: a component
  or a port is missing.
\<close>

definition endpoints :: "gstate \<Rightarrow> params \<Rightarrow> (shape \<times> shape) option" where
  "endpoints s p =
     (case (findOne (layer s) (js_str (sourceComponentId p)),
            findOne (layer s) (js_str (targetComponentId p))) of
        (Some sc, Some tc) \<Rightarrow>
          if n_class sc = Group \<and> n_class tc = Group then
            (case (find_ports sc (sourcePortName p), find_ports tc (targetPortName p)) of
               (a # _, b # _) \<Rightarrow> Some (a, b)
             | _ \<Rightarrow> None)
          else None
      | _ \<Rightarrow> None)"

definition raises :: "gstate \<Rightarrow> params \<Rightarrow> bool" where
  "raises s p =
     (case (findOne (layer s) (js_str (sourceComponentId p)),
            findOne (layer s) (js_str (targetComponentId p))) of
        (Some sc, Some tc) \<Rightarrow> n_class sc \<noteq> Group \<or> n_class tc \<noteq> Group
      | _ \<Rightarrow> False)"

definition unresolved :: "gstate \<Rightarrow> params \<Rightarrow> bool" where
  "unresolved s p = (endpoints s p = None \<and> \<not> raises s p)"

text \<open>\<open>quiet s s'\<close>: the state \<open>s'\<close> differs from \<open>s\<close> in its console output at most.\<close>

definition quiet :: "gstate \<Rightarrow> gstate \<Rightarrow> bool" where
  "quiet s s' = (s'\<lparr>console := console s\<rparr> = s)"

text \<open>A connection descriptor with its five fields present.\<close>

definition descr :: "string \<Rightarrow> string \<Rightarrow> string \<Rightarrow> string \<Rightarrow> string \<Rightarrow> params" where
  "descr i sc sp tc tp =
     \<lparr>connectionId = Some i, sourceComponentId = Some sc, sourcePortName = Some sp,
      targetComponentId = Some tc, targetPortName = Some tp, componentId = None,
      outputName = None, data_json = ''undefined''\<rparr>"

text \<open>
  \<open>edges s X\<close> are the visual edges with id \<open>X\<close>: the lines on the layer carrying that id.
  \<open>consistent s\<close> is what the code maintains between the canvas and the map: a node with
  the \<^verbatim>\<open>contextmenu\<close> listener of \<^verbatim>\<open>createWire\<close> is a line whose id is the id of the closure,
  and every line with an id is the \<^verbatim>\<open>line\<close> of the map entry stored under that id. It holds
  of \<open>init\<close> and every listener preserves it (the \<open>_consistent\<close> lemmas below), a release
  on an input port under the assumption that the id minted from \<^verbatim>\<open>Date.now()\<close> and
  \<^verbatim>\<open>Math.random()\<close> is not the id of a line already on the canvas.
\<close>

definition edges :: "gstate \<Rightarrow> string \<Rightarrow> node list" where
  "edges s X = filter (\<lambda>n. n_class n = Line \<and> n_id n = Some X) (layer s)"

definition consistent :: "gstate \<Rightarrow> bool" where
  "consistent s =
     (\<forall>n\<in>set (layer s).
        (\<forall>i. n_contextmenu n = Some i \<longrightarrow> n_class n = Line \<and> n_id n = i) \<and>
        (n_class n = Line \<longrightarrow>
           (\<forall>X. n_id n = Some X \<longrightarrow>
                (\<exists>e. connections s (Some X) = Some e \<and> c_line e = n_ref n))))"

text \<open>The attributes of a node that \<open>consistent\<close> reads.\<close>

definition skeleton :: "node \<Rightarrow> ref \<times> klass \<times> string option \<times> string option option" where
  "skeleton n = (n_ref n, n_class n, n_id n, n_contextmenu n)"

text \<open>An example state: one wire \<^verbatim>\<open>c1\<close> on the canvas, stored in the map.\<close>

definition stored_wire :: gstate where
  "stored_wire = init\<lparr>layer := [new_wire 1 (Some ''c1'') (0, 0) (1, 1)],
     connections := [Some ''c1'' \<mapsto>
        \<lparr>c_id = Some ''c1'',
         c_from = \<lparr>s_ref = 2, s_class = Circle, s_name = ''output'', s_pos = (0, 0), s_height = 10, s_text = []\<rparr>,
         c_to = \<lparr>s_ref = 3, s_class = Circle, s_name = ''input'', s_pos = (0, 0), s_height = 10, s_text = []\<rparr>,
         c_line = 1\<rparr>]\<rparr>"

text \<open>
  \<open>attempts s X\<close> counts the resolution attempts made from the queue so far for the
  descriptors whose id prints as \<open>X\<close>: the console lines with which
  \<^verbatim>\<open>renderLoadedConnection(params, true)\<close> begins, which carry the id.
\<close>

definition attempts :: "gstate \<Rightarrow> string \<Rightarrow> nat" where
  "attempts s X =
     length (filter (\<lambda>e. e = (LOG, ''[renderLoadedConnection-retry]('' @ X @ ''): Attempting to render.''))
               (console s))"

text \<open>
  Example states: the components \<^verbatim>\<open>a\<close> and \<^verbatim>\<open>b\<close> dropped on the canvas, and the same
  with two descriptors between them in the queue.
\<close>

definition two_components :: gstate where
  "two_components = init\<lparr>layer := layer init @ [new_component 1 ''a'' (100, 100), new_component 6 ''b'' (300, 100)],
                         next_ref := 11\<rparr>"

definition two_queued :: gstate where
  "two_queued = two_components\<lparr>pendingConnections :=
     [descr ''c1'' ''a'' ''output'' ''b'' ''input'', descr ''c2'' ''b'' ''output'' ''a'' ''input'']\<rparr>"


text \<open>The broadcast of a connection another client created, as the server sends it.\<close>

definition created_msg :: "params \<Rightarrow> inbound" where
  "created_msg p = Decoded (Some ''v1.connection.created'') (Some p)"

text \<open>
  \<open>fails s d\<close>: handling the message \<open>d\<close> in state \<open>s\<close> raises inside the \<^verbatim>\<open>try\<close>, in
  \<^verbatim>\<open>JSON.parse\<close> or in the dispatch on the method.
\<close>

definition fails :: "gstate \<Rightarrow> inbound \<Rightarrow> bool" where
  "fails s d =
     (case d of
        Undecodable \<Rightarrow> True
      | DecodedNull \<Rightarrow> True
      | Decoded m ps \<Rightarrow> snd (dispatch s m ps) = Throw)"

text \<open>
  The port circles of the components \<^verbatim>\<open>a\<close> and \<open>b\<close> of \<open>two_components\<close>, and
  \<open>stale_entry\<close>: that state with an entry \<^verbatim>\<open>c1\<close> in the map and no line \<^verbatim>\<open>c1\<close> on the
  layer; the entry has the ports the other way round and a line that is not there.
\<close>

definition a_input :: shape where
  "a_input = \<lparr>s_ref = 4, s_class = Circle, s_name = ''input'', s_pos = (0, 25), s_height = 10, s_text = []\<rparr>"

definition a_output :: shape where
  "a_output = \<lparr>s_ref = 5, s_class = Circle, s_name = ''output'', s_pos = (50, 25), s_height = 10, s_text = []\<rparr>"

definition b_input :: shape where
  "b_input = \<lparr>s_ref = 9, s_class = Circle, s_name = ''input'', s_pos = (0, 25), s_height = 10, s_text = []\<rparr>"

definition b_output :: shape where
  "b_output = \<lparr>s_ref = 10, s_class = Circle, s_name = ''output'', s_pos = (50, 25), s_height = 10, s_text = []\<rparr>"

definition stale_entry :: gstate where
  "stale_entry = two_components\<lparr>connections :=
     [Some ''c1'' \<mapsto> \<lparr>c_id = Some ''c1'', c_from = b_output, c_to = a_input, c_line = 99\<rparr>]\<rparr>"

text \<open>
  The wiring gesture. \<open>fresh s\<close>: the objects on the layer were allocated before the next
  one will be, so a new object is none of them. \<open>drag s outputPort moves\<close> is a press on
  an output port followed by pointer moves over the stage. \<open>dragging s0 N outputPort s\<close>
  describes the states \<open>s\<close> of a drag begun at \<open>s0\<close> on a port of the node \<open>N\<close>: the wiring
  variables are set, the draft line is the one new object, on top of the layer, the node
  \<open>N\<close> is not draggable, and the map, the queue and the socket are as they were.
\<close>

definition fresh :: "gstate \<Rightarrow> bool" where
  "fresh s = (\<forall>n\<in>set (layer s). n_ref n < next_ref s)"

definition drag :: "gstate \<Rightarrow> shape \<Rightarrow> pos option list \<Rightarrow> gstate" where
  "drag s outputPort moves =
     foldl (\<lambda>t pointer. fst (stage_mousemove t pointer)) (output_mousedown s outputPort) moves"

definition dragging :: "gstate \<Rightarrow> node \<Rightarrow> shape \<Rightarrow> gstate \<Rightarrow> bool" where
  "dragging s0 N outputPort s =
     (isWiring s \<and> startPort s = Some outputPort \<and> currentWire s = Some (next_ref s0) \<and>
      next_ref s = Suc (next_ref s0) \<and> connections s = connections s0 \<and>
      pendingConnections s = pendingConnections s0 \<and> sent s = sent s0 \<and>
      socket_open s = socket_open s0 \<and>
      (\<exists>d. layer s = layer (set_draggable (n_ref N) False s0) @ [d] \<and>
           n_ref d = next_ref s0 \<and> n_children d = []))"

text \<open>
  The direction of a port is its name: the drop handler creates each component with one
  circle named \<^verbatim>\<open>input\<close>, which gets the \<^verbatim>\<open>mouseup\<close> listener, and one named \<^verbatim>\<open>output\<close>,
  which gets the \<^verbatim>\<open>mousedown\<close> listener.
\<close>

definition is_output :: "shape \<Rightarrow> bool" where
  "is_output p = (s_class p = Circle \<and> s_name p = ''output'')"

definition is_input :: "shape \<Rightarrow> bool" where
  "is_input p = (s_class p = Circle \<and> s_name p = ''input'')"


section \<open>Basic facts\<close>

lemma say_simps [simp]:
  "layer (say l m s) = layer s" "connections (say l m s) = connections s"
  "pendingConnections (say l m s) = pendingConnections s" "isWiring (say l m s) = isWiring s"
  "currentWire (say l m s) = currentWire s" "startPort (say l m s) = startPort s"
  "socket_open (say l m s) = socket_open s" "sent (say l m s) = sent s"
  "draws (say l m s) = draws s" "timer (say l m s) = timer s"
  "next_ref (say l m s) = next_ref s" "console (say l m s) = console s @ [(l, m)]"
  by (simp_all add: say_def)

lemma warn_if_simps [simp]:
  "layer (warn_if b m s) = layer s" "connections (warn_if b m s) = connections s"
  "pendingConnections (warn_if b m s) = pendingConnections s" "isWiring (warn_if b m s) = isWiring s"
  "currentWire (warn_if b m s) = currentWire s" "startPort (warn_if b m s) = startPort s"
  "socket_open (warn_if b m s) = socket_open s" "sent (warn_if b m s) = sent s"
  "draws (warn_if b m s) = draws s" "timer (warn_if b m s) = timer s"
  "next_ref (warn_if b m s) = next_ref s"
  by (simp_all add: warn_if_def)

lemma quiet_refl [simp]: "quiet s s"
  by (simp add: quiet_def)

lemma quiet_say [simp]: "quiet s (say l m s') = quiet s s'"
  by (simp add: quiet_def say_def)

lemma quiet_warn_if [simp]: "quiet s (warn_if b m s') = quiet s s'"
  by (simp add: warn_if_def)

lemma quiet_trans: "quiet s t \<Longrightarrow> quiet t u \<Longrightarrow> quiet s u"
  unfolding quiet_def
  by (metis gstate.surjective gstate.update_convs(9))

lemma getParent_say [simp]: "getParent (say l m s) p = getParent s p"
  by (simp add: getParent_def)

lemma getParent_warn_if [simp]: "getParent (warn_if b m s) p = getParent s p"
  by (simp add: getParent_def)

lemma getAbsolutePosition_Some: "\<exists>q. getAbsolutePosition s p = Some q"
  by (simp add: getAbsolutePosition_def)

lemma find_Some_ex: "find P xs = Some x \<Longrightarrow> \<exists>q\<in>set xs. P q"
  by (auto simp: find_Some_iff)

lemma queue_if_absent_pending:
  "pendingConnections (queue_if_absent p m s) =
     (if \<exists>q\<in>set (pendingConnections s). connectionId q = connectionId p
      then pendingConnections s else pendingConnections s @ [p])"
  by (auto simp: queue_if_absent_def find_None_iff split: option.splits dest: find_Some_ex)

lemma queue_if_absent_frame [simp]:
  "layer (queue_if_absent p m s) = layer s" "connections (queue_if_absent p m s) = connections s"
  "isWiring (queue_if_absent p m s) = isWiring s"
  "currentWire (queue_if_absent p m s) = currentWire s" "startPort (queue_if_absent p m s) = startPort s"
  "socket_open (queue_if_absent p m s) = socket_open s" "sent (queue_if_absent p m s) = sent s"
  "draws (queue_if_absent p m s) = draws s" "timer (queue_if_absent p m s) = timer s"
  "next_ref (queue_if_absent p m s) = next_ref s"
  by (simp_all add: queue_if_absent_def split: option.splits)

lemma rLC_missing:
  assumes "findOne (layer s) (js_str (sourceComponentId p)) = None \<or>
           findOne (layer s) (js_str (targetComponentId p)) = None"
  shows "renderLoadedConnection s p r =
          (queue_if_absent p (logPrefix r p @ '' Queuing connection.'')
             (warn_if (findOne (layer s) (js_str (targetComponentId p)) = None)
                (logPrefix r p @ '' Target component not found.'')
                (warn_if (findOne (layer s) (js_str (sourceComponentId p)) = None)
                   (logPrefix r p @ '' Source component not found.'')
                   (say LOG (logPrefix r p @ '' Attempting to render.'') s))),
           Return False)"
  using assms
  by (cases "findOne (layer s) (js_str (sourceComponentId p))";
      cases "findOne (layer s) (js_str (targetComponentId p))")
     (simp_all add: renderLoadedConnection_def Let_def)

lemma rLC_raises:
  assumes "raises s p"
  shows "renderLoadedConnection s p r = (say LOG (logPrefix r p @ '' Attempting to render.'') s, Throw)"
  using assms
  by (cases "findOne (layer s) (js_str (sourceComponentId p))";
      cases "findOne (layer s) (js_str (targetComponentId p))")
     (simp_all add: renderLoadedConnection_def raises_def Let_def)

lemma rLC_no_ports:
  assumes "findOne (layer s) (js_str (sourceComponentId p)) = Some sc"
      and "findOne (layer s) (js_str (targetComponentId p)) = Some tc"
      and "n_class sc = Group" and "n_class tc = Group"
      and "find_ports sc (sourcePortName p) = [] \<or> find_ports tc (targetPortName p) = []"
  shows "renderLoadedConnection s p r =
          (queue_if_absent p (logPrefix r p @ '' Queuing connection due to missing ports.'')
             (warn_if (find_ports tc (targetPortName p) = [])
                (logPrefix r p @ '' Target port Circle not found.'')
                (warn_if (find_ports sc (sourcePortName p) = [])
                   (logPrefix r p @ '' Source port Circle not found.'')
                   (say LOG (logPrefix r p @ '' Attempting to render.'') s))),
           Return False)"
  using assms
  by (cases "find_ports sc (sourcePortName p)"; cases "find_ports tc (targetPortName p)")
     (simp_all add: renderLoadedConnection_def Let_def)

lemma rLC_resolved:
  assumes "endpoints s p = Some (a, b)"
  shows "renderLoadedConnection s p r =
          adopt_or_create (dequeue r p (say LOG (logPrefix r p @ '' Attempting to render.'') s)) p a b"
  using assms
  by (auto simp: renderLoadedConnection_def endpoints_def Let_def getAbsolutePosition_def
           split: option.splits list.splits if_splits)

lemma draw_simps [simp]:
  "layer (draw s) = layer s" "connections (draw s) = connections s"
  "pendingConnections (draw s) = pendingConnections s" "isWiring (draw s) = isWiring s"
  "currentWire (draw s) = currentWire s" "startPort (draw s) = startPort s"
  "socket_open (draw s) = socket_open s" "sent (draw s) = sent s"
  "draws (draw s) = Suc (draws s)" "timer (draw s) = timer s"
  "next_ref (draw s) = next_ref s" "console (draw s) = console s"
  by (simp_all add: draw_def)

lemma getParent_layer: "layer s = layer t \<Longrightarrow> getParent s p = getParent t p"
  by (simp add: getParent_def)

lemma dequeue_simps [simp]:
  "layer (dequeue r p s) = layer s" "connections (dequeue r p s) = connections s"
  "isWiring (dequeue r p s) = isWiring s"
  "currentWire (dequeue r p s) = currentWire s" "startPort (dequeue r p s) = startPort s"
  "socket_open (dequeue r p s) = socket_open s" "sent (dequeue r p s) = sent s"
  "draws (dequeue r p s) = draws s" "timer (dequeue r p s) = timer s"
  "next_ref (dequeue r p s) = next_ref s"
  by (simp_all add: dequeue_def)

lemma splice_first_id: "\<forall>x\<in>set xs. \<not> P x \<Longrightarrow> splice_first P xs = xs"
  by (induction xs) auto

lemma dequeue_pending [simp]:
  "pendingConnections (dequeue r p s) =
     splice_first (\<lambda>q. connectionId q = connectionId p) (pendingConnections s)"
  by (simp add: dequeue_def find_None_iff splice_first_id)

lemma createWire_ok:
  assumes "getParent s a \<noteq> None" and "getParent s b \<noteq> None"
  shows "createWire s i a b =
          (say LOG ''[createWire] Wire created and stored.''
             (draw ((say LOG ''[createWire] Creating wire'' s)
                \<lparr>next_ref := Suc (next_ref s),
                  layer := new_wire (next_ref s) i (the (getAbsolutePosition s a))
                             (the (getAbsolutePosition s b)) # layer s,
                  connections := (connections s)(i \<mapsto>
                     \<lparr>c_id = i, c_from = a, c_to = b, c_line = next_ref s\<rparr>)\<rparr>)),
           Return (Some (next_ref s)))"
  using assms
  by (simp add: createWire_def Let_def getAbsolutePosition_def new_wire_def getParent_def)

lemma createWire_detached:
  assumes "getParent s a = None \<or> getParent s b = None"
  shows "createWire s i a b = (s, Throw)"
  using assms by (auto simp add: createWire_def)

lemma find_ports_child: "find_ports g nm = a # as \<Longrightarrow> a \<in> set (n_children g)"
  by (metis filter_is_subset find_ports_def list.set_intros(1) subsetD)

lemma findOne_mem: "findOne ns i = Some n \<Longrightarrow> n \<in> set ns \<and> n_id n = Some i"
  by (auto simp: findOne_def find_Some_iff)

lemma child_has_parent:
  "g \<in> set (layer s) \<Longrightarrow> a \<in> set (n_children g) \<Longrightarrow> getParent s a \<noteq> None"
  by (auto simp: getParent_def find_None_iff)

lemma endpoints_SomeD:
  assumes "endpoints s p = Some (a, b)"
  obtains sc tc where
    "findOne (layer s) (js_str (sourceComponentId p)) = Some sc"
    "findOne (layer s) (js_str (targetComponentId p)) = Some tc"
    "n_class sc = Group" "n_class tc = Group"
    "hd (find_ports sc (sourcePortName p)) = a" "find_ports sc (sourcePortName p) \<noteq> []"
    "hd (find_ports tc (targetPortName p)) = b" "find_ports tc (targetPortName p) \<noteq> []"
  using assms
  by (auto simp: endpoints_def split: option.splits list.splits if_splits)

lemma endpoints_parents:
  assumes "endpoints s p = Some (a, b)"
  shows "getParent s a \<noteq> None" and "getParent s b \<noteq> None"
proof -
  from assms obtain sc tc where
    sc: "findOne (layer s) (js_str (sourceComponentId p)) = Some sc" and
    tc: "findOne (layer s) (js_str (targetComponentId p)) = Some tc" and
    a: "hd (find_ports sc (sourcePortName p)) = a" "find_ports sc (sourcePortName p) \<noteq> []" and
    b: "hd (find_ports tc (targetPortName p)) = b" "find_ports tc (targetPortName p) \<noteq> []"
    by (rule endpoints_SomeD)
  from a have "a \<in> set (n_children sc)"
    by (cases "find_ports sc (sourcePortName p)") (auto dest: find_ports_child)
  with sc show "getParent s a \<noteq> None"
    by (meson child_has_parent findOne_mem)
  from b have "b \<in> set (n_children tc)"
    by (cases "find_ports tc (targetPortName p)") (auto dest: find_ports_child)
  with tc show "getParent s b \<noteq> None"
    by (meson child_has_parent findOne_mem)
qed

lemma aoc_existing:
  assumes "findOne (layer s) (js_str (connectionId p)) = Some n"
  shows "adopt_or_create s p a b =
          (if connections s (connectionId p) = None
           then (say WARN ''Line was on stage but not in connections Map. Adding to Map now.''
                   (say WARN ''Line already exists on stage.'' s))
                  \<lparr>connections := (connections s)(connectionId p \<mapsto>
                     \<lparr>c_id = connectionId p, c_from = a, c_to = b, c_line = n_ref n\<rparr>)\<rparr>
           else say WARN ''Line already exists on stage.'' s,
           Return True)"
  using assms by (simp add: adopt_or_create_def Let_def)

lemma aoc_create:
  assumes "findOne (layer s) (js_str (connectionId p)) = None"
      and "getParent s a \<noteq> None" and "getParent s b \<noteq> None"
  shows "adopt_or_create s p a b =
          (say LOG ''Wire creation successful via createWire.''
            (fst (createWire
               (warn_if (connections s (connectionId p) \<noteq> None)
                  ''Connection exists in Map but not on stage. Proceeding to recreate.'' s)
               (connectionId p) a b)),
           Return True)"
  using assms by (simp add: adopt_or_create_def Let_def createWire_ok)

lemma unresolved_cases:
  assumes "unresolved s p"
  shows "(findOne (layer s) (js_str (sourceComponentId p)) = None \<or>
          findOne (layer s) (js_str (targetComponentId p)) = None) \<or>
         (\<exists>sc tc. findOne (layer s) (js_str (sourceComponentId p)) = Some sc \<and>
                  findOne (layer s) (js_str (targetComponentId p)) = Some tc \<and>
                  n_class sc = Group \<and> n_class tc = Group \<and>
                  (find_ports sc (sourcePortName p) = [] \<or> find_ports tc (targetPortName p) = []))"
  using assms
  by (auto simp: unresolved_def endpoints_def raises_def split: option.splits list.splits if_splits)

lemma rLC_unresolved:
  assumes "unresolved s p"
  shows "snd (renderLoadedConnection s p r) = Return False"
    and "layer (fst (renderLoadedConnection s p r)) = layer s"
    and "connections (fst (renderLoadedConnection s p r)) = connections s"
    and "pendingConnections (fst (renderLoadedConnection s p r)) =
          (if \<exists>q\<in>set (pendingConnections s). connectionId q = connectionId p
           then pendingConnections s else pendingConnections s @ [p])"
    and "isWiring (fst (renderLoadedConnection s p r)) = isWiring s"
    and "currentWire (fst (renderLoadedConnection s p r)) = currentWire s"
    and "startPort (fst (renderLoadedConnection s p r)) = startPort s"
    and "socket_open (fst (renderLoadedConnection s p r)) = socket_open s"
    and "sent (fst (renderLoadedConnection s p r)) = sent s"
    and "draws (fst (renderLoadedConnection s p r)) = draws s"
    and "timer (fst (renderLoadedConnection s p r)) = timer s"
    and "next_ref (fst (renderLoadedConnection s p r)) = next_ref s"
  using unresolved_cases[OF assms]
  by (auto simp: rLC_missing rLC_no_ports queue_if_absent_pending)

lemma createWire_frame [simp]:
  "pendingConnections (fst (createWire s i a b)) = pendingConnections s"
  "isWiring (fst (createWire s i a b)) = isWiring s"
  "currentWire (fst (createWire s i a b)) = currentWire s"
  "startPort (fst (createWire s i a b)) = startPort s"
  "socket_open (fst (createWire s i a b)) = socket_open s"
  "sent (fst (createWire s i a b)) = sent s"
  "timer (fst (createWire s i a b)) = timer s"
  by (cases "getParent s a = None \<or> getParent s b = None";
      simp add: createWire_detached createWire_ok)+

lemma aoc_frame [simp]:
  "pendingConnections (fst (adopt_or_create s p a b)) = pendingConnections s"
  "isWiring (fst (adopt_or_create s p a b)) = isWiring s"
  "currentWire (fst (adopt_or_create s p a b)) = currentWire s"
  "startPort (fst (adopt_or_create s p a b)) = startPort s"
  "socket_open (fst (adopt_or_create s p a b)) = socket_open s"
  "sent (fst (adopt_or_create s p a b)) = sent s"
  "timer (fst (adopt_or_create s p a b)) = timer s"
proof -
  consider (ex) n where "findOne (layer s) (js_str (connectionId p)) = Some n"
    | (det) "findOne (layer s) (js_str (connectionId p)) = None"
            "getParent s a = None \<or> getParent s b = None"
    | (new) "findOne (layer s) (js_str (connectionId p)) = None"
            "getParent s a \<noteq> None" "getParent s b \<noteq> None"
    by (cases "findOne (layer s) (js_str (connectionId p))") blast+
  then have "pendingConnections (fst (adopt_or_create s p a b)) = pendingConnections s \<and>
    isWiring (fst (adopt_or_create s p a b)) = isWiring s \<and>
    currentWire (fst (adopt_or_create s p a b)) = currentWire s \<and>
    startPort (fst (adopt_or_create s p a b)) = startPort s \<and>
    socket_open (fst (adopt_or_create s p a b)) = socket_open s \<and>
    sent (fst (adopt_or_create s p a b)) = sent s \<and>
    timer (fst (adopt_or_create s p a b)) = timer s"
  proof cases
    case ex
    then show ?thesis by (simp add: aoc_existing)
  next
    case det
    then show ?thesis by (simp add: adopt_or_create_def Let_def createWire_detached)
  next
    case new
    then show ?thesis by (simp add: aoc_create)
  qed
  then show
    "pendingConnections (fst (adopt_or_create s p a b)) = pendingConnections s"
    "isWiring (fst (adopt_or_create s p a b)) = isWiring s"
    "currentWire (fst (adopt_or_create s p a b)) = currentWire s"
    "startPort (fst (adopt_or_create s p a b)) = startPort s"
    "socket_open (fst (adopt_or_create s p a b)) = socket_open s"
    "sent (fst (adopt_or_create s p a b)) = sent s"
    "timer (fst (adopt_or_create s p a b)) = timer s"
    by simp_all
qed

lemma rLC_trichotomy:
  "raises s p \<or> unresolved s p \<or> (\<exists>a b. endpoints s p = Some (a, b))"
  by (cases "endpoints s p") (auto simp: unresolved_def)

lemma rLC_pending:
  "pendingConnections (fst (renderLoadedConnection s p r)) =
     (if raises s p then pendingConnections s
      else if unresolved s p then
        (if \<exists>q\<in>set (pendingConnections s). connectionId q = connectionId p
         then pendingConnections s else pendingConnections s @ [p])
      else splice_first (\<lambda>q. connectionId q = connectionId p) (pendingConnections s))"
  using rLC_trichotomy[of s p]
  by (auto simp: rLC_raises rLC_unresolved rLC_resolved unresolved_def)

lemma set_splice_first: "set (splice_first P xs) \<subseteq> set xs"
  by (induction xs) auto

lemma distinct_splice_first:
  "distinct (map f xs) \<Longrightarrow> distinct (map f (splice_first P xs))"
proof (induction xs)
  case Nil
  then show ?case by simp
next
  case (Cons x xs)
  then show ?case using set_splice_first[of P xs] by auto
qed

lemma rLC_distinct:
  assumes "distinct (map connectionId (pendingConnections s))"
  shows "distinct (map connectionId (pendingConnections (fst (renderLoadedConnection s p r))))"
  using assms by (auto simp: rLC_pending distinct_splice_first)

lemma destroy_simps [simp]:
  "layer (destroy r s) = filter (\<lambda>n. n_ref n \<noteq> r) (layer s)"
  "connections (destroy r s) = connections s"
  "pendingConnections (destroy r s) = pendingConnections s" "isWiring (destroy r s) = isWiring s"
  "currentWire (destroy r s) = currentWire s" "startPort (destroy r s) = startPort s"
  "socket_open (destroy r s) = socket_open s" "sent (destroy r s) = sent s"
  "draws (destroy r s) = draws s" "timer (destroy r s) = timer s"
  "next_ref (destroy r s) = next_ref s" "console (destroy r s) = console s"
  by (simp_all add: destroy_def)

lemma dispatch_removed:
  "dispatch s (Some ''v1.connection.removed'') (Some p) = (connection_removed s p, Return ())"
  by (simp add: dispatch_def)

lemma onmessage_removed:
  "onmessage s (Decoded (Some ''v1.connection.removed'') (Some p)) =
     connection_removed
       (say LOG ''[WebSocket] Parsed message'' (say LOG ''[WebSocket] Message received'' s)) p"
  by (simp add: onmessage_def dispatch_removed Let_def)

lemma connection_removed_absent:
  assumes "connections s (connectionId p) = None"
  shows "connection_removed s p =
          say WARN ''[WebSocket] Could not find connection to remove via v1.connection.removed.''
            (say LOG ''[WebSocket] Received v1.connection.removed'' s)"
  using assms by (simp add: connection_removed_def Let_def)

lemma connection_removed_present:
  assumes "connections s (connectionId p) = Some e"
  shows "connection_removed s p =
          say LOG ''[WebSocket] Live connection removed successfully via v1.connection.removed.''
            (draw ((destroy (c_line e) (say LOG ''[WebSocket] Received v1.connection.removed'' s))
               \<lparr>connections := (connections s)(connectionId p := None)\<rparr>))"
  using assms by (simp add: connection_removed_def Let_def)

lemma connection_removed_pending [simp]:
  "pendingConnections (connection_removed s p) = pendingConnections s"
  by (cases "connections s (connectionId p)")
     (simp_all add: connection_removed_absent connection_removed_present)

lemma connection_removed_map [simp]:
  "connections (connection_removed s p) = (connections s)(connectionId p := None)"
  by (cases "connections s (connectionId p)")
     (auto simp add: connection_removed_absent connection_removed_present)

lemma connection_removed_edges:
  assumes "consistent s" and "connectionId p = Some X"
  shows "edges (connection_removed s p) X = []"
proof (cases "connections s (Some X)")
  case None
  with assms show ?thesis
    by (auto simp: connection_removed_absent edges_def consistent_def filter_empty_conv)
next
  case (Some e)
  with assms show ?thesis
    by (auto simp: connection_removed_present edges_def consistent_def filter_empty_conv)
qed

lemma connection_removed_consistent:
  assumes "consistent s"
  shows "consistent (connection_removed s p)"
proof (cases "connections s (connectionId p)")
  case None
  with assms show ?thesis
    by (simp add: connection_removed_absent consistent_def)
next
  case (Some e)
  with assms show ?thesis
    unfolding consistent_def
    by (simp add: connection_removed_present) (metis option.inject)
qed

lemma consistent_say [simp]: "consistent (say l m s) = consistent s"
  by (simp add: consistent_def)

lemma consistent_warn_if [simp]: "consistent (warn_if b m s) = consistent s"
  by (simp add: warn_if_def)

lemma consistent_draw [simp]: "consistent (draw s) = consistent s"
  by (simp add: consistent_def)

lemma consistent_dequeue [simp]: "consistent (dequeue r p s) = consistent s"
  by (simp add: consistent_def)

lemma consistent_queue_if_absent [simp]: "consistent (queue_if_absent p m s) = consistent s"
  by (simp add: consistent_def)

lemma consistent_destroy: "consistent s \<Longrightarrow> consistent (destroy r s)"
  by (simp add: consistent_def)

lemma edges_say [simp]: "edges (say l m s) X = edges s X"
  by (simp add: edges_def)

lemma edges_warn_if [simp]: "edges (warn_if b m s) X = edges s X"
  by (simp add: edges_def)

lemma createWire_consistent:
  assumes "consistent s" and "\<And>X. i = Some X \<Longrightarrow> edges s X = []"
  shows "consistent (fst (createWire s i a b))"
proof (cases "getParent s a = None \<or> getParent s b = None")
  case True
  with assms show ?thesis by (simp add: createWire_detached)
next
  case False
  then have ok: "getParent s a \<noteq> None" "getParent s b \<noteq> None" by auto
  have old: "n_class n = Line \<Longrightarrow> n_id n \<noteq> i \<or> n_id n = None"
    if "n \<in> set (layer s)" for n
    using that assms(2) by (cases i) (auto simp: edges_def filter_empty_conv)
  show ?thesis
    unfolding consistent_def
    using assms(1) old
    by (auto simp: createWire_ok[OF ok] new_wire_def consistent_def)
qed

lemma findOne_None_edges: "findOne (layer s) X = None \<Longrightarrow> edges s X = []"
  by (auto simp: findOne_def find_None_iff edges_def filter_empty_conv)

lemma aoc_consistent:
  assumes "consistent s"
  shows "consistent (fst (adopt_or_create s p a b))"
proof (cases "findOne (layer s) (js_str (connectionId p))")
  case None
  then have e: "\<And>X. connectionId p = Some X \<Longrightarrow> edges s X = []"
    by (auto simp: js_str_def dest: findOne_None_edges)
  have c: "consistent (fst (createWire (warn_if (connections s (connectionId p) \<noteq> None)
             ''Connection exists in Map but not on stage. Proceeding to recreate.'' s)
             (connectionId p) a b))"
    by (rule createWire_consistent) (use assms e in simp_all)
  show ?thesis
  proof (cases "getParent s a = None \<or> getParent s b = None")
    case True
    with None assms show ?thesis
      by (simp add: adopt_or_create_def Let_def createWire_detached)
  next
    case False
    with None c show ?thesis by (simp add: aoc_create)
  qed
next
  case (Some n)
  show ?thesis
  proof (cases "connections s (connectionId p)")
    case None
    with Some assms show ?thesis
      unfolding consistent_def
      by (simp add: aoc_existing) (metis option.distinct(1))
  next
    case (Some e)
    with \<open>findOne (layer s) (js_str (connectionId p)) = Some n\<close> assms show ?thesis
      by (simp add: aoc_existing)
  qed
qed

lemma rLC_consistent:
  assumes "consistent s"
  shows "consistent (fst (renderLoadedConnection s p r))"
  using rLC_trichotomy[of s p]
proof (elim disjE exE)
  assume "raises s p"
  with assms show ?thesis by (simp add: rLC_raises)
next
  assume "unresolved s p"
  with assms show ?thesis
    using rLC_unresolved(2,3)[of s p r] by (simp add: consistent_def)
next
  fix a b assume "endpoints s p = Some (a, b)"
  with assms show ?thesis by (simp add: rLC_resolved aoc_consistent)
qed

lemma drain_ids_consistent:
  "consistent s \<Longrightarrow> consistent (fst (drain_ids ids s c))"
proof (induction ids arbitrary: s c)
  case Nil
  then show ?case by simp
next
  case (Cons i ids)
  show ?case
  proof (cases "find (\<lambda>q. connectionId q = i) (pendingConnections s)")
    case None
    with Cons show ?thesis by simp
  next
    case (Some p)
    obtain s' r where r: "renderLoadedConnection s p True = (s', r)"
      by (cases "renderLoadedConnection s p True")
    with Cons.prems have "consistent s'"
      using rLC_consistent[of s p True] by simp
    with Some r Cons.IH show ?thesis
      by (cases r) (auto split: bool.splits)
  qed
qed

lemma processPendingConnections_consistent:
  "consistent s \<Longrightarrow> consistent (fst (processPendingConnections s))"
proof -
  assume c: "consistent s"
  obtain s' r where d: "drain_ids (map connectionId (pendingConnections s))
       (say LOG ''[processPendingConnections] Attempting to process pending connection(s)'' s) 0 = (s', r)"
    by (cases "drain_ids (map connectionId (pendingConnections s))
       (say LOG ''[processPendingConnections] Attempting to process pending connection(s)'' s) 0")
  from c have "consistent s'"
    using drain_ids_consistent[of "say LOG ''[processPendingConnections] Attempting to process pending connection(s)'' s"
            "map connectionId (pendingConnections s)" 0] d by simp
  with c d show ?thesis
    by (cases r) (simp_all add: processPendingConnections_def Let_def)
qed

lemma consistent_timer [simp]: "consistent (s\<lparr>timer := c\<rparr>) = consistent s"
  by (simp add: consistent_def)

lemma timeout_fires_consistent:
  "consistent s \<Longrightarrow> consistent (fst (timeout_fires h s))"
  by (simp add: timeout_fires_def later_def processPendingConnections_consistent)

lemma stage_on_add_consistent:
  "consistent s \<Longrightarrow> consistent (stage_on_add s t)"
  by (cases t)
     (simp_all add: stage_on_add_def debouncedProcessPendingConnections_def debounce_call_def
        setTimeout_def Let_def)

lemma set_child_text_fields [simp]:
  "map n_ref (set_child_text g d t ns) = map n_ref ns"
  "map n_class (set_child_text g d t ns) = map n_class ns"
  "map n_id (set_child_text g d t ns) = map n_id ns"
  "map n_contextmenu (set_child_text g d t ns) = map n_contextmenu ns"
  by (simp_all add: set_child_text_def comp_def if_distrib[of n_ref] if_distrib[of n_class]
        if_distrib[of n_id] if_distrib[of n_contextmenu] cong: if_cong)

lemma add_child_fields [simp]:
  "map n_ref (add_child g c ns) = map n_ref ns"
  "map n_class (add_child g c ns) = map n_class ns"
  "map n_id (add_child g c ns) = map n_id ns"
  "map n_contextmenu (add_child g c ns) = map n_contextmenu ns"
  by (simp_all add: add_child_def comp_def if_distrib[of n_ref] if_distrib[of n_class]
        if_distrib[of n_id] if_distrib[of n_contextmenu] cong: if_cong)

lemma consistent_skeleton:
  assumes "map skeleton (layer s') = map skeleton (layer s)" and "connections s' = connections s"
  shows "consistent s' = consistent s"
proof -
  define Q where "Q c k = ((\<forall>i. snd (snd (snd k)) = Some i \<longrightarrow> fst (snd k) = Line \<and> fst (snd (snd k)) = i) \<and>
          (fst (snd k) = Line \<longrightarrow>
             (\<forall>X. fst (snd (snd k)) = Some X \<longrightarrow>
                (\<exists>e. c (Some X) = Some e \<and> c_line e = fst k))))"
    for c :: "string option \<rightharpoonup> conn" and k :: "ref \<times> klass \<times> string option \<times> string option option"
  have *: "consistent t = (\<forall>k\<in>skeleton ` set (layer t). Q (connections t) k)" for t
    by (simp add: consistent_def skeleton_def Q_def)
  from assms(1) have "skeleton ` set (layer s') = skeleton ` set (layer s)"
    by (metis image_set)
  with assms(2) show ?thesis by (simp only: *)
qed

lemma skeleton_set_child_text [simp]:
  "map skeleton (set_child_text g d t ns) = map skeleton ns"
  by (simp add: set_child_text_def skeleton_def comp_def cong: if_cong)

lemma skeleton_add_child [simp]:
  "map skeleton (add_child g c ns) = map skeleton ns"
  by (simp add: add_child_def skeleton_def comp_def cong: if_cong)

lemma emitOutput_consistent:
  assumes "consistent s"
  shows "consistent (fst (emitOutput s p))"
proof -
  have "map skeleton (layer (fst (emitOutput s p))) = map skeleton (layer s) \<and>
        connections (fst (emitOutput s p)) = connections s"
    by (simp add: emitOutput_def Let_def split: option.splits)
  with assms show ?thesis using consistent_skeleton by blast
qed

lemma connection_created_consistent:
  assumes "consistent s"
  shows "consistent (fst (connection_created s p))"
proof -
  let ?s = "say LOG ''[WebSocket] Received v1.connection.created'' s"
  obtain s' r where r: "renderLoadedConnection ?s p False = (s', r)"
    by (cases "renderLoadedConnection ?s p False")
  with assms have "consistent s'"
    using rLC_consistent[of ?s p False] by simp
  with assms r show ?thesis
    by (cases r) (auto simp: connection_created_def Let_def split: bool.splits)
qed

lemma dispatch_consistent:
  assumes "consistent s"
  shows "consistent (fst (dispatch s m ps))"
proof (cases ps)
  case None
  with assms show ?thesis by (simp add: dispatch_def)
next
  case (Some p)
  obtain s' r where r: "renderLoadedConnection s p False = (s', r)"
    by (cases "renderLoadedConnection s p False")
  with assms have "consistent s'"
    using rLC_consistent[of s p False] by simp
  with assms Some r show ?thesis
    by (cases r)
       (simp_all add: dispatch_def emitOutput_consistent connection_created_consistent
          connection_removed_consistent)
qed

lemma onmessage_consistent:
  assumes "consistent s"
  shows "consistent (onmessage s d)"
proof (cases d)
  case (Decoded m ps)
  let ?s = "say LOG ''[WebSocket] Parsed message'' (say LOG ''[WebSocket] Message received'' s)"
  obtain s' r where r: "dispatch ?s m ps = (s', r)"
    by (cases "dispatch ?s m ps")
  with assms have "consistent s'"
    using dispatch_consistent[of ?s m ps] by simp
  with Decoded r show ?thesis
    by (cases r) (simp_all add: onmessage_def Let_def)
qed (use assms in \<open>simp_all add: onmessage_def Let_def\<close>)

lemma set_draggable_simps [simp]:
  "connections (set_draggable g b s) = connections s"
  "pendingConnections (set_draggable g b s) = pendingConnections s"
  "isWiring (set_draggable g b s) = isWiring s"
  "currentWire (set_draggable g b s) = currentWire s" "startPort (set_draggable g b s) = startPort s"
  "socket_open (set_draggable g b s) = socket_open s" "sent (set_draggable g b s) = sent s"
  "draws (set_draggable g b s) = draws s" "timer (set_draggable g b s) = timer s"
  "next_ref (set_draggable g b s) = next_ref s" "console (set_draggable g b s) = console s"
  "map skeleton (layer (set_draggable g b s)) = map skeleton (layer s)"
  by (simp_all add: set_draggable_def skeleton_def comp_def cong: if_cong)

lemma consistent_set_draggable [simp]: "consistent (set_draggable g b s) = consistent s"
  by (rule consistent_skeleton) simp_all

lemma consistent_reset_wiring [simp]: "consistent (reset_wiring s) = consistent s"
  by (simp add: reset_wiring_def consistent_def)

lemma consistent_reenable_drag [simp]: "consistent (reenable_drag m s) = consistent s"
  by (simp add: reenable_drag_def split: option.splits)

lemma consistent_destroy_currentWire:
  "consistent s \<Longrightarrow> consistent (destroy_currentWire m s)"
  by (simp add: destroy_currentWire_def consistent_destroy split: option.splits)

lemma stage_mouseup_consistent:
  "consistent s \<Longrightarrow> consistent (stage_mouseup s t)"
  by (auto simp: stage_mouseup_def Let_def consistent_destroy_currentWire
        intro!: consistent_destroy)
     (simp add: consistent_def)

lemma output_mousedown_consistent:
  assumes "consistent s"
  shows "consistent (output_mousedown s p)"
proof -
  let ?s1 = "s\<lparr>isWiring := True, startPort := Some p\<rparr>"
  let ?s2 = "case getParent ?s1 p of None \<Rightarrow> ?s1
             | Some componentGroup \<Rightarrow> say LOG ''[output mousedown] Disabled dragging for component''
                 (set_draggable (n_ref componentGroup) False ?s1)"
  from assms have "consistent ?s1" by (simp add: consistent_def)
  then have c2: "consistent ?s2" by (simp split: option.splits)
  then show ?thesis
    unfolding output_mousedown_def Let_def
    by (simp add: consistent_def)
qed

lemma stage_mousemove_consistent:
  assumes "consistent s"
  shows "consistent (fst (stage_mousemove s pt))"
proof -
  have "map skeleton (layer (fst (stage_mousemove s pt))) = map skeleton (layer s) \<and>
        connections (fst (stage_mousemove s pt)) = connections s"
    by (simp add: stage_mousemove_def Let_def skeleton_def comp_def
          split: option.splits cong: if_cong)
  with assms show ?thesis using consistent_skeleton by blast
qed

lemma edges_destroy_currentWire:
  "edges s X = [] \<Longrightarrow> edges (destroy_currentWire m s) X = []"
  by (auto simp: destroy_currentWire_def edges_def filter_empty_conv split: option.splits)

lemma commit_wire_consistent:
  assumes "consistent s" and "edges s (''conn_'' @ dec now @ ''_'' @ rnd) = []"
  shows "consistent (fst (commit_wire s sp ip now rnd now'))"
proof -
  let ?s1 = "destroy_currentWire ''[input mouseup] Destroyed temporary currentWire.''
               (say LOG ''[input mouseup] Successful connection attempt.'' s)"
  let ?i = "''conn_'' @ dec now @ ''_'' @ rnd"
  have c1: "consistent ?s1"
    using assms(1) by (simp add: consistent_destroy_currentWire)
  have e1: "edges ?s1 ?i = []"
    using assms(2) by (simp add: edges_destroy_currentWire)
  obtain s2 r where r: "createWire ?s1 (Some ?i) sp ip = (s2, r)"
    by (cases "createWire ?s1 (Some ?i) sp ip")
  have "consistent (fst (createWire ?s1 (Some ?i) sp ip))"
    by (rule createWire_consistent) (use c1 e1 in auto)
  with r have c2: "consistent s2" by simp
  show ?thesis
  proof (cases "getParent ?s1 sp")
    case None
    with c1 show ?thesis by (simp add: commit_wire_def Let_def)
  next
    case sg: (Some sg)
    show ?thesis
    proof (cases "getParent ?s1 ip")
      case None
      with sg c1 show ?thesis by (simp add: commit_wire_def Let_def)
    next
      case (Some tg)
      with sg r c2 show ?thesis
        by (cases r) (auto simp: commit_wire_def Let_def consistent_def[of "_\<lparr>sent := _\<rparr>"]
              consistent_def[of s2] split: option.splits)
    qed
  qed
qed

lemma input_mouseup_consistent:
  assumes "consistent s" and "edges s (''conn_'' @ dec now @ ''_'' @ rnd) = []"
  shows "consistent (fst (input_mouseup s ip now rnd now'))"
proof -
  let ?s = "say LOG ''[input mouseup] Condition check'' (say LOG ''[input mouseup] Triggered.'' s)"
  have c: "consistent ?s" and e: "edges ?s (''conn_'' @ dec now @ ''_'' @ rnd) = []"
    using assms by simp_all
  show ?thesis
  proof (cases "startPort s")
    case None
    with c show ?thesis
      by (simp add: input_mouseup_def Let_def consistent_destroy_currentWire)
  next
    case (Some sp)
    with c commit_wire_consistent[OF c e, of sp ip now'] show ?thesis
      by (simp add: input_mouseup_def Let_def consistent_destroy_currentWire)
  qed
qed

lemma release_on_input_consistent:
  assumes "consistent s" and "edges s (''conn_'' @ dec now @ ''_'' @ rnd) = []"
  shows "consistent (fst (release_on_input s ip now rnd now'))"
proof -
  obtain s' r where r: "input_mouseup s ip now rnd now' = (s', r)"
    by (cases "input_mouseup s ip now rnd now'")
  with input_mouseup_consistent[OF assms, of ip now'] have "consistent s'" by simp
  with r show ?thesis
    by (cases r) (simp_all add: release_on_input_def stage_mouseup_consistent)
qed

lemma consistent_edge:
  assumes "consistent s" and "n \<in> set (layer s)" and "n_class n = Line" and "n_id n = Some X"
  obtains e where "connections s (Some X) = Some e" and "c_line e = n_ref n"
proof -
  from assms(1,2) have "n_class n = Line \<longrightarrow>
      (\<forall>X. n_id n = Some X \<longrightarrow> (\<exists>e. connections s (Some X) = Some e \<and> c_line e = n_ref n))"
    unfolding consistent_def by blast
  with assms(3,4) that show thesis by blast
qed

lemma consistent_listener:
  assumes "consistent s" and "n \<in> set (layer s)" and "n_contextmenu n = Some i"
  shows "n_class n = Line" and "n_id n = i"
proof -
  from assms(1,2) have "\<forall>i. n_contextmenu n = Some i \<longrightarrow> n_class n = Line \<and> n_id n = i"
    unfolding consistent_def by blast
  with assms(3) show "n_class n = Line" and "n_id n = i" by blast+
qed

lemma wire_contextmenu_core:
  assumes "consistent s" and "w \<in> set (layer s)" and "n_contextmenu w = Some i"
  shows "consistent (destroy (n_ref w) (s\<lparr>connections := (connections s)(i := None)\<rparr>))"
proof -
  have w: "n_class w = Line" "n_id w = i"
    using consistent_listener[OF assms] by simp_all
  show ?thesis
    unfolding consistent_def
  proof (intro ballI conjI allI impI)
    fix n j
    assume "n \<in> set (layer (destroy (n_ref w) (s\<lparr>connections := (connections s)(i := None)\<rparr>)))"
       and "n_contextmenu n = Some j"
    then show "n_class n = Line" "n_id n = j"
      using consistent_listener[OF assms(1), of n j] by simp_all
  next
    fix n X
    assume n: "n \<in> set (layer (destroy (n_ref w) (s\<lparr>connections := (connections s)(i := None)\<rparr>)))"
       and l: "n_class n = Line" and x: "n_id n = Some X"
    then have nin: "n \<in> set (layer s)" and nw: "n_ref n \<noteq> n_ref w" by simp_all
    from assms(1) nin l x obtain e where e: "connections s (Some X) = Some e" "c_line e = n_ref n"
      by (rule consistent_edge)
    have "i \<noteq> Some X"
    proof
      assume "i = Some X"
      with w e have "c_line e = n_ref w"
        using consistent_edge[OF assms(1,2) w(1), of X] by auto
      with e nw show False by simp
    qed
    with e show "\<exists>e. connections (destroy (n_ref w) (s\<lparr>connections := (connections s)(i := None)\<rparr>))
                    (Some X) = Some e \<and> c_line e = n_ref n"
      by simp
  qed
qed

lemma quiet_fields:
  assumes "quiet s s'"
  shows "layer s' = layer s" "connections s' = connections s"
    "pendingConnections s' = pendingConnections s" "isWiring s' = isWiring s"
    "currentWire s' = currentWire s" "startPort s' = startPort s"
    "socket_open s' = socket_open s" "sent s' = sent s" "draws s' = draws s"
    "timer s' = timer s" "next_ref s' = next_ref s"
proof -
  from assms have e: "s'\<lparr>console := console s\<rparr> = s" by (simp add: quiet_def)
  show "layer s' = layer s" using arg_cong[OF e, of layer] by simp
  show "connections s' = connections s" using arg_cong[OF e, of connections] by simp
  show "pendingConnections s' = pendingConnections s" using arg_cong[OF e, of pendingConnections] by simp
  show "isWiring s' = isWiring s" using arg_cong[OF e, of isWiring] by simp
  show "currentWire s' = currentWire s" using arg_cong[OF e, of currentWire] by simp
  show "startPort s' = startPort s" using arg_cong[OF e, of startPort] by simp
  show "socket_open s' = socket_open s" using arg_cong[OF e, of socket_open] by simp
  show "sent s' = sent s" using arg_cong[OF e, of sent] by simp
  show "draws s' = draws s" using arg_cong[OF e, of draws] by simp
  show "timer s' = timer s" using arg_cong[OF e, of timer] by simp
  show "next_ref s' = next_ref s" using arg_cong[OF e, of next_ref] by simp
qed

lemma quiet_consistent: "quiet s s' \<Longrightarrow> consistent s' = consistent s"
  by (simp add: consistent_def quiet_fields)

lemma wire_contextmenu_eq:
  assumes "n_contextmenu w = Some i"
  shows "quiet (draw ((destroy (n_ref w) (s\<lparr>connections := (connections s)(i := None)\<rparr>))
           \<lparr>sent := if socket_open s then sent s @ [delete_request i now] else sent s\<rparr>))
         (wire_contextmenu s w True now)"
proof -
  have m: "(connections s)(i := None) = connections s" if "connections s i = None"
    using that by auto
  show ?thesis
    using assms
    by (simp add: wire_contextmenu_def Let_def quiet_def say_def draw_def destroy_def m)
qed

lemma wire_contextmenu_consistent:
  assumes "consistent s" and "w \<in> set (layer s)"
  shows "consistent (wire_contextmenu s w confirmed now)"
proof (cases "n_contextmenu w")
  case None
  with assms show ?thesis by (simp add: wire_contextmenu_def)
next
  case (Some i)
  show ?thesis
  proof (cases confirmed)
    case False
    with Some assms show ?thesis by (simp add: wire_contextmenu_def)
  next
    case True
    have "consistent (draw ((destroy (n_ref w) (s\<lparr>connections := (connections s)(i := None)\<rparr>))
           \<lparr>sent := if socket_open s then sent s @ [delete_request i now] else sent s\<rparr>))"
      using wire_contextmenu_core[OF assms Some] by (simp add: consistent_def)
    with True show ?thesis
      using quiet_consistent[OF wire_contextmenu_eq[OF Some, of s now]] by simp
  qed
qed

lemma dummy_dragend_consistent:
  assumes "consistent s"
  shows "consistent (dummy_dragend s pp now rnd)"
  using assms
  by (auto simp: dummy_dragend_def Let_def consistent_def new_component_def split: option.splits)

lemma init_consistent: "consistent init"
  by (simp add: consistent_def init_def)

lemma edges_empty_iff:
  "edges s X = [] \<longleftrightarrow> (\<forall>n\<in>set (layer s). \<not> (n_class n = Line \<and> n_id n = Some X))"
  by (simp add: edges_def filter_empty_conv)

lemma wire_contextmenu_deletes:
  assumes "consistent s" and "w \<in> set (layer s)" and "n_contextmenu w = Some (Some X)"
  shows "connections (wire_contextmenu s w True now) (Some X) = None"
    and "edges (wire_contextmenu s w True now) X = []"
proof -
  let ?t = "draw ((destroy (n_ref w) (s\<lparr>connections := (connections s)(Some X := None)\<rparr>))
           \<lparr>sent := if socket_open s then sent s @ [delete_request (Some X) now] else sent s\<rparr>)"
  have q: "quiet ?t (wire_contextmenu s w True now)"
    by (rule wire_contextmenu_eq[OF assms(3)])
  have w: "n_class w = Line" "n_id w = Some X"
    using consistent_listener[OF assms] by simp_all
  from quiet_fields(2)[OF q] show "connections (wire_contextmenu s w True now) (Some X) = None"
    by simp
  have "layer (wire_contextmenu s w True now) = filter (\<lambda>n. n_ref n \<noteq> n_ref w) (layer s)"
    using quiet_fields(1)[OF q] by simp
  moreover have "n_ref n = n_ref w"
    if "n \<in> set (layer s)" "n_class n = Line" "n_id n = Some X" for n
    using consistent_edge[OF assms(1) that] consistent_edge[OF assms(1,2) w] by (metis option.inject)
  ultimately show "edges (wire_contextmenu s w True now) X = []"
    by (auto simp: edges_empty_iff)
qed

lemma rLC_existing:
  assumes "endpoints s p = Some (a, b)"
      and "findOne (layer s) (js_str (connectionId p)) = Some n"
  shows "snd (renderLoadedConnection s p r) = Return True"
    and "layer (fst (renderLoadedConnection s p r)) = layer s"
    and "connections (fst (renderLoadedConnection s p r)) =
          (if connections s (connectionId p) = None
           then (connections s)(connectionId p \<mapsto>
                  \<lparr>c_id = connectionId p, c_from = a, c_to = b, c_line = n_ref n\<rparr>)
           else connections s)"
    and "pendingConnections (fst (renderLoadedConnection s p r)) =
          splice_first (\<lambda>q. connectionId q = connectionId p) (pendingConnections s)"
    and "draws (fst (renderLoadedConnection s p r)) = draws s"
    and "next_ref (fst (renderLoadedConnection s p r)) = next_ref s"
  using assms by (simp_all add: rLC_resolved aoc_existing)

lemma rLC_created:
  assumes "endpoints s p = Some (a, b)"
      and "findOne (layer s) (js_str (connectionId p)) = None"
  shows "snd (renderLoadedConnection s p r) = Return True"
    and "layer (fst (renderLoadedConnection s p r)) =
          new_wire (next_ref s) (connectionId p) (the (getAbsolutePosition s a))
            (the (getAbsolutePosition s b)) # layer s"
    and "connections (fst (renderLoadedConnection s p r)) =
          (connections s)(connectionId p \<mapsto>
             \<lparr>c_id = connectionId p, c_from = a, c_to = b, c_line = next_ref s\<rparr>)"
    and "pendingConnections (fst (renderLoadedConnection s p r)) =
          splice_first (\<lambda>q. connectionId q = connectionId p) (pendingConnections s)"
    and "draws (fst (renderLoadedConnection s p r)) = Suc (draws s)"
    and "next_ref (fst (renderLoadedConnection s p r)) = Suc (next_ref s)"
proof -
  have pa: "getParent s a \<noteq> None" "getParent s b \<noteq> None"
    using endpoints_parents[OF assms(1)] by simp_all
  have ga: "getAbsolutePosition (warn_if c m (dequeue r p (say l m' s))) x = getAbsolutePosition s x"
    for c m l m' x
    by (simp add: getAbsolutePosition_def getParent_def)
  have gp: "getParent (warn_if c m (dequeue r p (say l m' s))) x = getParent s x"
    for c m l m' x
    by (simp add: getParent_def)
  show "snd (renderLoadedConnection s p r) = Return True"
    using assms pa by (simp add: rLC_resolved aoc_create getParent_def)
  show "layer (fst (renderLoadedConnection s p r)) =
          new_wire (next_ref s) (connectionId p) (the (getAbsolutePosition s a))
            (the (getAbsolutePosition s b)) # layer s"
    using assms pa by (simp add: rLC_resolved aoc_create getParent_def createWire_ok gp ga)
  show "connections (fst (renderLoadedConnection s p r)) =
          (connections s)(connectionId p \<mapsto>
             \<lparr>c_id = connectionId p, c_from = a, c_to = b, c_line = next_ref s\<rparr>)"
    using assms pa by (simp add: rLC_resolved aoc_create getParent_def createWire_ok gp ga)
  show "pendingConnections (fst (renderLoadedConnection s p r)) =
          splice_first (\<lambda>q. connectionId q = connectionId p) (pendingConnections s)"
    using assms pa by (simp add: rLC_resolved)
  show "draws (fst (renderLoadedConnection s p r)) = Suc (draws s)"
    using assms pa by (simp add: rLC_resolved aoc_create getParent_def createWire_ok gp ga)
  show "next_ref (fst (renderLoadedConnection s p r)) = Suc (next_ref s)"
    using assms pa by (simp add: rLC_resolved aoc_create getParent_def createWire_ok gp ga)
qed

lemma rLC_raises_fields:
  assumes "raises s p"
  shows "snd (renderLoadedConnection s p r) = Throw"
    and "quiet s (fst (renderLoadedConnection s p r))"
  using assms by (simp_all add: rLC_raises)

lemma rLC_frame [simp]:
  "isWiring (fst (renderLoadedConnection s p r)) = isWiring s"
  "currentWire (fst (renderLoadedConnection s p r)) = currentWire s"
  "startPort (fst (renderLoadedConnection s p r)) = startPort s"
  "socket_open (fst (renderLoadedConnection s p r)) = socket_open s"
  "sent (fst (renderLoadedConnection s p r)) = sent s"
  "timer (fst (renderLoadedConnection s p r)) = timer s"
  using rLC_trichotomy[of s p]
  by (auto simp: rLC_raises rLC_unresolved rLC_resolved)

lemma find_in_distinct:
  "distinct (map f xs) \<Longrightarrow> p \<in> set xs \<Longrightarrow> find (\<lambda>q. f q = f p) xs = Some p"
  by (induction xs) (auto simp: rev_image_eqI)

lemma splice_first_keeps: "x \<in> set xs \<Longrightarrow> \<not> P x \<Longrightarrow> x \<in> set (splice_first P xs)"
  by (induction xs) auto

lemma rLC_pending_keeps:
  assumes "q \<in> set (pendingConnections s)" and "connectionId q \<noteq> connectionId p"
  shows "q \<in> set (pendingConnections (fst (renderLoadedConnection s p r)))"
  using assms by (auto simp: rLC_pending splice_first_keeps)

lemma attempts_say:
  "attempts (say l m s) X =
     (if (l, m) = (LOG, ''[renderLoadedConnection-retry]('' @ X @ ''): Attempting to render.'')
      then Suc (attempts s X) else attempts s X)"
  by (simp add: attempts_def)

lemma attempts_say_other:
  assumes "take 2 (rev m) \<noteq> ''.r''"
  shows "attempts (say l m s) X = attempts s X"
proof -
  have "take 2 (rev (''[renderLoadedConnection-retry]('' @ X @ ''): Attempting to render.'')) = ''.r''"
    by simp
  with assms have "m \<noteq> ''[renderLoadedConnection-retry]('' @ X @ ''): Attempting to render.''"
    by metis
  then show ?thesis by (simp add: attempts_say)
qed

lemma attempts_frame [simp]:
  "attempts (draw s) X = attempts s X"
  "attempts (s\<lparr>pendingConnections := q\<rparr>) X = attempts s X"
  "attempts (s\<lparr>connections := c\<rparr>) X = attempts s X"
  "attempts (s\<lparr>layer := ns\<rparr>) X = attempts s X"
  "attempts (s\<lparr>next_ref := k\<rparr>) X = attempts s X"
  "attempts (s\<lparr>timer := t\<rparr>) X = attempts s X"
  by (simp_all add: attempts_def draw_def)

lemma attempts_warn_if:
  "take 2 (rev m) \<noteq> ''.r'' \<Longrightarrow> attempts (warn_if b m s) X = attempts s X"
  by (simp add: warn_if_def attempts_say_other)

lemma attempts_queue_if_absent:
  "take 2 (rev m) \<noteq> ''.r'' \<Longrightarrow> attempts (queue_if_absent p m s) X = attempts s X"
  by (simp add: queue_if_absent_def attempts_say_other split: option.splits)

lemma rev_tail: "2 \<le> length m \<Longrightarrow> take 2 (rev (l @ m)) = take 2 (rev m)"
  by simp

lemma logPrefix_tail:
  "take 2 (rev (logPrefix r p @ c # d # cs)) = take 2 (rev (c # d # cs))"
  by (rule rev_tail) simp

lemma attempts_dequeue: "attempts (dequeue r p s) X = attempts s X"
  by (simp add: dequeue_def attempts_say_other logPrefix_tail)

lemma attempts_aoc: "attempts (fst (adopt_or_create s p a b)) X = attempts s X"
proof (cases "findOne (layer s) (js_str (connectionId p))")
  case (Some n)
  then show ?thesis
    by (simp add: aoc_existing attempts_say_other)
next
  case None
  show ?thesis
  proof (cases "getParent s a = None \<or> getParent s b = None")
    case True
    with None show ?thesis
      by (simp add: adopt_or_create_def Let_def createWire_detached attempts_warn_if)
  next
    case False
    with None show ?thesis
      by (simp add: aoc_create createWire_ok attempts_say_other attempts_warn_if)
  qed
qed

lemma attempts_first:
  "attempts (say LOG (logPrefix True p @ '' Attempting to render.'') s) X =
     (if js_str (connectionId p) = X then Suc (attempts s X) else attempts s X)"
  by (simp add: attempts_say logPrefix_def)

lemma attempts_rLC:
  assumes "\<not> raises s p"
  shows "attempts (fst (renderLoadedConnection s p True)) X =
           (if js_str (connectionId p) = X then Suc (attempts s X) else attempts s X)"
proof (cases "endpoints s p")
  case (Some ab)
  then obtain a b where "endpoints s p = Some (a, b)" by (cases ab) simp
  then show ?thesis
    by (simp add: rLC_resolved attempts_aoc attempts_dequeue attempts_first)
next
  case None
  with assms have u: "unresolved s p" by (simp add: unresolved_def)
  from unresolved_cases[OF u] show ?thesis
    by (elim disjE exE conjE)
       (simp_all add: rLC_missing rLC_no_ports attempts_queue_if_absent attempts_warn_if
          attempts_first logPrefix_tail)
qed

lemma length_splice_first:
  "\<exists>x\<in>set xs. P x \<Longrightarrow> Suc (length (splice_first P xs)) = length xs"
  by (induction xs) auto

lemma rLC_result:
  "snd (renderLoadedConnection s p r) =
     (if raises s p then Throw else if unresolved s p then Return False else Return True)"
proof (cases "endpoints s p")
  case None
  then show ?thesis
    by (cases "raises s p") (simp_all add: rLC_raises rLC_unresolved unresolved_def)
next
  case (Some ab)
  obtain a b where ab: "ab = (a, b)" by (cases ab)
  have nr: "\<not> raises s p"
    using Some by (auto simp: endpoints_def raises_def split: option.splits if_splits)
  have nu: "\<not> unresolved s p" using Some by (simp add: unresolved_def)
  show ?thesis
  proof (cases "findOne (layer s) (js_str (connectionId p))")
    case None
    with Some ab nr nu show ?thesis using rLC_created(1)[of s p a b r] by simp
  next
    case (Some n)
    with \<open>endpoints s p = Some ab\<close> ab nr nu show ?thesis
      using rLC_existing(1)[of s p a b n r] by simp
  qed
qed

lemma rLC_draws_layer:
  "draws (fst (renderLoadedConnection s p r)) + length (layer s) =
   draws s + length (layer (fst (renderLoadedConnection s p r)))"
proof (cases "endpoints s p")
  case None
  show ?thesis
  proof (cases "raises s p")
    case True
    then show ?thesis by (simp add: rLC_raises)
  next
    case False
    with None have "unresolved s p" by (simp add: unresolved_def)
    then show ?thesis by (simp add: rLC_unresolved)
  qed
next
  case (Some ab)
  obtain a b where ab: "ab = (a, b)" by (cases ab)
  show ?thesis
  proof (cases "findOne (layer s) (js_str (connectionId p))")
    case None
    with Some ab show ?thesis
      using rLC_created(2,5)[of s p a b r] by simp
  next
    case (Some n)
    with \<open>endpoints s p = Some ab\<close> ab show ?thesis
      using rLC_existing(2,5)[of s p a b n r] by simp
  qed
qed

lemma rLC_queue_length:
  assumes "p \<in> set (pendingConnections s)"
  shows "(if snd (renderLoadedConnection s p r) = Return True then 1 else 0) +
         length (pendingConnections (fst (renderLoadedConnection s p r))) =
         length (pendingConnections s)"
proof -
  have "\<exists>x\<in>set (pendingConnections s). connectionId x = connectionId p"
    using assms by auto
  then show ?thesis
    using length_splice_first[of "pendingConnections s" "\<lambda>q. connectionId q = connectionId p"]
    by (auto simp: rLC_result rLC_pending)
qed

lemma drain_ids_pass:
  assumes "drain_ids ids s c = (s', Return n)"
      and "distinct ids"
      and "set ids \<subseteq> connectionId ` set (pendingConnections s)"
      and "distinct (map connectionId (pendingConnections s))"
  shows "attempts s' X = attempts s X + length (filter (\<lambda>i. js_str i = X) ids) \<and>
         draws s' + length (layer s) = draws s + length (layer s') \<and>
         n + length (pendingConnections s') = c + length (pendingConnections s) \<and>
         timer s' = timer s"
  using assms
proof (induction ids arbitrary: s c)
  case Nil
  then show ?case by simp
next
  case (Cons i ids)
  from Cons.prems(3) obtain p where p: "p \<in> set (pendingConnections s)" "connectionId p = i"
    by auto
  with Cons.prems(4) have f: "find (\<lambda>q. connectionId q = i) (pendingConnections s) = Some p"
    using find_in_distinct[of connectionId "pendingConnections s" p] by simp
  obtain s1 r1 where r: "renderLoadedConnection s p True = (s1, r1)"
    by (cases "renderLoadedConnection s p True")
  from Cons.prems(1) f r obtain b where r1: "r1 = Return b"
    by (cases r1) auto
  with r have nr: "\<not> raises s p"
    using rLC_result[of s p True] by (auto split: if_splits)
  let ?c = "if b then Suc c else c"
  from Cons.prems(1) f r r1 have d: "drain_ids ids s1 ?c = (s', Return n)"
    by (cases b) auto
  have s1: "s1 = fst (renderLoadedConnection s p True)" using r by simp
  have sub: "set ids \<subseteq> connectionId ` set (pendingConnections s1)"
  proof
    fix j assume j: "j \<in> set ids"
    with Cons.prems(2) have "j \<noteq> i" by auto
    moreover from j Cons.prems(3) obtain q where "q \<in> set (pendingConnections s)" "connectionId q = j"
      by auto
    ultimately show "j \<in> connectionId ` set (pendingConnections s1)"
      using rLC_pending_keeps[of q s p True] p(2) s1 by auto
  qed
  have dist: "distinct (map connectionId (pendingConnections s1))"
    using rLC_distinct[OF Cons.prems(4), of p True] s1 by simp
  from Cons.prems(2) have "distinct ids" by simp
  from Cons.IH[OF d this sub dist]
  have ih: "attempts s' X = attempts s1 X + length (filter (\<lambda>i. js_str i = X) ids)"
    "draws s' + length (layer s1) = draws s1 + length (layer s')"
    "n + length (pendingConnections s') = ?c + length (pendingConnections s1)"
    "timer s' = timer s1" by simp_all
  have a1: "attempts s1 X = (if js_str i = X then Suc (attempts s X) else attempts s X)"
    using attempts_rLC[OF nr, of X] s1 p(2) by simp
  have d1: "draws s1 + length (layer s) = draws s + length (layer s1)"
    using rLC_draws_layer[of s p True] s1 by simp
  have q1: "(if b then 1 else 0) + length (pendingConnections s1) = length (pendingConnections s)"
    using rLC_queue_length[OF p(1), of True] r r1 by simp
  have t1: "timer s1 = timer s" using s1 by simp
  from ih a1 d1 q1 t1 show ?case by (auto split: if_splits)
qed

lemma drain_ids_timeout: "timer (fst (drain_ids ids s c)) = timer s"
proof (induction ids arbitrary: s c)
  case Nil
  then show ?case by simp
next
  case (Cons i ids)
  show ?case
  proof (cases "find (\<lambda>q. connectionId q = i) (pendingConnections s)")
    case None
    with Cons show ?thesis by simp
  next
    case (Some p)
    obtain s1 r1 where r: "renderLoadedConnection s p True = (s1, r1)"
      by (cases "renderLoadedConnection s p True")
    then have "timer s1 = timer s"
      using rLC_frame(6)[of s p True] by simp
    with Some r Cons.IH show ?thesis
      by (cases r1) (auto split: bool.splits)
  qed
qed

lemma processPendingConnections_timeout:
  "timer (fst (processPendingConnections s)) = timer s"
proof -
  let ?s = "say LOG ''[processPendingConnections] Attempting to process pending connection(s)'' s"
  obtain s' r where d: "drain_ids (map connectionId (pendingConnections s)) ?s 0 = (s', r)"
    by (cases "drain_ids (map connectionId (pendingConnections s)) ?s 0")
  then have "timer s' = timer s"
    using drain_ids_timeout[of "map connectionId (pendingConnections s)" ?s 0] by simp
  with d show ?thesis
    by (cases r) (simp_all add: processPendingConnections_def Let_def)
qed

lemma stage_on_add_component:
  assumes "n_name t = ''component_group''" and "n_ref t \<in> set (map n_ref (layer s))"
  shows "stage_on_add s (Some t) =
           (say LOG ''[mainStage add event] Component group added to mainLayer'' s)
             \<lparr>timer := \<lparr>timeout = Some (next_handle (timer s)),
                        pending = filter (\<lambda>t. Some (fst t) \<noteq> timeout (timer s)) (pending (timer s)) @
                                    [(next_handle (timer s), 16)],
                        next_handle = Suc (next_handle (timer s))\<rparr>\<rparr>"
  using assms
  by (cases "timer s")
     (simp add: stage_on_add_def debouncedProcessPendingConnections_def debounce_call_def
        clearTimeout_def setTimeout_def)

lemma burst_arms_once:
  assumes "pending (timer s) = []" and "ts \<noteq> []"
      and "\<forall>t\<in>set ts. n_name t = ''component_group'' \<and> n_ref t \<in> set (map n_ref (layer s))"
  shows "foldl stage_on_add s (map Some ts) =
           s\<lparr>console := console s @ replicate (length ts)
               (LOG, ''[mainStage add event] Component group added to mainLayer''),
             timer := \<lparr>timeout = Some (next_handle (timer s) + length ts - 1),
                       pending = [(next_handle (timer s) + length ts - 1, 16)],
                       next_handle = next_handle (timer s) + length ts\<rparr>\<rparr>"
  using assms(2,3)
proof (induction ts rule: rev_induct)
  case Nil
  then show ?case by simp
next
  case (snoc t ts)
  let ?m = "(LOG, ''[mainStage add event] Component group added to mainLayer'')"
  let ?u = "foldl stage_on_add s (map Some ts)"
  let ?n = "next_handle (timer s)"
  from snoc.prems have t: "n_name t = ''component_group''" "n_ref t \<in> set (map n_ref (layer s))"
    by simp_all
  show ?case
  proof (cases "ts = []")
    case True
    with t assms(1) show ?thesis by (simp add: stage_on_add_component say_def)
  next
    case False
    with snoc have u: "?u = s\<lparr>console := console s @ replicate (length ts) ?m,
        timer := \<lparr>timeout = Some (?n + length ts - 1), pending = [(?n + length ts - 1, 16)],
                  next_handle = ?n + length ts\<rparr>\<rparr>"
      by simp
    then have "layer ?u = layer s" by simp
    with t have q: "n_name t = ''component_group''" "n_ref t \<in> set (map n_ref (layer ?u))"
      by simp_all
    have "foldl stage_on_add s (map Some (ts @ [t])) = stage_on_add ?u (Some t)" by simp
    also have "\<dots> = (say LOG ''[mainStage add event] Component group added to mainLayer'' ?u)
             \<lparr>timer := \<lparr>timeout = Some (next_handle (timer ?u)),
                        pending = filter (\<lambda>t. Some (fst t) \<noteq> timeout (timer ?u)) (pending (timer ?u)) @
                                    [(next_handle (timer ?u), 16)],
                        next_handle = Suc (next_handle (timer ?u))\<rparr>\<rparr>"
      by (rule stage_on_add_component[OF q])
    also have "\<dots> = s\<lparr>console := console s @ replicate (length (ts @ [t])) ?m,
        timer := \<lparr>timeout = Some (?n + length (ts @ [t]) - 1),
                  pending = [(?n + length (ts @ [t]) - 1, 16)],
                  next_handle = ?n + length (ts @ [t])\<rparr>\<rparr>"
      by (subst u)+ (simp add: say_def replicate_append_same)
    finally show ?thesis .
  qed
qed

lemma expiry_runs_pass:
  assumes "pending (timer s) = [(h, w)]" and "timeout (timer s) = Some h"
  shows "timeout_fires h s = processPendingConnections (s\<lparr>timer := (timer s)\<lparr>pending := []\<rparr>\<rparr>)"
    and "k \<noteq> h \<Longrightarrow> timeout_fires k s = (s, Return ())"
  using assms by (simp_all add: timeout_fires_def later_def clearTimeout_def)

lemma pass_counts:
  assumes "distinct (map connectionId (pendingConnections s))"
      and "processPendingConnections s = (s', Return ())"
  shows "attempts s' X =
           attempts s X + length (filter (\<lambda>q. js_str (connectionId q) = X) (pendingConnections s)) \<and>
         draws s' + length (layer s) =
         draws s + length (layer s') +
         (if length (pendingConnections s') < length (pendingConnections s) then 1 else 0)"
proof (cases "pendingConnections s = []")
  case True
  with assms(2) have "s' = s" by (simp add: processPendingConnections_def)
  with True show ?thesis by simp
next
  case False
  let ?ids = "map connectionId (pendingConnections s)"
  let ?s = "say LOG ''[processPendingConnections] Attempting to process pending connection(s)'' s"
  obtain s1 r where d: "drain_ids ?ids ?s 0 = (s1, r)"
    by (cases "drain_ids ?ids ?s 0")
  with assms(2) False obtain n where r: "r = Return n"
    by (cases r) (auto simp: processPendingConnections_def Let_def)
  have "attempts s1 X = attempts ?s X + length (filter (\<lambda>i. js_str i = X) ?ids) \<and>
       draws s1 + length (layer ?s) = draws ?s + length (layer s1) \<and>
       n + length (pendingConnections s1) = 0 + length (pendingConnections ?s) \<and>
       timer s1 = timer ?s"
    by (rule drain_ids_pass) (use d r assms(1) in simp_all)
  then have f: "attempts s1 X =
      attempts s X + length (filter (\<lambda>q. js_str (connectionId q) = X) (pendingConnections s))"
    "draws s1 + length (layer s) = draws s + length (layer s1)"
    "n + length (pendingConnections s1) = length (pendingConnections s)"
    by (simp_all add: attempts_say_other filter_map comp_def)
  have s': "s' = (if n > 0 then draw (say LOG ''[processPendingConnections] Successfully rendered connection(s) from queue.'' s1)
                 else if pendingConnections s1 \<noteq> []
                 then say LOG ''[processPendingConnections] No pending connections were rendered in this pass.'' s1
                 else say LOG ''[processPendingConnections] No pending connections rendered, and queue is now empty.'' s1)"
    using assms(2) False d r by (auto simp: processPendingConnections_def Let_def)
  from f s' have "attempts s' X =
      attempts s X + length (filter (\<lambda>q. js_str (connectionId q) = X) (pendingConnections s))"
    by (auto simp: attempts_say_other)
  moreover from f s' have "draws s' + length (layer s) =
       draws s + length (layer s') +
       (if length (pendingConnections s') < length (pendingConnections s) then 1 else 0)"
    by (cases "n > 0") auto
  ultimately show ?thesis by simp
qed











lemma find_append_other: "\<not> P q \<Longrightarrow> find P (xs @ [q]) = find P xs"
  by (induction xs) auto


lemma find_Some_D: "find P xs = Some x \<Longrightarrow> P x \<and> x \<in> set xs"
  by (auto simp: find_Some_iff)



lemma connection_removed_frame [simp]:
  "isWiring (connection_removed s p) = isWiring s"
  "currentWire (connection_removed s p) = currentWire s"
  "startPort (connection_removed s p) = startPort s"
  "socket_open (connection_removed s p) = socket_open s"
  "sent (connection_removed s p) = sent s"
  "timer (connection_removed s p) = timer s"
  "next_ref (connection_removed s p) = next_ref s"
  by (cases "connections s (connectionId p)";
      simp add: connection_removed_absent connection_removed_present)+


lemma quietI:
  assumes "layer s' = layer s" "connections s' = connections s"
    "pendingConnections s' = pendingConnections s" "isWiring s' = isWiring s"
    "currentWire s' = currentWire s" "startPort s' = startPort s"
    "socket_open s' = socket_open s" "sent s' = sent s" "draws s' = draws s"
    "timer s' = timer s" "next_ref s' = next_ref s"
  shows "quiet s s'"
  unfolding quiet_def using assms by (intro gstate.equality) simp_all

lemma quiet_sym:
  assumes "quiet s t"
  shows "quiet t s"
  by (rule quietI) (simp_all add: quiet_fields[OF assms])

lemma quiet_trans':
  assumes "quiet s t" and "quiet t u"
  shows "quiet s u"
  by (rule quietI) (simp_all add: quiet_fields[OF assms(1)] quiet_fields[OF assms(2)])

lemma endpoints_layer:
  assumes "layer t = layer s"
  shows "endpoints t p = endpoints s p"
  unfolding endpoints_def assms by (rule refl)

lemma raises_layer:
  assumes "layer t = layer s"
  shows "raises t p = raises s p"
  unfolding raises_def assms by (rule refl)

lemma unresolved_layer:
  assumes "layer t = layer s"
  shows "unresolved t p = unresolved s p"
  unfolding unresolved_def endpoints_layer[OF assms] raises_layer[OF assms] by (rule refl)

lemma getAbsolutePosition_layer:
  assumes "layer t = layer s"
  shows "getAbsolutePosition t x = getAbsolutePosition s x"
  unfolding getAbsolutePosition_def getParent_def assms by (rule refl)

lemma rLC_quiet:
  assumes "quiet s t"
  shows "quiet (fst (renderLoadedConnection s p r)) (fst (renderLoadedConnection t p r))"
    and "snd (renderLoadedConnection t p r) = snd (renderLoadedConnection s p r)"
proof -
  note f = quiet_fields[OF assms]
  have l: "layer t = layer s" by (rule f(1))
  show "snd (renderLoadedConnection t p r) = snd (renderLoadedConnection s p r)"
    by (simp add: rLC_result raises_layer[OF l] unresolved_layer[OF l])
  show "quiet (fst (renderLoadedConnection s p r)) (fst (renderLoadedConnection t p r))"
  proof (cases "endpoints s p")
    case None
    show ?thesis
    proof (cases "raises s p")
      case True
      then have "raises t p" by (simp add: raises_layer[OF l])
      with True show ?thesis
        by (intro quietI) (simp_all add: rLC_raises f)
    next
      case False
      with None have u: "unresolved s p" by (simp add: unresolved_def)
      then have u': "unresolved t p" by (simp add: unresolved_layer[OF l])
      show ?thesis
        by (intro quietI) (simp_all add: rLC_unresolved[OF u] rLC_unresolved[OF u'] f)
    qed
  next
    case (Some ab)
    obtain a b where ab: "ab = (a, b)" by (cases ab)
    with Some have e: "endpoints s p = Some (a, b)" by simp
    then have e': "endpoints t p = Some (a, b)" by (simp add: endpoints_layer[OF l])
    show ?thesis
    proof (cases "findOne (layer s) (js_str (connectionId p))")
      case None
      then have n': "findOne (layer t) (js_str (connectionId p)) = None" by (simp add: l)
      show ?thesis
        by (intro quietI)
           (simp_all add: rLC_created[OF e None] rLC_created[OF e' n'] f
              getAbsolutePosition_layer[OF l])
    next
      case (Some n)
      then have n': "findOne (layer t) (js_str (connectionId p)) = Some n" by (simp add: l)
      show ?thesis
        by (intro quietI)
           (simp_all add: rLC_existing[OF e Some] rLC_existing[OF e' n'] f)
    qed
  qed
qed

lemma dispatch_created:
  "dispatch s (Some ''v1.connection.created'') (Some p) = connection_created s p"
  by (simp add: dispatch_def)

lemma connection_created_echo:
  assumes "connections s (connectionId p) \<noteq> None"
  shows "connection_created s p =
          (say LOG ''[WebSocket] Connection already exists (likely self-echo). Ignoring v1.connection.created.''
             (say LOG ''[WebSocket] Received v1.connection.created'' s), Return ())"
  using assms by (simp add: connection_created_def Let_def)

lemma connection_created_new:
  assumes "connections s (connectionId p) = None"
  shows "quiet (fst (renderLoadedConnection s p False)) (fst (connection_created s p))"
    and "snd (connection_created s p) =
          (if snd (renderLoadedConnection s p False) = Throw then Throw else Return ())"
proof -
  let ?s = "say LOG ''[WebSocket] Received v1.connection.created'' s"
  have q: "quiet s ?s" by simp
  obtain s' r where r: "renderLoadedConnection ?s p False = (s', r)"
    by (cases "renderLoadedConnection ?s p False")
  have q': "quiet (fst (renderLoadedConnection s p False)) s'"
    using rLC_quiet(1)[OF q, of p False] r by simp
  have sr: "snd (renderLoadedConnection s p False) = r"
    using rLC_quiet(2)[OF q, of p False] r by simp
  have c: "connection_created s p =
     (case r of Throw \<Rightarrow> (s', Throw)
      | Return b \<Rightarrow> (say LOG (if b then ''[WebSocket] Live connection created successfully.''
                         else ''[WebSocket] Live connection queued or failed to render immediately.'') s',
                     Return ()))"
    using assms r by (simp add: connection_created_def Let_def split: completion.splits bool.splits)
  show "quiet (fst (renderLoadedConnection s p False)) (fst (connection_created s p))"
    using q' by (cases r) (simp_all add: c)
  show "snd (connection_created s p) =
          (if snd (renderLoadedConnection s p False) = Throw then Throw else Return ())"
    using sr by (cases r) (simp_all add: c)
qed

lemma onmessage_created_echo:
  assumes "connections s (connectionId p) \<noteq> None"
  shows "onmessage s (created_msg p) =
     s\<lparr>console := console s @
        [(LOG, ''[WebSocket] Message received''), (LOG, ''[WebSocket] Parsed message''),
         (LOG, ''[WebSocket] Received v1.connection.created''),
         (LOG, ''[WebSocket] Connection already exists (likely self-echo). Ignoring v1.connection.created.'')]\<rparr>"
  using assms
  by (simp add: onmessage_def created_msg_def dispatch_created connection_created_echo Let_def say_def)

lemma onmessage_created_new:
  assumes "connections s (connectionId p) = None"
  shows "quiet (fst (renderLoadedConnection s p False)) (onmessage s (created_msg p))"
proof -
  let ?s = "say LOG ''[WebSocket] Parsed message'' (say LOG ''[WebSocket] Message received'' s)"
  have q: "quiet s ?s" by simp
  have n: "connections ?s (connectionId p) = None" using assms by simp
  obtain s' r where r: "connection_created ?s p = (s', r)"
    by (cases "connection_created ?s p")
  have "quiet (fst (renderLoadedConnection ?s p False)) s'"
    using connection_created_new(1)[OF n] r by simp
  then have q': "quiet (fst (renderLoadedConnection s p False)) s'"
    using rLC_quiet(1)[OF q, of p False] quiet_trans' by blast
  have "onmessage s (created_msg p) =
     (case r of Throw \<Rightarrow> say ERROR ''[WebSocket] Error parsing message or handling method'' s'
      | Return u \<Rightarrow> s')"
    using r by (simp add: onmessage_def created_msg_def dispatch_created Let_def split: completion.splits)
  with q' show ?thesis by (cases r) simp_all
qed

lemma rLC_resolved_stored:
  assumes "endpoints s p \<noteq> None" and "connections s (connectionId p) = None"
  shows "connections (fst (renderLoadedConnection s p r)) (connectionId p) \<noteq> None"
proof -
  from assms(1) obtain a b where e: "endpoints s p = Some (a, b)" by auto
  show ?thesis
  proof (cases "findOne (layer s) (js_str (connectionId p))")
    case None
    then show ?thesis using rLC_created(3)[OF e None, of r] by simp
  next
    case (Some n)
    then show ?thesis using rLC_existing(3)[OF e Some, of r] assms(2) by simp
  qed
qed

lemma second_arrival:
  "quiet (onmessage s (created_msg p)) (onmessage (onmessage s (created_msg p)) (created_msg p))"
proof (cases "connections s (connectionId p)")
  case (Some e)
  then have 1: "connections s (connectionId p) \<noteq> None" by simp
  let ?s1 = "onmessage s (created_msg p)"
  have "connections ?s1 (connectionId p) \<noteq> None"
    using 1 by (simp add: onmessage_created_echo[OF 1])
  from onmessage_created_echo[OF this] show ?thesis
    by (intro quietI) simp_all
next
  case None
  let ?s1 = "onmessage s (created_msg p)"
  let ?u = "fst (renderLoadedConnection s p False)"
  have q1: "quiet ?u ?s1" by (rule onmessage_created_new[OF None])
  note f1 = quiet_fields[OF q1]
  show ?thesis
  proof (cases "endpoints s p")
    case (Some ab)
    then have "connections ?u (connectionId p) \<noteq> None"
      using rLC_resolved_stored[OF _ None, of False] by simp
    then have 1: "connections ?s1 (connectionId p) \<noteq> None" by (simp add: f1)
    from onmessage_created_echo[OF 1] show ?thesis
      by (intro quietI) simp_all
  next
    case ne: None
    show ?thesis
    proof (cases "raises s p")
      case True
      have l: "layer ?s1 = layer s" using f1(1) by (simp add: rLC_raises[OF True])
      have c: "connections ?s1 (connectionId p) = None"
        using f1(2) None by (simp add: rLC_raises[OF True])
      have r1: "raises ?s1 p" using True by (simp add: raises_layer[OF l])
      have "quiet (fst (renderLoadedConnection ?s1 p False)) (onmessage ?s1 (created_msg p))"
        by (rule onmessage_created_new[OF c])
      moreover have "quiet ?s1 (fst (renderLoadedConnection ?s1 p False))"
        by (simp add: rLC_raises[OF r1])
      ultimately show ?thesis by (rule quiet_trans'[rotated])
    next
      case False
      with ne have u: "unresolved s p" by (simp add: unresolved_def)
      note fu = rLC_unresolved[OF u, of False]
      have l: "layer ?s1 = layer s" using f1(1) fu(2) by simp
      have c: "connections ?s1 (connectionId p) = None" using f1(2) fu(3) None by simp
      have u1: "unresolved ?s1 p" using u by (simp add: unresolved_layer[OF l])
      have pq: "\<exists>q\<in>set (pendingConnections ?s1). connectionId q = connectionId p"
        using f1(3) fu(4) by auto
      note fu1 = rLC_unresolved[OF u1, of False]
      have "quiet ?s1 (fst (renderLoadedConnection ?s1 p False))"
        using pq by (intro quietI) (simp_all add: fu1)
      moreover have "quiet (fst (renderLoadedConnection ?s1 p False)) (onmessage ?s1 (created_msg p))"
        by (rule onmessage_created_new[OF c])
      ultimately show ?thesis by (rule quiet_trans')
    qed
  qed
qed

lemma two_components_c1:
  "connections two_components (connectionId (descr ''c1'' ''a'' ''output'' ''b'' ''input'')) = None \<and>
   endpoints two_components (descr ''c1'' ''a'' ''output'' ''b'' ''input'') \<noteq> None"
  by (simp add: two_components_def init_def endpoints_def descr_def findOne_def js_str_def
        find_ports_def new_component_def)

lemma quiet_console:
  assumes "quiet s t"
  shows "t = s\<lparr>console := console t\<rparr>"
proof -
  from assms have e: "t\<lparr>console := console s\<rparr> = s" by (simp add: quiet_def)
  from arg_cong[OF e, of "\<lambda>x. x\<lparr>console := console t\<rparr>"] show ?thesis by simp
qed

lemma emitOutput_console:
  "quiet (fst (emitOutput s p)) (fst (emitOutput (s\<lparr>console := c\<rparr>) p)) \<and>
   snd (emitOutput (s\<lparr>console := c\<rparr>) p) = snd (emitOutput s p)"
  by (simp add: emitOutput_def Let_def quiet_def say_def draw_def split: option.splits)

lemma emitOutput_quiet:
  assumes "quiet s t"
  shows "quiet (fst (emitOutput s p)) (fst (emitOutput t p))"
    and "snd (emitOutput t p) = snd (emitOutput s p)"
  using emitOutput_console[of s p "console t"] quiet_console[OF assms] by simp_all

lemma emitOutput_throws:
  assumes "snd (emitOutput s p) = Throw"
  shows "quiet s (fst (emitOutput s p))"
  using assms
  by (auto simp: emitOutput_def Let_def split: option.splits if_splits)

lemma connection_removed_console:
  "quiet (connection_removed s p) (connection_removed (s\<lparr>console := c\<rparr>) p)"
  by (simp add: connection_removed_def Let_def quiet_def say_def draw_def destroy_def split: option.splits)

lemma connection_removed_quiet:
  assumes "quiet s t"
  shows "quiet (connection_removed s p) (connection_removed t p)"
  using connection_removed_console[of s p "console t"] quiet_console[OF assms] by simp

lemma connection_created_quiet:
  assumes "quiet s t"
  shows "quiet (fst (connection_created s p)) (fst (connection_created t p))"
    and "snd (connection_created t p) = snd (connection_created s p)"
proof -
  note f = quiet_fields[OF assms]
  have "quiet (fst (connection_created s p)) (fst (connection_created t p)) \<and>
        snd (connection_created t p) = snd (connection_created s p)"
  proof (cases "connections s (connectionId p)")
    case None
    then have n': "connections t (connectionId p) = None" by (simp add: f)
    have "quiet (fst (renderLoadedConnection s p False)) (fst (connection_created t p))"
      using quiet_trans'[OF rLC_quiet(1)[OF assms] connection_created_new(1)[OF n']] .
    then have "quiet (fst (connection_created s p)) (fst (connection_created t p))"
      using quiet_trans'[OF quiet_sym[OF connection_created_new(1)[OF None]]] by blast
    then show ?thesis
      by (simp add: connection_created_new(2)[OF None] connection_created_new(2)[OF n']
            rLC_quiet(2)[OF assms])
  next
    case (Some e)
    then have 1: "connections s (connectionId p) \<noteq> None" "connections t (connectionId p) \<noteq> None"
      by (simp_all add: f)
    show ?thesis
      by (simp add: connection_created_echo 1) (intro quietI; simp add: f)
  qed
  then show "quiet (fst (connection_created s p)) (fst (connection_created t p))"
    and "snd (connection_created t p) = snd (connection_created s p)" by simp_all
qed

lemma connection_created_throws:
  assumes "snd (connection_created s p) = Throw"
  shows "quiet s (fst (connection_created s p))"
proof (cases "connections s (connectionId p)")
  case None
  from assms have "snd (renderLoadedConnection s p False) = Throw"
    by (simp add: connection_created_new(2)[OF None] split: if_splits)
  then have "raises s p" by (simp add: rLC_result split: if_splits)
  then have "quiet s (fst (renderLoadedConnection s p False))" by (simp add: rLC_raises)
  with connection_created_new(1)[OF None] show ?thesis by (rule quiet_trans'[rotated])
next
  case (Some e)
  with assms show ?thesis by (simp add: connection_created_echo)
qed

lemma quiet_say_left [simp]: "quiet (say l m s) t = quiet s t"
proof
  assume q: "quiet (say l m s) t"
  show "quiet s t" by (rule quietI) (use quiet_fields[OF q] in simp_all)
next
  assume q: "quiet s t"
  show "quiet (say l m s) t" by (rule quietI) (use quiet_fields[OF q] in simp_all)
qed

lemma dispatch_cases:
  obtains (load) "m = Some ''v1.connection.load''"
    | (emit) "m = Some ''component.emitOutput''"
    | (created) "m = Some ''v1.connection.created''"
    | (removed) "m = Some ''v1.connection.removed''"
    | (other) "m \<noteq> Some ''v1.connection.load''" "m \<noteq> Some ''component.emitOutput''"
              "m \<noteq> Some ''v1.connection.created''" "m \<noteq> Some ''v1.connection.removed''"
  by blast

lemma dispatch_load:
  "dispatch s (Some ''v1.connection.load'') (Some p) =
     (fst (renderLoadedConnection s p False),
      if snd (renderLoadedConnection s p False) = Throw then Throw else Return ())"
  by (cases "renderLoadedConnection s p False"; cases "snd (renderLoadedConnection s p False)")
     (simp_all add: dispatch_def)

lemma dispatch_load_None:
  "dispatch s (Some ''v1.connection.load'') None =
     (say ERROR ''[WebSocket] v1.connection.load message received without params'' s, Return ())"
  by (simp add: dispatch_def)

lemma dispatch_emit:
  "dispatch s (Some ''component.emitOutput'') ps =
     (case ps of None \<Rightarrow> (s, Throw) | Some p \<Rightarrow> emitOutput s p)"
  by (simp add: dispatch_def)

lemma dispatch_created_None:
  "dispatch s (Some ''v1.connection.created'') None =
     (say LOG ''[WebSocket] Received v1.connection.created'' s, Throw)"
  by (simp add: dispatch_def)

lemma dispatch_removed_None:
  "dispatch s (Some ''v1.connection.removed'') None =
     (say LOG ''[WebSocket] Received v1.connection.removed'' s, Throw)"
  by (simp add: dispatch_def)

lemma dispatch_other:
  assumes "m \<noteq> Some ''v1.connection.load''" "m \<noteq> Some ''component.emitOutput''"
          "m \<noteq> Some ''v1.connection.created''" "m \<noteq> Some ''v1.connection.removed''"
  shows "dispatch s m ps = (s, Return ())"
  using assms by (simp add: dispatch_def)

lemma dispatch_quiet:
  assumes "quiet s t"
  shows "quiet (fst (dispatch s m ps)) (fst (dispatch t m ps)) \<and>
         snd (dispatch t m ps) = snd (dispatch s m ps)"
proof (cases rule: dispatch_cases[of m])
  case load
  show ?thesis
  proof (cases ps)
    case None
    with load assms show ?thesis by (simp add: dispatch_load_None)
  next
    case (Some p)
    with load show ?thesis
      by (simp add: dispatch_load rLC_quiet[OF assms])
  qed
next
  case emit
  show ?thesis
  proof (cases ps)
    case None
    with emit assms show ?thesis by (simp add: dispatch_emit)
  next
    case (Some p)
    with emit show ?thesis by (simp add: dispatch_emit emitOutput_quiet[OF assms])
  qed
next
  case created
  show ?thesis
  proof (cases ps)
    case None
    with created assms show ?thesis by (simp add: dispatch_created_None)
  next
    case (Some p)
    with created show ?thesis by (simp add: dispatch_created connection_created_quiet[OF assms])
  qed
next
  case removed
  show ?thesis
  proof (cases ps)
    case None
    with removed assms show ?thesis by (simp add: dispatch_removed_None)
  next
    case (Some p)
    with removed show ?thesis by (simp add: dispatch_removed connection_removed_quiet[OF assms])
  qed
next
  case other
  with assms show ?thesis by (simp add: dispatch_other)
qed

lemma dispatch_throws:
  assumes "snd (dispatch s m ps) = Throw"
  shows "quiet s (fst (dispatch s m ps))"
proof (cases rule: dispatch_cases[of m])
  case load
  show ?thesis
  proof (cases ps)
    case None
    with load show ?thesis by (simp add: dispatch_load_None)
  next
    case (Some p)
    with load assms have "snd (renderLoadedConnection s p False) = Throw"
      by (simp add: dispatch_load split: if_splits)
    then have "raises s p" by (simp add: rLC_result split: if_splits)
    with load Some show ?thesis by (simp add: dispatch_load rLC_raises)
  qed
next
  case emit
  show ?thesis
  proof (cases ps)
    case None
    with emit show ?thesis by (simp add: dispatch_emit)
  next
    case (Some p)
    with emit assms show ?thesis by (simp add: dispatch_emit emitOutput_throws)
  qed
next
  case created
  show ?thesis
  proof (cases ps)
    case None
    with created show ?thesis by (simp add: dispatch_created_None)
  next
    case (Some p)
    with created assms show ?thesis by (simp add: dispatch_created connection_created_throws)
  qed
next
  case removed
  show ?thesis
  proof (cases ps)
    case None
    with removed show ?thesis by (simp add: dispatch_removed_None)
  next
    case (Some p)
    with removed assms show ?thesis by (simp add: dispatch_removed)
  qed
next
  case other
  then show ?thesis by (simp add: dispatch_other)
qed

lemma onmessage_quiet:
  assumes "quiet s t"
  shows "quiet (onmessage s d) (onmessage t d)"
proof (cases d)
  case Undecodable
  with assms show ?thesis by (simp add: onmessage_def Let_def)
next
  case DecodedNull
  with assms show ?thesis by (simp add: onmessage_def Let_def)
next
  case (Decoded m ps)
  let ?s = "say LOG ''[WebSocket] Parsed message'' (say LOG ''[WebSocket] Message received'' s)"
  let ?t = "say LOG ''[WebSocket] Parsed message'' (say LOG ''[WebSocket] Message received'' t)"
  have q: "quiet ?s ?t" using assms by simp
  obtain s' r where r: "dispatch ?s m ps = (s', r)" by (cases "dispatch ?s m ps")
  obtain t' r' where r': "dispatch ?t m ps = (t', r')" by (cases "dispatch ?t m ps")
  from dispatch_quiet[OF q, of m ps] r r' have "quiet s' t'" "r' = r" by simp_all
  with Decoded r r' show ?thesis
    by (cases r) (simp_all add: onmessage_def Let_def)
qed

lemma fails_contained:
  assumes "fails s d"
  shows "quiet s (onmessage s d)"
    and "last (console (onmessage s d)) = (ERROR, ''[WebSocket] Error parsing message or handling method'')"
proof -
  have "quiet s (onmessage s d) \<and>
        last (console (onmessage s d)) = (ERROR, ''[WebSocket] Error parsing message or handling method'')"
  proof (cases d)
    case Undecodable
    then show ?thesis by (simp add: onmessage_def Let_def)
  next
    case DecodedNull
    then show ?thesis by (simp add: onmessage_def Let_def)
  next
    case (Decoded m ps)
    let ?s = "say LOG ''[WebSocket] Parsed message'' (say LOG ''[WebSocket] Message received'' s)"
    have q: "quiet s ?s" by simp
    obtain s' r where r: "dispatch ?s m ps = (s', r)" by (cases "dispatch ?s m ps")
    from assms Decoded have "snd (dispatch s m ps) = Throw" by (simp add: fails_def)
    with dispatch_quiet[OF q, of m ps] r have t: "r = Throw" by simp
    with dispatch_throws[of ?s m ps] r have "quiet ?s s'" by simp
    then have "quiet s s'" using quiet_trans'[OF q] by blast
    with Decoded r t show ?thesis by (simp add: onmessage_def Let_def)
  qed
  then show "quiet s (onmessage s d)"
    and "last (console (onmessage s d)) = (ERROR, ''[WebSocket] Error parsing message or handling method'')"
    by simp_all
qed

lemma onmessage_other:
  assumes "m \<noteq> Some ''v1.connection.load''" "m \<noteq> Some ''component.emitOutput''"
          "m \<noteq> Some ''v1.connection.created''" "m \<noteq> Some ''v1.connection.removed''"
  shows "onmessage s (Decoded m ps) =
           s\<lparr>console := console s @
             [(LOG, ''[WebSocket] Message received''), (LOG, ''[WebSocket] Parsed message'')]\<rparr>"
  by (simp add: onmessage_def Let_def dispatch_other[OF assms] say_def)

lemma two_components_endpoints:
  "endpoints two_components (descr ''c1'' ''a'' ''output'' ''b'' ''input'') = Some (a_output, b_input)"
  by (simp add: two_components_def init_def endpoints_def descr_def findOne_def js_str_def
        find_ports_def new_component_def a_output_def b_input_def)

lemma stale_entry_facts:
  "endpoints stale_entry (descr ''c1'' ''a'' ''output'' ''b'' ''input'') = Some (a_output, b_input)"
  "findOne (layer stale_entry) (js_str (connectionId (descr ''c1'' ''a'' ''output'' ''b'' ''input''))) = None"
  "connections stale_entry (Some ''c1'') =
     Some \<lparr>c_id = Some ''c1'', c_from = b_output, c_to = a_input, c_line = 99\<rparr>"
  "next_ref stale_entry = 11"
  using two_components_endpoints
  by (simp_all add: stale_entry_def endpoints_def two_components_def init_def descr_def findOne_def
        js_str_def new_component_def)




lemma two_components_no_c1:
  "findOne (layer two_components) ''c1'' = None"
  "distinct (map connectionId (pendingConnections two_components))"
  by (simp_all add: two_components_def init_def findOne_def new_component_def)

lemma layer_set_draggable [simp]:
  "layer (set_draggable g b s) = map (\<lambda>n. if n_ref n = g then n\<lparr>n_draggable := b\<rparr> else n) (layer s)"
  by (simp add: set_draggable_def)

lemma find_map_children:
  assumes "\<And>n. n_children (f n) = n_children n"
  shows "find (\<lambda>n. r \<in> set (map s_ref (n_children n))) (map f xs) =
         map_option f (find (\<lambda>n. r \<in> set (map s_ref (n_children n))) xs)"
  by (induction xs) (simp_all add: assms)

lemma getParent_set_draggable:
  "getParent (set_draggable g b s) x =
     map_option (\<lambda>n. if n_ref n = g then n\<lparr>n_draggable := b\<rparr> else n) (getParent s x)"
  unfolding getParent_def layer_set_draggable
  by (rule find_map_children) simp

lemma getParent_append_leaf:
  assumes "layer s = layer t @ [d]" and "n_children d = []"
  shows "getParent s x = getParent t x"
  unfolding getParent_def assms(1) using assms(2) by (simp add: find_append_other)

lemma getParent_cons_leaf:
  assumes "layer s = d # layer t" and "n_children d = []"
  shows "getParent s x = getParent t x"
  unfolding getParent_def assms(1) using assms(2) by simp

lemma output_mousedown_dragging:
  assumes "getParent s0 outputPort = Some N"
  shows "dragging s0 N outputPort (output_mousedown s0 outputPort)"
proof -
  have "getParent (s0\<lparr>isWiring := True, startPort := Some outputPort\<rparr>) outputPort = Some N"
    using assms by (simp add: getParent_def)
  then show ?thesis
    by (simp add: dragging_def output_mousedown_def Let_def)
qed

lemma stage_mousemove_dragging:
  assumes "dragging s0 N outputPort s" and "fresh s0"
  shows "dragging s0 N outputPort (fst (stage_mousemove s pointer))"
proof (cases pointer)
  case None
  with assms(1) show ?thesis
    by (simp add: stage_mousemove_def dragging_def Let_def)
next
  case (Some pos)
  from assms(1) obtain d where d: "layer s = layer (set_draggable (n_ref N) False s0) @ [d]"
    "n_ref d = next_ref s0" "n_children d = []" and w: "currentWire s = Some (next_ref s0)" "isWiring s"
    by (auto simp: dragging_def)
  have old: "map (\<lambda>n. if n_ref n = next_ref s0 then n\<lparr>n_points := take 2 (n_points n) @ [fst pos, snd pos]\<rparr> else n)
               (layer (set_draggable (n_ref N) False s0)) = layer (set_draggable (n_ref N) False s0)"
    using assms(2) by (auto simp: fresh_def intro!: map_idI)
  have "layer (fst (stage_mousemove s pointer)) =
          layer (set_draggable (n_ref N) False s0) @ [d\<lparr>n_points := take 2 (n_points d) @ [fst pos, snd pos]\<rparr>]"
    using Some w d(2) old by (simp add: stage_mousemove_def Let_def d(1))
  with assms(1) Some d show ?thesis
    by (simp add: dragging_def stage_mousemove_def Let_def)
qed

lemma drag_dragging:
  assumes "getParent s0 outputPort = Some N" and "fresh s0"
  shows "dragging s0 N outputPort (drag s0 outputPort moves)"
  unfolding drag_def
proof (induction moves rule: rev_induct)
  case Nil
  show ?case using output_mousedown_dragging[OF assms(1)] by simp
next
  case (snoc m moves)
  then show ?case using stage_mousemove_dragging[OF _ assms(2)] by simp
qed

lemma dragging_parent:
  assumes "dragging s0 N outputPort s"
  shows "getParent s x =
           map_option (\<lambda>n. if n_ref n = n_ref N then n\<lparr>n_draggable := False\<rparr> else n) (getParent s0 x)"
proof -
  from assms obtain d where d: "layer s = layer (set_draggable (n_ref N) False s0) @ [d]"
    "n_children d = []" by (auto simp: dragging_def)
  show ?thesis
    using getParent_append_leaf[OF d, of x] by (simp add: getParent_set_draggable)
qed

lemma fresh_neq: "fresh s \<Longrightarrow> n \<in> set (layer s) \<Longrightarrow> n_ref n \<noteq> next_ref s"
  by (auto simp: fresh_def)

lemma dragging_destroy:
  assumes "dragging s0 N outputPort s" and "fresh s0"
  shows "layer (destroy (next_ref s0) s) = layer (set_draggable (n_ref N) False s0)"
proof -
  from assms(1) obtain d where d: "layer s = layer (set_draggable (n_ref N) False s0) @ [d]"
    "n_ref d = next_ref s0" by (auto simp: dragging_def)
  have "filter (\<lambda>n. n_ref n \<noteq> next_ref s0) (layer (set_draggable (n_ref N) False s0)) =
          layer (set_draggable (n_ref N) False s0)"
    using fresh_neq[OF assms(2)] by (auto intro!: filter_True)
  with d show ?thesis by simp
qed

lemma redrag:
  "map (\<lambda>n. if n_ref n = g then n\<lparr>n_draggable := True\<rparr> else n)
     (map (\<lambda>n. if n_ref n = g then n\<lparr>n_draggable := False\<rparr> else n) ns) =
   map (\<lambda>n. if n_ref n = g then n\<lparr>n_draggable := True\<rparr> else n) ns"
  by (induction ns) simp_all

lemma reenable_drag_frame [simp]:
  "connections (reenable_drag m s) = connections s"
  "pendingConnections (reenable_drag m s) = pendingConnections s"
  "isWiring (reenable_drag m s) = isWiring s"
  "currentWire (reenable_drag m s) = currentWire s" "startPort (reenable_drag m s) = startPort s"
  "socket_open (reenable_drag m s) = socket_open s" "sent (reenable_drag m s) = sent s"
  "draws (reenable_drag m s) = draws s" "timer (reenable_drag m s) = timer s"
  "next_ref (reenable_drag m s) = next_ref s"
  by (simp_all add: reenable_drag_def split: option.splits)

lemma destroy_currentWire_frame [simp]:
  "connections (destroy_currentWire m s) = connections s"
  "pendingConnections (destroy_currentWire m s) = pendingConnections s"
  "isWiring (destroy_currentWire m s) = isWiring s"
  "currentWire (destroy_currentWire m s) = currentWire s"
  "startPort (destroy_currentWire m s) = startPort s"
  "socket_open (destroy_currentWire m s) = socket_open s" "sent (destroy_currentWire m s) = sent s"
  "draws (destroy_currentWire m s) = draws s" "timer (destroy_currentWire m s) = timer s"
  "next_ref (destroy_currentWire m s) = next_ref s"
  by (simp_all add: destroy_currentWire_def split: option.splits)

lemma reset_wiring_frame [simp]:
  "layer (reset_wiring s) = layer s" "connections (reset_wiring s) = connections s"
  "pendingConnections (reset_wiring s) = pendingConnections s"
  "isWiring (reset_wiring s) = False" "currentWire (reset_wiring s) = None"
  "startPort (reset_wiring s) = None"
  "socket_open (reset_wiring s) = socket_open s" "sent (reset_wiring s) = sent s"
  "draws (reset_wiring s) = draws s" "timer (reset_wiring s) = timer s"
  "next_ref (reset_wiring s) = next_ref s" "console (reset_wiring s) = console s"
  by (simp_all add: reset_wiring_def)

lemma release_self:
  assumes dr: "dragging s0 N outputPort s" and fr: "fresh s0"
      and pN: "getParent s0 outputPort = Some N" and pM: "getParent s0 inputPort = Some M"
      and same: "n_ref M = n_ref N"
  shows "snd (release_on_input s inputPort now rnd now') = Return ()"
    and "layer (fst (release_on_input s inputPort now rnd now')) = layer (set_draggable (n_ref N) True s0)"
    and "connections (fst (release_on_input s inputPort now rnd now')) = connections s0"
    and "pendingConnections (fst (release_on_input s inputPort now rnd now')) = pendingConnections s0"
    and "sent (fst (release_on_input s inputPort now rnd now')) = sent s0"
    and "\<not> isWiring (fst (release_on_input s inputPort now rnd now'))"
    and "currentWire (fst (release_on_input s inputPort now rnd now')) = None"
    and "startPort (fst (release_on_input s inputPort now rnd now')) = None"
proof -
  let ?f = "\<lambda>n. if n_ref n = n_ref N then n\<lparr>n_draggable := False\<rparr> else n"
  let ?s = "say LOG ''[input mouseup] Condition check'' (say LOG ''[input mouseup] Triggered.'' s)"
  let ?t = "say LOG ''[input mouseup] Failed connection or self-connection attempt.'' ?s"
  let ?t1 = "destroy_currentWire ''[input mouseup] Destroyed temporary currentWire due to failed connection.'' ?t"
  let ?t2 = "reenable_drag ''[input mouseup][failure path] Re-enabled dragging for source component'' ?t1"
  from dr have w: "isWiring s" "startPort s = Some outputPort" "currentWire s = Some (next_ref s0)"
    "connections s = connections s0" "pendingConnections s = pendingConnections s0" "sent s = sent s0"
    by (simp_all add: dragging_def)
  have gp: "getParent s outputPort = Some (?f N)" "getParent s inputPort = Some (?f M)"
    using dragging_parent[OF dr] pN pM by simp_all
  have im: "input_mouseup s inputPort now rnd now' = (draw (reset_wiring ?t2), Return ())"
    using w gp same by (simp add: input_mouseup_def Let_def)
  have t1: "?t1 = say LOG ''[input mouseup] Destroyed temporary currentWire due to failed connection.''
                    (destroy (next_ref s0) ?t)"
    using w by (simp add: destroy_currentWire_def)
  have l1: "layer ?t1 = layer (set_draggable (n_ref N) False s0)"
    using dragging_destroy[OF dr fr] by (simp add: t1)
  have g1: "getParent ?t1 outputPort = Some (?f N)"
    using getParent_layer[OF l1, of outputPort] pN by (simp add: getParent_set_draggable)
  have s1: "startPort ?t1 = Some outputPort" using w by (simp add: t1)
  have t2: "?t2 = say LOG ''[input mouseup][failure path] Re-enabled dragging for source component''
                    (set_draggable (n_ref N) True ?t1)"
    using g1 s1 by (simp add: reenable_drag_def)
  have "layer ?t2 = map (\<lambda>n. if n_ref n = n_ref N then n\<lparr>n_draggable := True\<rparr> else n) (layer ?t1)"
    by (simp add: t2)
  also have "\<dots> = map (\<lambda>n. if n_ref n = n_ref N then n\<lparr>n_draggable := True\<rparr> else n)
                    (map (\<lambda>n. if n_ref n = n_ref N then n\<lparr>n_draggable := False\<rparr> else n) (layer s0))"
    by (simp only: l1 layer_set_draggable)
  also have "\<dots> = layer (set_draggable (n_ref N) True s0)"
    by (simp only: redrag layer_set_draggable)
  finally have l2: "layer ?t2 = layer (set_draggable (n_ref N) True s0)" .
  have r: "release_on_input s inputPort now rnd now' =
             (say LOG ''[stage mouseup] Triggered.'' (draw (reset_wiring ?t2)), Return ())"
    by (simp add: release_on_input_def im stage_mouseup_def Let_def)
  show "snd (release_on_input s inputPort now rnd now') = Return ()" by (simp add: r)
  show "layer (fst (release_on_input s inputPort now rnd now')) = layer (set_draggable (n_ref N) True s0)"
    unfolding r using l2 by simp
  show "connections (fst (release_on_input s inputPort now rnd now')) = connections s0"
    unfolding r using w by simp
  show "pendingConnections (fst (release_on_input s inputPort now rnd now')) = pendingConnections s0"
    unfolding r using w by simp
  show "sent (fst (release_on_input s inputPort now rnd now')) = sent s0"
    unfolding r using w by simp
  show "\<not> isWiring (fst (release_on_input s inputPort now rnd now'))"
    unfolding r by simp
  show "currentWire (fst (release_on_input s inputPort now rnd now')) = None"
    unfolding r by simp
  show "startPort (fst (release_on_input s inputPort now rnd now')) = None"
    unfolding r by simp
qed

lemma release_other:
  fixes now :: nat and rnd :: string
  defines "cid \<equiv> ''conn_'' @ dec now @ ''_'' @ rnd"
  assumes dr: "dragging s0 N outputPort s" and fr: "fresh s0"
      and pN: "getParent s0 outputPort = Some N" and pM: "getParent s0 inputPort = Some M"
      and diff: "n_ref M \<noteq> n_ref N"
  shows "snd (release_on_input s inputPort now rnd now') = Return ()"
    and "layer (fst (release_on_input s inputPort now rnd now')) =
           new_wire (Suc (next_ref s0)) (Some cid) (the (getAbsolutePosition s0 outputPort))
             (the (getAbsolutePosition s0 inputPort)) # layer (set_draggable (n_ref N) True s0)"
    and "connections (fst (release_on_input s inputPort now rnd now')) =
           (connections s0)(Some cid \<mapsto>
              \<lparr>c_id = Some cid, c_from = outputPort, c_to = inputPort, c_line = Suc (next_ref s0)\<rparr>)"
    and "pendingConnections (fst (release_on_input s inputPort now rnd now')) = pendingConnections s0"
    and "sent (fst (release_on_input s inputPort now rnd now')) =
           (if socket_open s0
            then sent s0 @ [create_request cid (n_id N) (n_id M) outputPort inputPort now']
            else sent s0)"
    and "\<not> isWiring (fst (release_on_input s inputPort now rnd now'))"
    and "currentWire (fst (release_on_input s inputPort now rnd now')) = None"
    and "startPort (fst (release_on_input s inputPort now rnd now')) = None"
proof -
  let ?f = "\<lambda>n. if n_ref n = n_ref N then n\<lparr>n_draggable := False\<rparr> else n"
  let ?s = "say LOG ''[input mouseup] Condition check'' (say LOG ''[input mouseup] Triggered.'' s)"
  let ?s1 = "destroy_currentWire ''[input mouseup] Destroyed temporary currentWire.''
               (say LOG ''[input mouseup] Successful connection attempt.'' ?s)"
  from dr have w: "isWiring s" "startPort s = Some outputPort" "currentWire s = Some (next_ref s0)"
    "connections s = connections s0" "pendingConnections s = pendingConnections s0" "sent s = sent s0"
    "socket_open s = socket_open s0" "next_ref s = Suc (next_ref s0)"
    by (simp_all add: dragging_def)
  have gp: "getParent s outputPort = Some (?f N)" "getParent s inputPort = Some (?f M)"
    using dragging_parent[OF dr] pN pM by simp_all
  have im: "input_mouseup s inputPort now rnd now' = commit_wire ?s outputPort inputPort now rnd now'"
    using w gp diff by (simp add: input_mouseup_def Let_def)
  have s1: "?s1 = say LOG ''[input mouseup] Destroyed temporary currentWire.''
               (destroy (next_ref s0) (say LOG ''[input mouseup] Successful connection attempt.'' ?s))"
    using w by (simp add: destroy_currentWire_def)
  have l1: "layer ?s1 = layer (set_draggable (n_ref N) False s0)"
    using dragging_destroy[OF dr fr] by (simp add: s1)
  have g1: "getParent ?s1 x = map_option ?f (getParent s0 x)" for x
    using getParent_layer[OF l1, of x] by (simp add: getParent_set_draggable)
  have a1: "getAbsolutePosition ?s1 x = getAbsolutePosition s0 x" for x
    by (cases "getParent s0 x") (simp_all add: getAbsolutePosition_def g1)
  let ?wire = "new_wire (Suc (next_ref s0)) (Some cid) (the (getAbsolutePosition s0 outputPort))
             (the (getAbsolutePosition s0 inputPort))"
  let ?s2 = "say LOG ''[createWire] Wire created and stored.''
             (draw ((say LOG ''[createWire] Creating wire'' ?s1)
                \<lparr>next_ref := Suc (next_ref ?s1),
                  layer := ?wire # layer ?s1,
                  connections := (connections ?s1)(Some cid \<mapsto>
                     \<lparr>c_id = Some cid, c_from = outputPort, c_to = inputPort, c_line = next_ref ?s1\<rparr>)\<rparr>))"
  have n1: "next_ref ?s1 = Suc (next_ref s0)" using w by simp
  have cw: "createWire ?s1 (Some cid) outputPort inputPort = (?s2, Return (Some (next_ref ?s1)))"
    using createWire_ok[of ?s1 outputPort inputPort "Some cid"] g1 pN pM
    by (simp add: a1 w)
  let ?s3 = "if socket_open s0
             then say LOG ''[input mouseup] Sent connection.create message''
                    ((say LOG ''[input mouseup] Permanent wire created via createWire.'' ?s2)
                       \<lparr>sent := sent s0 @ [create_request cid (n_id N) (n_id M) outputPort inputPort now']\<rparr>)
             else say ERROR ''[input mouseup] WebSocket is not open. Cannot send connection.create message.''
                    (say LOG ''[input mouseup] Permanent wire created via createWire.'' ?s2)"
  let ?s4 = "reenable_drag ''[input mouseup] Re-enabled dragging for source component'' ?s3"
  have idN: "n_id (?f N) = n_id N" "n_id (?f M) = n_id M" by simp_all
  have cm: "commit_wire ?s outputPort inputPort now rnd now' = (reset_wiring ?s4, Return ())"
    unfolding commit_wire_def Let_def cid_def[symmetric]
    using g1[of outputPort] g1[of inputPort] pN pM cw w
    by (simp add: idN del: fun_upd_apply)
  have l3: "layer ?s3 = ?wire # layer (set_draggable (n_ref N) False s0)"
    using l1 by simp
  have g3: "getParent ?s3 outputPort = Some (?f N)"
  proof -
    have "getParent ?s3 outputPort = getParent (set_draggable (n_ref N) False s0) outputPort"
      by (rule getParent_cons_leaf[OF l3]) (simp add: new_wire_def)
    then show ?thesis using pN by (simp add: getParent_set_draggable)
  qed
  have sp3: "startPort ?s3 = Some outputPort" using w by simp
  have s4: "?s4 = say LOG ''[input mouseup] Re-enabled dragging for source component''
                   (set_draggable (n_ref N) True ?s3)"
    using g3 sp3 by (simp add: reenable_drag_def)
  have wN: "n_ref ?wire \<noteq> n_ref N"
  proof -
    from pN have "N \<in> set (layer s0)" by (auto simp: getParent_def dest: find_Some_D)
    with fr have "n_ref N < next_ref s0" by (simp add: fresh_def)
    then show ?thesis by (simp add: new_wire_def)
  qed
  have "layer ?s4 = map (\<lambda>n. if n_ref n = n_ref N then n\<lparr>n_draggable := True\<rparr> else n) (layer ?s3)"
    by (simp add: s4)
  also have "\<dots> = map (\<lambda>n. if n_ref n = n_ref N then n\<lparr>n_draggable := True\<rparr> else n)
                    (?wire # map (\<lambda>n. if n_ref n = n_ref N then n\<lparr>n_draggable := False\<rparr> else n) (layer s0))"
    by (simp only: l3 layer_set_draggable)
  also have "\<dots> = ?wire # layer (set_draggable (n_ref N) True s0)"
    using wN by (simp only: list.map redrag layer_set_draggable if_False)
  finally have l4: "layer ?s4 = ?wire # layer (set_draggable (n_ref N) True s0)" .
  have r: "release_on_input s inputPort now rnd now' =
             (say LOG ''[stage mouseup] Triggered.'' (reset_wiring ?s4), Return ())"
    by (simp add: release_on_input_def im cm stage_mouseup_def Let_def)
  show "snd (release_on_input s inputPort now rnd now') = Return ()" by (simp add: r)
  show "layer (fst (release_on_input s inputPort now rnd now')) =
           ?wire # layer (set_draggable (n_ref N) True s0)"
    unfolding r using l4 by simp
  show "connections (fst (release_on_input s inputPort now rnd now')) =
           (connections s0)(Some cid \<mapsto>
              \<lparr>c_id = Some cid, c_from = outputPort, c_to = inputPort, c_line = Suc (next_ref s0)\<rparr>)"
    unfolding r using w by simp
  show "pendingConnections (fst (release_on_input s inputPort now rnd now')) = pendingConnections s0"
    unfolding r using w by simp
  show "sent (fst (release_on_input s inputPort now rnd now')) =
           (if socket_open s0
            then sent s0 @ [create_request cid (n_id N) (n_id M) outputPort inputPort now']
            else sent s0)"
    unfolding r using w by simp
  show "\<not> isWiring (fst (release_on_input s inputPort now rnd now'))"
    unfolding r by simp
  show "currentWire (fst (release_on_input s inputPort now rnd now')) = None"
    unfolding r by simp
  show "startPort (fst (release_on_input s inputPort now rnd now')) = None"
    unfolding r by simp
qed

lemma find_ports_hd:
  assumes "find_ports g nm \<noteq> []"
  shows "hd (find_ports g nm) \<in> set (n_children g)"
    and "s_class (hd (find_ports g nm)) = Circle"
    and "Some (s_name (hd (find_ports g nm))) = nm"
proof -
  from assms have "hd (find_ports g nm) \<in> set (find_ports g nm)" by simp
  then have "hd (find_ports g nm) \<in> set (n_children g) \<and>
             Some (s_name (hd (find_ports g nm))) = nm \<and> s_class (hd (find_ports g nm)) = Circle"
    unfolding find_ports_def by simp
  then show "hd (find_ports g nm) \<in> set (n_children g)"
    and "s_class (hd (find_ports g nm)) = Circle"
    and "Some (s_name (hd (find_ports g nm))) = nm" by simp_all
qed

lemma rLC_unresolved_connections:
  assumes "endpoints s p = None"
  shows "connections (fst (renderLoadedConnection s p r)) = connections s"
proof (cases "raises s p")
  case True
  then show ?thesis by (simp add: rLC_raises)
next
  case False
  with assms have "unresolved s p" by (simp add: unresolved_def)
  then show ?thesis by (simp add: rLC_unresolved)
qed

lemma rLC_resolved_connections:
  assumes "endpoints s p = Some (a, b)"
  shows "connections (fst (renderLoadedConnection s p r)) = connections s \<or>
         (\<exists>l. connections (fst (renderLoadedConnection s p r)) =
            (connections s)(connectionId p \<mapsto>
               \<lparr>c_id = connectionId p, c_from = a, c_to = b, c_line = l\<rparr>))"
proof (cases "findOne (layer s) (js_str (connectionId p))")
  case None
  show ?thesis using rLC_created(3)[OF assms None, of r] by blast
next
  case (Some n)
  show ?thesis using rLC_existing(3)[OF assms Some, of r]
    by (cases "connections s (connectionId p) = None") auto
qed

lemma resolved_ports:
  assumes e: "endpoints s p = Some (a, b)"
  shows "\<exists>g. findOne (layer s) (js_str (sourceComponentId p)) = Some g \<and> n_class g = Group \<and>
           a \<in> set (n_children g)"
    and "\<exists>g. findOne (layer s) (js_str (targetComponentId p)) = Some g \<and> n_class g = Group \<and>
           b \<in> set (n_children g)"
    and "s_class a = Circle" and "Some (s_name a) = sourcePortName p"
    and "s_class b = Circle" and "Some (s_name b) = targetPortName p"
proof -
  from e obtain sc tc where
    sc: "findOne (layer s) (js_str (sourceComponentId p)) = Some sc" and
    tc: "findOne (layer s) (js_str (targetComponentId p)) = Some tc" and
    g: "n_class sc = Group" "n_class tc = Group" and
    a: "hd (find_ports sc (sourcePortName p)) = a" "find_ports sc (sourcePortName p) \<noteq> []" and
    b: "hd (find_ports tc (targetPortName p)) = b" "find_ports tc (targetPortName p) \<noteq> []"
    by (rule endpoints_SomeD)
  note pa = find_ports_hd[OF a(2), unfolded a(1)]
  note pb = find_ports_hd[OF b(2), unfolded b(1)]
  from sc g(1) pa(1)
  show "\<exists>g. findOne (layer s) (js_str (sourceComponentId p)) = Some g \<and> n_class g = Group \<and>
           a \<in> set (n_children g)" by simp
  from tc g(2) pb(1)
  show "\<exists>g. findOne (layer s) (js_str (targetComponentId p)) = Some g \<and> n_class g = Group \<and>
           b \<in> set (n_children g)" by simp
  show "s_class a = Circle" by (rule pa(2))
  show "Some (s_name a) = sourcePortName p" by (rule pa(3))
  show "s_class b = Circle" by (rule pb(2))
  show "Some (s_name b) = targetPortName p" by (rule pb(3))
qed

lemma gesture_ports:
  assumes fr: "fresh s0" and pN: "getParent s0 outputPort = Some N"
      and pM: "getParent s0 inputPort = Some M"
      and io: "is_output outputPort" "is_input inputPort"
      and c: "connections (fst (release_on_input (drag s0 outputPort moves) inputPort now rnd now')) k
                = Some e"
  shows "connections s0 k = Some e \<or> is_output (c_from e) \<and> is_input (c_to e)"
proof -
  have dr: "dragging s0 N outputPort (drag s0 outputPort moves)"
    by (rule drag_dragging[OF pN fr])
  show ?thesis
  proof (cases "n_ref M = n_ref N")
    case True
    from c show ?thesis by (simp add: release_self(3)[OF dr fr pN pM True])
  next
    case False
    from c have "((connections s0)(Some (''conn_'' @ dec now @ ''_'' @ rnd) \<mapsto>
              \<lparr>c_id = Some (''conn_'' @ dec now @ ''_'' @ rnd), c_from = outputPort, c_to = inputPort,
               c_line = Suc (next_ref s0)\<rparr>)) k = Some e"
      by (simp only: release_other(3)[OF dr fr pN pM False])
    then show ?thesis using io by (cases "k = Some (''conn_'' @ dec now @ ''_'' @ rnd)") auto
  qed
qed

lemma swapped_endpoints:
  "endpoints two_components (descr ''c1'' ''a'' ''input'' ''b'' ''output'') = Some (a_input, b_output)"
  by (simp add: two_components_def init_def endpoints_def descr_def findOne_def js_str_def
        find_ports_def new_component_def a_input_def b_output_def)


section \<open>Evaluating the examples\<close>

lemmas eval_defs =
  two_queued_def two_components_def init_def new_component_def descr_def
  processPendingConnections_def renderLoadedConnection_def adopt_or_create_def createWire_def
  dequeue_def queue_if_absent_def warn_if_def say_def draw_def findOne_def find_ports_def
  getParent_def getAbsolutePosition_def js_str_def new_wire_def Let_def

lemma two_queued_pass:
  "snd (processPendingConnections two_queued) = Return () \<and>
   pendingConnections (fst (processPendingConnections two_queued)) = [] \<and>
   draws (fst (processPendingConnections two_queued)) = draws two_queued + 3"
  by (simp add: eval_defs)




section \<open>The pending queue\<close>

text \<open>
  C5 (as the code has it). A resolution attempt never makes two queue entries share a
  \<^verbatim>\<open>connectionId\<close>: if the ids in the queue are distinct before
  \<^verbatim>\<open>renderLoadedConnection\<close>, they are distinct after it, whatever the descriptor. When a
  component or a port is missing, the call returns \<^verbatim>\<open>false\<close>, changes neither the canvas
  nor the connections map, and queues the descriptor only if no entry with its id is
  queued already: an entry already there is kept as it is, and the new descriptor is
  not stored.
\<close>

theorem C5_queue_first_kept:
  "(distinct (map connectionId (pendingConnections s)) \<longrightarrow>
      distinct (map connectionId (pendingConnections (fst (renderLoadedConnection s p r))))) \<and>
   (unresolved s p \<longrightarrow>
      snd (renderLoadedConnection s p r) = Return False \<and>
      pendingConnections (fst (renderLoadedConnection s p r)) =
        (if \<exists>q\<in>set (pendingConnections s). connectionId q = connectionId p
         then pendingConnections s else pendingConnections s @ [p]) \<and>
      layer (fst (renderLoadedConnection s p r)) = layer s \<and>
      connections (fst (renderLoadedConnection s p r)) = connections s)"
  using rLC_distinct[of s p r] rLC_unresolved[of s p r] by simp

text \<open>
  The theorem at a queue holding \<^verbatim>\<open>c1\<close> and a descriptor \<^verbatim>\<open>c2\<close> whose components are
  not on the stage: \<^verbatim>\<open>c2\<close> is appended.
\<close>

theorem C5_queue_first_kept_witness:
  "distinct (map connectionId
     (pendingConnections (init\<lparr>pendingConnections := [descr ''c1'' ''a'' ''output'' ''b'' ''input'']\<rparr>))) \<and>
   unresolved (init\<lparr>pendingConnections := [descr ''c1'' ''a'' ''output'' ''b'' ''input'']\<rparr>)
     (descr ''c2'' ''a'' ''output'' ''b'' ''input'') \<and>
   pendingConnections (fst (renderLoadedConnection
     (init\<lparr>pendingConnections := [descr ''c1'' ''a'' ''output'' ''b'' ''input'']\<rparr>)
     (descr ''c2'' ''a'' ''output'' ''b'' ''input'') False)) =
   [descr ''c1'' ''a'' ''output'' ''b'' ''input'', descr ''c2'' ''a'' ''output'' ''b'' ''input'']"
  using C5_queue_first_kept
          [of "init\<lparr>pendingConnections := [descr ''c1'' ''a'' ''output'' ''b'' ''input'']\<rparr>"
              "descr ''c2'' ''a'' ''output'' ''b'' ''input''" False]
  by (simp add: unresolved_def endpoints_def raises_def init_def descr_def findOne_def js_str_def)

text \<open>
  C5 as stated fails: with \<^verbatim>\<open>c1\<close> queued towards component \<^verbatim>\<open>b\<close>, a second descriptor
  \<^verbatim>\<open>c1\<close> towards \<^verbatim>\<open>z\<close> is deferred and does not replace the queued one; it is not in the
  queue afterwards.
\<close>

theorem C5_counterexample:
  "unresolved (init\<lparr>pendingConnections := [descr ''c1'' ''a'' ''output'' ''b'' ''input'']\<rparr>)
     (descr ''c1'' ''a'' ''output'' ''z'' ''input'') \<and>
   descr ''c1'' ''a'' ''output'' ''z'' ''input'' \<notin> set (pendingConnections (fst (renderLoadedConnection
     (init\<lparr>pendingConnections := [descr ''c1'' ''a'' ''output'' ''b'' ''input'']\<rparr>)
     (descr ''c1'' ''a'' ''output'' ''z'' ''input'') False)))"
  by (simp add: unresolved_def endpoints_def raises_def init_def descr_def findOne_def js_str_def
       renderLoadedConnection_def queue_if_absent_def warn_if_def say_def Let_def)

section \<open>Deleting a connection\<close>

text \<open>
  C6. In a consistent state, after a \<^verbatim>\<open>v1.connection.removed\<close> message for the id \<open>X\<close> the
  map has no entry for \<open>X\<close> and no line with id \<open>X\<close> is left on the canvas; when \<open>X\<close> was
  not stored, the message changes nothing but the console, which receives the three
  progress messages and one warning, and nothing is raised. The same holds after the
  confirmed context-menu deletion on a wire of the canvas whose listener closes over
  \<open>X\<close>.
\<close>

theorem C6_deletion_symmetry:
  assumes "consistent s" and "connectionId p = Some X"
  shows "connections (onmessage s (Decoded (Some ''v1.connection.removed'') (Some p))) (Some X) = None \<and>
         edges (onmessage s (Decoded (Some ''v1.connection.removed'') (Some p))) X = [] \<and>
         (connections s (Some X) = None \<longrightarrow>
            onmessage s (Decoded (Some ''v1.connection.removed'') (Some p)) =
              s\<lparr>console := console s @
                 [(LOG, ''[WebSocket] Message received''), (LOG, ''[WebSocket] Parsed message''),
                  (LOG, ''[WebSocket] Received v1.connection.removed''),
                  (WARN, ''[WebSocket] Could not find connection to remove via v1.connection.removed.'')]\<rparr>) \<and>
         (\<forall>w now. w \<in> set (layer s) \<and> n_contextmenu w = Some (Some X) \<longrightarrow>
            connections (wire_contextmenu s w True now) (Some X) = None \<and>
            edges (wire_contextmenu s w True now) X = [])"
proof (intro conjI impI allI)
  let ?s = "say LOG ''[WebSocket] Parsed message'' (say LOG ''[WebSocket] Message received'' s)"
  have c: "consistent ?s" using assms(1) by simp
  show "connections (onmessage s (Decoded (Some ''v1.connection.removed'') (Some p))) (Some X) = None"
    using assms(2) by (simp add: onmessage_removed)
  show "edges (onmessage s (Decoded (Some ''v1.connection.removed'') (Some p))) X = []"
    using connection_removed_edges[OF c assms(2)] by (simp add: onmessage_removed)
  show "onmessage s (Decoded (Some ''v1.connection.removed'') (Some p)) =
          s\<lparr>console := console s @
             [(LOG, ''[WebSocket] Message received''), (LOG, ''[WebSocket] Parsed message''),
              (LOG, ''[WebSocket] Received v1.connection.removed''),
              (WARN, ''[WebSocket] Could not find connection to remove via v1.connection.removed.'')]\<rparr>"
    if "connections s (Some X) = None"
    using that assms(2) by (simp add: onmessage_removed connection_removed_absent say_def)
next
  fix w now
  assume "w \<in> set (layer s) \<and> n_contextmenu w = Some (Some X)"
  then show "connections (wire_contextmenu s w True now) (Some X) = None"
    and "edges (wire_contextmenu s w True now) X = []"
    using wire_contextmenu_deletes[OF assms(1), of w X now] by simp_all
qed

text \<open>The theorem at the state holding the stored wire \<^verbatim>\<open>c1\<close>.\<close>

theorem C6_deletion_symmetry_witness:
  "consistent stored_wire \<and> connectionId (descr ''c1'' ''a'' ''output'' ''b'' ''input'') = Some ''c1'' \<and>
   connections stored_wire (Some ''c1'') \<noteq> None \<and> edges stored_wire ''c1'' \<noteq> [] \<and>
   connections (onmessage stored_wire (Decoded (Some ''v1.connection.removed'')
      (Some (descr ''c1'' ''a'' ''output'' ''b'' ''input'')))) (Some ''c1'') = None \<and>
   edges (onmessage stored_wire (Decoded (Some ''v1.connection.removed'')
      (Some (descr ''c1'' ''a'' ''output'' ''b'' ''input'')))) ''c1'' = []"
proof -
  have c: "consistent stored_wire"
    by (simp add: consistent_def stored_wire_def init_def new_wire_def)
  have i: "connectionId (descr ''c1'' ''a'' ''output'' ''b'' ''input'') = Some ''c1''"
    by (simp add: descr_def)
  have "connections stored_wire (Some ''c1'') \<noteq> None \<and> edges stored_wire ''c1'' \<noteq> []"
    by (simp add: stored_wire_def init_def new_wire_def edges_def)
  with c i C6_deletion_symmetry[OF c i] show ?thesis by simp
qed

section \<open>Draining the queue\<close>

text \<open>
  C7 (as the code has it). Each node-added event for a component group on the layer
  clears the timer whose handle the debounce closure holds and sets one of 16 ms. So a
  burst of such events, begun while no timer is pending, leaves the state as it was but
  for one console line per event and the timers: of all the timers set during the burst
  only the last is pending. No drain has run. The expiry of that timer runs
  \<^verbatim>\<open>processPendingConnections\<close> once, with no timer pending, and the expiry of any other
  handle runs nothing; a pass sets and clears no timer. A pass that completes on a queue
  with distinct ids attempts every descriptor queued at its start exactly once: for every
  id, the attempts logged for it during the pass are as many as the descriptors queued
  under it at the start. The layer is drawn once for every wire created during the pass
  (by \<^verbatim>\<open>createWire\<close>) and once more after the loop exactly when at least one descriptor
  resolved, that is, when the queue got shorter.
\<close>

theorem C7_debounced_drain:
  "(pending (timer s) = [] \<and> ts \<noteq> [] \<and>
    (\<forall>t\<in>set ts. n_name t = ''component_group'' \<and> n_ref t \<in> set (map n_ref (layer s))) \<longrightarrow>
      foldl stage_on_add s (map Some ts) =
        s\<lparr>console := console s @ replicate (length ts)
            (LOG, ''[mainStage add event] Component group added to mainLayer''),
          timer := \<lparr>timeout = Some (next_handle (timer s) + length ts - 1),
                    pending = [(next_handle (timer s) + length ts - 1, 16)],
                    next_handle = next_handle (timer s) + length ts\<rparr>\<rparr> \<and>
      timeout_fires (next_handle (timer s) + length ts - 1) (foldl stage_on_add s (map Some ts)) =
        processPendingConnections
          (s\<lparr>console := console s @ replicate (length ts)
               (LOG, ''[mainStage add event] Component group added to mainLayer''),
             timer := \<lparr>timeout = Some (next_handle (timer s) + length ts - 1),
                       pending = [],
                       next_handle = next_handle (timer s) + length ts\<rparr>\<rparr>) \<and>
      (\<forall>h. h \<noteq> next_handle (timer s) + length ts - 1 \<longrightarrow>
           timeout_fires h (foldl stage_on_add s (map Some ts)) =
             (foldl stage_on_add s (map Some ts), Return ()))) \<and>
   timer (fst (processPendingConnections s)) = timer s \<and>
   (distinct (map connectionId (pendingConnections s)) \<and>
    processPendingConnections s = (s', Return ()) \<longrightarrow>
      (\<forall>X. attempts s' X =
            attempts s X +
            length (filter (\<lambda>q. js_str (connectionId q) = X) (pendingConnections s))) \<and>
      draws s' + length (layer s) =
        draws s + length (layer s') +
        (if length (pendingConnections s') < length (pendingConnections s) then 1 else 0))"
proof -
  let ?H = "next_handle (timer s) + length ts - 1"
  let ?b = "foldl stage_on_add s (map Some ts)"
  let ?m = "(LOG, ''[mainStage add event] Component group added to mainLayer'')"
  have 1: "foldl stage_on_add s (map Some ts) =
        s\<lparr>console := console s @ replicate (length ts) ?m,
          timer := \<lparr>timeout = Some ?H, pending = [(?H, 16)],
                    next_handle = next_handle (timer s) + length ts\<rparr>\<rparr> \<and>
      timeout_fires ?H ?b =
        processPendingConnections
          (s\<lparr>console := console s @ replicate (length ts) ?m,
             timer := \<lparr>timeout = Some ?H, pending = [],
                       next_handle = next_handle (timer s) + length ts\<rparr>\<rparr>) \<and>
      (\<forall>h. h \<noteq> ?H \<longrightarrow> timeout_fires h ?b = (?b, Return ()))"
    if b: "pending (timer s) = [] \<and> ts \<noteq> [] \<and>
      (\<forall>t\<in>set ts. n_name t = ''component_group'' \<and> n_ref t \<in> set (map n_ref (layer s)))"
  proof -
    from b have e: "?b =
        s\<lparr>console := console s @ replicate (length ts) ?m,
          timer := \<lparr>timeout = Some ?H, pending = [(?H, 16)],
                    next_handle = next_handle (timer s) + length ts\<rparr>\<rparr>"
      using burst_arms_once[of s ts] by simp
    have p: "pending (timer ?b) = [(?H, 16)]" and v: "timeout (timer ?b) = Some ?H"
      by (simp_all add: e)
    have f: "timeout_fires ?H ?b =
        processPendingConnections
          (s\<lparr>console := console s @ replicate (length ts) ?m,
             timer := \<lparr>timeout = Some ?H, pending = [],
                       next_handle = next_handle (timer s) + length ts\<rparr>\<rparr>)"
      unfolding expiry_runs_pass(1)[OF p v] by (subst e)+ simp
    have g: "\<forall>h. h \<noteq> ?H \<longrightarrow> timeout_fires h ?b = (?b, Return ())"
      using expiry_runs_pass(2)[OF p v] by blast
    from e f g show ?thesis by blast
  qed
  have 2: "timer (fst (processPendingConnections s)) = timer s"
    by (rule processPendingConnections_timeout)
  have 3: "(\<forall>X. attempts s' X =
            attempts s X +
            length (filter (\<lambda>q. js_str (connectionId q) = X) (pendingConnections s))) \<and>
      draws s' + length (layer s) =
        draws s + length (layer s') +
        (if length (pendingConnections s') < length (pendingConnections s) then 1 else 0)"
    if p: "distinct (map connectionId (pendingConnections s)) \<and>
      processPendingConnections s = (s', Return ())"
  proof -
    from p have d: "distinct (map connectionId (pendingConnections s))"
      and r: "processPendingConnections s = (s', Return ())" by simp_all
    show ?thesis using pass_counts[OF d r] by blast
  qed
  from 1 2 3 show ?thesis by blast
qed

text \<open>
  The theorem at the state with the components \<^verbatim>\<open>a\<close> and \<open>b\<close> and two queued descriptors.
  After a burst of three node-added events one timer is pending, the third. The pass
  attempts \<^verbatim>\<open>c1\<close> once and \<^verbatim>\<open>c2\<close> once, and nothing under another id.
\<close>

theorem C7_debounced_drain_witness:
  "pending (timer two_queued) = [] \<and>
   n_name (new_component 1 ''a'' (100, 100)) = ''component_group'' \<and>
   n_ref (new_component 1 ''a'' (100, 100)) \<in> set (map n_ref (layer two_queued)) \<and>
   distinct (map connectionId (pendingConnections two_queued)) \<and>
   processPendingConnections two_queued = (fst (processPendingConnections two_queued), Return ()) \<and>
   pending (timer (foldl stage_on_add two_queued
      (map Some (replicate 3 (new_component 1 ''a'' (100, 100)))))) = [(3, 16)] \<and>
   attempts (fst (processPendingConnections two_queued)) ''c1'' = 1 \<and>
   attempts (fst (processPendingConnections two_queued)) ''c2'' = 1 \<and>
   attempts (fst (processPendingConnections two_queued)) ''c3'' = 0"
proof -
  let ?ts = "replicate 3 (new_component 1 ''a'' (100, 100))"
  have h0: "pending (timer two_queued) = []" "next_handle (timer two_queued) = 1"
    by (simp_all add: two_queued_def two_components_def init_def)
  have h1: "n_name (new_component 1 ''a'' (100, 100)) = ''component_group''"
    "n_ref (new_component 1 ''a'' (100, 100)) \<in> set (map n_ref (layer two_queued))"
    by (simp_all add: two_queued_def two_components_def init_def new_component_def)
  then have h1': "?ts \<noteq> [] \<and>
    (\<forall>t\<in>set ?ts. n_name t = ''component_group'' \<and> n_ref t \<in> set (map n_ref (layer two_queued)))"
    by simp
  have h2: "distinct (map connectionId (pendingConnections two_queued))"
    by (simp add: two_queued_def descr_def)
  have h3: "processPendingConnections two_queued = (fst (processPendingConnections two_queued), Return ())"
    using two_queued_pass by (simp add: prod_eq_iff)
  have a0: "attempts two_queued X = 0" for X
    by (simp add: attempts_def two_queued_def two_components_def init_def)
  have q: "pendingConnections two_queued =
     [descr ''c1'' ''a'' ''output'' ''b'' ''input'', descr ''c2'' ''b'' ''output'' ''a'' ''input'']"
    by (simp add: two_queued_def)
  note t = C7_debounced_drain[of two_queued ?ts "fst (processPendingConnections two_queued)"]
  from t h0 h1' have b: "pending (timer (foldl stage_on_add two_queued (map Some ?ts))) = [(3, 16)]"
    by simp
  from t h2 h3 have c: "\<forall>X. attempts (fst (processPendingConnections two_queued)) X =
      attempts two_queued X +
      length (filter (\<lambda>q. js_str (connectionId q) = X) (pendingConnections two_queued))"
    by blast
  have c1: "attempts (fst (processPendingConnections two_queued)) ''c1'' = 1"
    "attempts (fst (processPendingConnections two_queued)) ''c2'' = 1"
    "attempts (fst (processPendingConnections two_queued)) ''c3'' = 0"
    by (simp_all add: c a0 q descr_def js_str_def)
  from h0(1) h1 h2 h3 b c1 show ?thesis by blast
qed

text \<open>
  C7 as stated fails: a pass that resolves the two queued descriptors draws the layer
  three times, once in each \<^verbatim>\<open>createWire\<close> and once after the loop.
\<close>

theorem C7_counterexample:
  "snd (processPendingConnections two_queued) = Return () \<and>
   pendingConnections two_queued =
     [descr ''c1'' ''a'' ''output'' ''b'' ''input'', descr ''c2'' ''b'' ''output'' ''a'' ''input''] \<and>
   pendingConnections (fst (processPendingConnections two_queued)) = [] \<and>
   draws (fst (processPendingConnections two_queued)) = draws two_queued + 3"
  using two_queued_pass by (simp add: two_queued_def)

section \<open>Removal and the queue\<close>



section \<open>Inbound messages\<close>

text \<open>
  C2 (as the code has it). The broadcast the handler recognises is
  \<^verbatim>\<open>v1.connection.created\<close>. If the map has an entry for its \<^verbatim>\<open>connectionId\<close>, the message
  only adds four console lines (the last one the self-echo notice). Otherwise the state
  after the message is the state after \<^verbatim>\<open>renderLoadedConnection(params)\<close>, up to the
  console: when a component or port is missing the descriptor is queued unless its id
  is queued already, canvas and map unchanged; when the endpoints resolve the map has an
  entry for the id afterwards. A second arrival of the same message changes nothing but
  the console.
\<close>

theorem C2_created_broadcast:
  "(connections s (connectionId p) \<noteq> None \<longrightarrow>
      onmessage s (created_msg p) =
        s\<lparr>console := console s @
          [(LOG, ''[WebSocket] Message received''), (LOG, ''[WebSocket] Parsed message''),
           (LOG, ''[WebSocket] Received v1.connection.created''),
           (LOG, ''[WebSocket] Connection already exists (likely self-echo). Ignoring v1.connection.created.'')]\<rparr>) \<and>
   (connections s (connectionId p) = None \<longrightarrow>
      quiet (fst (renderLoadedConnection s p False)) (onmessage s (created_msg p))) \<and>
   (connections s (connectionId p) = None \<and> unresolved s p \<longrightarrow>
      pendingConnections (onmessage s (created_msg p)) =
        (if \<exists>q\<in>set (pendingConnections s). connectionId q = connectionId p
         then pendingConnections s else pendingConnections s @ [p]) \<and>
      layer (onmessage s (created_msg p)) = layer s \<and>
      connections (onmessage s (created_msg p)) = connections s) \<and>
   (connections s (connectionId p) = None \<and> endpoints s p \<noteq> None \<longrightarrow>
      connections (onmessage s (created_msg p)) (connectionId p) \<noteq> None) \<and>
   quiet (onmessage s (created_msg p)) (onmessage (onmessage s (created_msg p)) (created_msg p))"
proof (intro conjI impI)
  assume "connections s (connectionId p) \<noteq> None"
  then show "onmessage s (created_msg p) =
        s\<lparr>console := console s @
          [(LOG, ''[WebSocket] Message received''), (LOG, ''[WebSocket] Parsed message''),
           (LOG, ''[WebSocket] Received v1.connection.created''),
           (LOG, ''[WebSocket] Connection already exists (likely self-echo). Ignoring v1.connection.created.'')]\<rparr>"
    by (rule onmessage_created_echo)
next
  assume "connections s (connectionId p) = None"
  then show "quiet (fst (renderLoadedConnection s p False)) (onmessage s (created_msg p))"
    by (rule onmessage_created_new)
next
  assume a: "connections s (connectionId p) = None \<and> unresolved s p"
  then have q: "quiet (fst (renderLoadedConnection s p False)) (onmessage s (created_msg p))"
    by (simp add: onmessage_created_new)
  from a have u: "unresolved s p" by simp
  show "pendingConnections (onmessage s (created_msg p)) =
        (if \<exists>q\<in>set (pendingConnections s). connectionId q = connectionId p
         then pendingConnections s else pendingConnections s @ [p])"
    using quiet_fields(3)[OF q] rLC_unresolved(4)[OF u, of False] by simp
  show "layer (onmessage s (created_msg p)) = layer s"
    using quiet_fields(1)[OF q] rLC_unresolved(2)[OF u, of False] by simp
  show "connections (onmessage s (created_msg p)) = connections s"
    using quiet_fields(2)[OF q] rLC_unresolved(3)[OF u, of False] by simp
next
  assume a: "connections s (connectionId p) = None \<and> endpoints s p \<noteq> None"
  then have q: "quiet (fst (renderLoadedConnection s p False)) (onmessage s (created_msg p))"
    by (simp add: onmessage_created_new)
  show "connections (onmessage s (created_msg p)) (connectionId p) \<noteq> None"
    using quiet_fields(2)[OF q] rLC_resolved_stored[of s p False] a by simp
next
  show "quiet (onmessage s (created_msg p)) (onmessage (onmessage s (created_msg p)) (created_msg p))"
    by (rule second_arrival)
qed

text \<open>
  The theorem at the two components and a descriptor \<^verbatim>\<open>c1\<close> between their ports: the id
  is not stored, the endpoints resolve, and after the message the id is stored.
\<close>

theorem C2_created_broadcast_witness:
  "connections two_components (connectionId (descr ''c1'' ''a'' ''output'' ''b'' ''input'')) = None \<and>
   endpoints two_components (descr ''c1'' ''a'' ''output'' ''b'' ''input'') \<noteq> None \<and>
   connections (onmessage two_components (created_msg (descr ''c1'' ''a'' ''output'' ''b'' ''input'')))
     (connectionId (descr ''c1'' ''a'' ''output'' ''b'' ''input'')) \<noteq> None"
  using C2_created_broadcast[of two_components "descr ''c1'' ''a'' ''output'' ''b'' ''input''"]
        two_components_c1
  by simp

text \<open>
  C2 as stated fails: an inbound message with the method \<^verbatim>\<open>v1.connection.create\<close>, for an
  id that is not stored and with endpoints that resolve, is neither rendered nor queued;
  it only adds the two console lines every message adds.
\<close>

theorem C2_counterexample:
  "connections two_components (connectionId (descr ''c1'' ''a'' ''output'' ''b'' ''input'')) = None \<and>
   endpoints two_components (descr ''c1'' ''a'' ''output'' ''b'' ''input'') \<noteq> None \<and>
   onmessage two_components
     (Decoded (Some ''v1.connection.create'') (Some (descr ''c1'' ''a'' ''output'' ''b'' ''input''))) =
   two_components\<lparr>console := console two_components @
     [(LOG, ''[WebSocket] Message received''), (LOG, ''[WebSocket] Parsed message'')]\<rparr>"
  using two_components_c1
  by (simp add: onmessage_def dispatch_def say_def Let_def)

text \<open>
  C8. When handling a message raises (the payload does not parse, it is \<^verbatim>\<open>null\<close>, or
  the dispatch raises, as on absent \<^verbatim>\<open>params\<close>), the state after the handler is the state
  before it except for the console, whose last line is the error logged by the
  \<^verbatim>\<open>catch\<close>; and any next message \<open>d'\<close> is then handled as it would have been without
  the failed one, up to the console. A decoded message whose method is none of the four
  the handler knows adds the two console lines of every message and nothing else.
\<close>

theorem C8_malformed_contained:
  "(fails s d \<longrightarrow>
      quiet s (onmessage s d) \<and>
      last (console (onmessage s d)) = (ERROR, ''[WebSocket] Error parsing message or handling method'') \<and>
      quiet (onmessage s d') (onmessage (onmessage s d) d')) \<and>
   (m \<noteq> Some ''v1.connection.load'' \<and> m \<noteq> Some ''component.emitOutput'' \<and>
    m \<noteq> Some ''v1.connection.created'' \<and> m \<noteq> Some ''v1.connection.removed'' \<longrightarrow>
      onmessage s (Decoded m ps) =
        s\<lparr>console := console s @
          [(LOG, ''[WebSocket] Message received''), (LOG, ''[WebSocket] Parsed message'')]\<rparr>)"
  using fails_contained[of s d] onmessage_quiet[of s "onmessage s d" d'] onmessage_other[of m s ps]
  by blast

text \<open>The theorem at a \<^verbatim>\<open>v1.connection.created\<close> message without \<^verbatim>\<open>params\<close>.\<close>

theorem C8_malformed_contained_witness:
  "fails two_components (Decoded (Some ''v1.connection.created'') None) \<and>
   quiet two_components (onmessage two_components (Decoded (Some ''v1.connection.created'') None)) \<and>
   last (console (onmessage two_components (Decoded (Some ''v1.connection.created'') None))) =
     (ERROR, ''[WebSocket] Error parsing message or handling method'')"
proof -
  have "fails two_components (Decoded (Some ''v1.connection.created'') None)"
    by (simp add: fails_def dispatch_created_None)
  with C8_malformed_contained[of two_components "Decoded (Some ''v1.connection.created'') None"]
  show ?thesis by simp
qed

section \<open>Resolution when both ends are found\<close>

text \<open>
  C4 (as the code has it). When both components and both named ports are found,
  \<^verbatim>\<open>renderLoadedConnection\<close> returns \<^verbatim>\<open>true\<close> and splices the first queued entry with the
  id out of the queue, which stays as it is when there is none. If a node with the id is
  on the stage, the layer is left alone and the map entry is the one there was, or, when
  there was none, a new one with the ports found and that node as its line. If no node
  with the id is on the stage, a line is created at the bottom of the layer and the map
  entry is written for it, in place of any entry there was: an entry without a line is
  replaced, not adopted.
\<close>

theorem C4_resolution_step3:
  "endpoints s p = Some (a, b) \<longrightarrow>
     snd (renderLoadedConnection s p r) = Return True \<and>
     pendingConnections (fst (renderLoadedConnection s p r)) =
       splice_first (\<lambda>q. connectionId q = connectionId p) (pendingConnections s) \<and>
     ((\<forall>q\<in>set (pendingConnections s). connectionId q \<noteq> connectionId p) \<longrightarrow>
        pendingConnections (fst (renderLoadedConnection s p r)) = pendingConnections s) \<and>
     (\<forall>n. findOne (layer s) (js_str (connectionId p)) = Some n \<longrightarrow>
        layer (fst (renderLoadedConnection s p r)) = layer s \<and>
        connections (fst (renderLoadedConnection s p r)) =
          (if connections s (connectionId p) = None
           then (connections s)(connectionId p \<mapsto>
                  \<lparr>c_id = connectionId p, c_from = a, c_to = b, c_line = n_ref n\<rparr>)
           else connections s)) \<and>
     (findOne (layer s) (js_str (connectionId p)) = None \<longrightarrow>
        layer (fst (renderLoadedConnection s p r)) =
          new_wire (next_ref s) (connectionId p) (the (getAbsolutePosition s a))
            (the (getAbsolutePosition s b)) # layer s \<and>
        connections (fst (renderLoadedConnection s p r)) =
          (connections s)(connectionId p \<mapsto>
             \<lparr>c_id = connectionId p, c_from = a, c_to = b, c_line = next_ref s\<rparr>))"
proof (intro impI conjI allI)
  assume e: "endpoints s p = Some (a, b)"
  show "snd (renderLoadedConnection s p r) = Return True"
    using e by (simp add: rLC_result unresolved_def) (auto simp: endpoints_def raises_def split: option.splits if_splits)
  show q: "pendingConnections (fst (renderLoadedConnection s p r)) =
       splice_first (\<lambda>q. connectionId q = connectionId p) (pendingConnections s)"
    using e by (simp add: rLC_resolved)
  show "pendingConnections (fst (renderLoadedConnection s p r)) = pendingConnections s"
    if "\<forall>q\<in>set (pendingConnections s). connectionId q \<noteq> connectionId p"
    using that q by (simp add: splice_first_id)
  show "layer (fst (renderLoadedConnection s p r)) = layer s"
    if "findOne (layer s) (js_str (connectionId p)) = Some n" for n
    using rLC_existing(2)[OF e that] .
  show "connections (fst (renderLoadedConnection s p r)) =
          (if connections s (connectionId p) = None
           then (connections s)(connectionId p \<mapsto>
                  \<lparr>c_id = connectionId p, c_from = a, c_to = b, c_line = n_ref n\<rparr>)
           else connections s)"
    if "findOne (layer s) (js_str (connectionId p)) = Some n" for n
    using rLC_existing(3)[OF e that] .
  show "layer (fst (renderLoadedConnection s p r)) =
          new_wire (next_ref s) (connectionId p) (the (getAbsolutePosition s a))
            (the (getAbsolutePosition s b)) # layer s"
    if "findOne (layer s) (js_str (connectionId p)) = None"
    using rLC_created(2)[OF e that] .
  show "connections (fst (renderLoadedConnection s p r)) =
          (connections s)(connectionId p \<mapsto>
             \<lparr>c_id = connectionId p, c_from = a, c_to = b, c_line = next_ref s\<rparr>)"
    if "findOne (layer s) (js_str (connectionId p)) = None"
    using rLC_created(3)[OF e that] .
qed

text \<open>The theorem at \<open>stale_entry\<close>: the descriptor \<^verbatim>\<open>c1\<close> resolves and a line \<^verbatim>\<open>c1\<close> is drawn.\<close>

theorem C4_resolution_step3_witness:
  "endpoints stale_entry (descr ''c1'' ''a'' ''output'' ''b'' ''input'') = Some (a_output, b_input) \<and>
   findOne (layer stale_entry) (js_str (connectionId (descr ''c1'' ''a'' ''output'' ''b'' ''input''))) = None \<and>
   snd (renderLoadedConnection stale_entry (descr ''c1'' ''a'' ''output'' ''b'' ''input'') False) = Return True \<and>
   edges (fst (renderLoadedConnection stale_entry (descr ''c1'' ''a'' ''output'' ''b'' ''input'') False)) ''c1'' \<noteq> []"
  using C4_resolution_step3[of stale_entry "descr ''c1'' ''a'' ''output'' ''b'' ''input''" a_output b_input False]
        stale_entry_facts
  by (simp add: edges_def new_wire_def descr_def)

text \<open>
  C4 as stated fails for a map entry without a line: at \<open>stale_entry\<close> the entry of
  \<^verbatim>\<open>c1\<close> (from the output of \<open>b\<close>, line 99) is replaced by one with the ports found
  and the new line 11; nothing of it is kept.
\<close>

theorem C4_counterexample:
  "connections stale_entry (Some ''c1'') =
     Some \<lparr>c_id = Some ''c1'', c_from = b_output, c_to = a_input, c_line = 99\<rparr> \<and>
   edges stale_entry ''c1'' = [] \<and>
   connections (fst (renderLoadedConnection stale_entry (descr ''c1'' ''a'' ''output'' ''b'' ''input'') False))
     (Some ''c1'') =
     Some \<lparr>c_id = Some ''c1'', c_from = a_output, c_to = b_input, c_line = 11\<rparr> \<and>
   b_output \<noteq> a_output"
  using rLC_created(3)[OF stale_entry_facts(1,2), of False] stale_entry_facts(3,4)
  by (simp add: descr_def edges_def stale_entry_def two_components_def init_def new_component_def
        a_output_def b_output_def)

section \<open>Resolving twice\<close>




section \<open>Releasing a wire on an input port\<close>

text \<open>
  C3. A drag is begun on an output port of the node \<open>N\<close> and, after any pointer moves,
  released on an input port of the node \<open>M\<close>. The listeners return normally, the queue is
  as it was before the drag and the wiring variables are reset. If \<open>M\<close> is \<open>N\<close>, the map
  and the messages sent are as before the drag, and so is the layer but for \<open>N\<close> being
  draggable: the draft line is gone and there is no new line. If \<open>M\<close> is another node, the
  map has a new entry from the start port to the release port under the id minted, the
  layer has the line of that entry at the bottom and no draft line, and the
  \<^verbatim>\<open>v1.connection.create\<close> request is sent when the socket is open.
\<close>

theorem C3_no_self_loop:
  "fresh s0 \<and> getParent s0 outputPort = Some N \<and> getParent s0 inputPort = Some M \<longrightarrow>
     snd (release_on_input (drag s0 outputPort moves) inputPort now rnd now') = Return () \<and>
     pendingConnections (fst (release_on_input (drag s0 outputPort moves) inputPort now rnd now')) =
       pendingConnections s0 \<and>
     \<not> isWiring (fst (release_on_input (drag s0 outputPort moves) inputPort now rnd now')) \<and>
     currentWire (fst (release_on_input (drag s0 outputPort moves) inputPort now rnd now')) = None \<and>
     startPort (fst (release_on_input (drag s0 outputPort moves) inputPort now rnd now')) = None \<and>
     (n_ref M = n_ref N \<longrightarrow>
        connections (fst (release_on_input (drag s0 outputPort moves) inputPort now rnd now')) =
          connections s0 \<and>
        sent (fst (release_on_input (drag s0 outputPort moves) inputPort now rnd now')) = sent s0 \<and>
        layer (fst (release_on_input (drag s0 outputPort moves) inputPort now rnd now')) =
          layer (set_draggable (n_ref N) True s0)) \<and>
     (n_ref M \<noteq> n_ref N \<longrightarrow>
        connections (fst (release_on_input (drag s0 outputPort moves) inputPort now rnd now')) =
          (connections s0)(Some (''conn_'' @ dec now @ ''_'' @ rnd) \<mapsto>
             \<lparr>c_id = Some (''conn_'' @ dec now @ ''_'' @ rnd), c_from = outputPort, c_to = inputPort,
              c_line = Suc (next_ref s0)\<rparr>) \<and>
        sent (fst (release_on_input (drag s0 outputPort moves) inputPort now rnd now')) =
          (if socket_open s0
           then sent s0 @ [create_request (''conn_'' @ dec now @ ''_'' @ rnd) (n_id N) (n_id M)
                             outputPort inputPort now']
           else sent s0) \<and>
        layer (fst (release_on_input (drag s0 outputPort moves) inputPort now rnd now')) =
          new_wire (Suc (next_ref s0)) (Some (''conn_'' @ dec now @ ''_'' @ rnd))
            (the (getAbsolutePosition s0 outputPort)) (the (getAbsolutePosition s0 inputPort)) #
          layer (set_draggable (n_ref N) True s0))"
proof (rule impI)
  assume h: "fresh s0 \<and> getParent s0 outputPort = Some N \<and> getParent s0 inputPort = Some M"
  then have fr: "fresh s0" and pN: "getParent s0 outputPort = Some N"
    and pM: "getParent s0 inputPort = Some M" by simp_all
  have dr: "dragging s0 N outputPort (drag s0 outputPort moves)"
    by (rule drag_dragging[OF pN fr])
  show "snd (release_on_input (drag s0 outputPort moves) inputPort now rnd now') = Return () \<and>
     pendingConnections (fst (release_on_input (drag s0 outputPort moves) inputPort now rnd now')) =
       pendingConnections s0 \<and>
     \<not> isWiring (fst (release_on_input (drag s0 outputPort moves) inputPort now rnd now')) \<and>
     currentWire (fst (release_on_input (drag s0 outputPort moves) inputPort now rnd now')) = None \<and>
     startPort (fst (release_on_input (drag s0 outputPort moves) inputPort now rnd now')) = None \<and>
     (n_ref M = n_ref N \<longrightarrow>
        connections (fst (release_on_input (drag s0 outputPort moves) inputPort now rnd now')) =
          connections s0 \<and>
        sent (fst (release_on_input (drag s0 outputPort moves) inputPort now rnd now')) = sent s0 \<and>
        layer (fst (release_on_input (drag s0 outputPort moves) inputPort now rnd now')) =
          layer (set_draggable (n_ref N) True s0)) \<and>
     (n_ref M \<noteq> n_ref N \<longrightarrow>
        connections (fst (release_on_input (drag s0 outputPort moves) inputPort now rnd now')) =
          (connections s0)(Some (''conn_'' @ dec now @ ''_'' @ rnd) \<mapsto>
             \<lparr>c_id = Some (''conn_'' @ dec now @ ''_'' @ rnd), c_from = outputPort, c_to = inputPort,
              c_line = Suc (next_ref s0)\<rparr>) \<and>
        sent (fst (release_on_input (drag s0 outputPort moves) inputPort now rnd now')) =
          (if socket_open s0
           then sent s0 @ [create_request (''conn_'' @ dec now @ ''_'' @ rnd) (n_id N) (n_id M)
                             outputPort inputPort now']
           else sent s0) \<and>
        layer (fst (release_on_input (drag s0 outputPort moves) inputPort now rnd now')) =
          new_wire (Suc (next_ref s0)) (Some (''conn_'' @ dec now @ ''_'' @ rnd))
            (the (getAbsolutePosition s0 outputPort)) (the (getAbsolutePosition s0 inputPort)) #
          layer (set_draggable (n_ref N) True s0))"
  proof (cases "n_ref M = n_ref N")
    case True
    note r = release_self[OF dr fr pN pM True, of now rnd now']
    from True r show ?thesis by (simp del: layer_set_draggable)
  next
    case False
    note r = release_other[OF dr fr pN pM False, of now rnd now']
    show ?thesis
      using False by (simp only: r simp_thms)
  qed
qed

text \<open>
  The theorem at \<open>two_components\<close>: a drag from the output of \<open>a\<close> released on the input
  of \<open>a\<close> stores nothing and sends nothing; released on the input of \<open>b\<close> it stores the
  connection.
\<close>

theorem C3_no_self_loop_witness:
  "fresh two_components \<and> getParent two_components a_output = Some (new_component 1 ''a'' (100, 100)) \<and>
   getParent two_components a_input = Some (new_component 1 ''a'' (100, 100)) \<and>
   getParent two_components b_input = Some (new_component 6 ''b'' (300, 100)) \<and>
   snd (release_on_input (drag two_components a_output [Some (180, 140)]) a_input 5 ''x'' 6) = Return () \<and>
   connections (fst (release_on_input (drag two_components a_output [Some (180, 140)]) a_input 5 ''x'' 6)) =
     connections two_components \<and>
   sent (fst (release_on_input (drag two_components a_output [Some (180, 140)]) a_input 5 ''x'' 6)) =
     sent two_components \<and>
   connections (fst (release_on_input (drag two_components a_output [Some (180, 140)]) b_input 5 ''x'' 6))
     (Some (''conn_'' @ dec 5 @ ''_x'')) =
     Some \<lparr>c_id = Some (''conn_'' @ dec 5 @ ''_x''), c_from = a_output, c_to = b_input, c_line = 12\<rparr>"
proof -
  have f: "fresh two_components"
    by (simp add: fresh_def two_components_def init_def new_component_def Let_def)
  have a: "getParent two_components a_output = Some (new_component 1 ''a'' (100, 100))"
    by (simp add: getParent_def two_components_def init_def new_component_def a_output_def Let_def)
  have b: "getParent two_components a_input = Some (new_component 1 ''a'' (100, 100))"
    by (simp add: getParent_def two_components_def init_def new_component_def a_input_def Let_def)
  have c: "getParent two_components b_input = Some (new_component 6 ''b'' (300, 100))"
    by (simp add: getParent_def two_components_def init_def new_component_def b_input_def Let_def)
  have n: "n_ref (new_component 1 ''a'' (100, 100)) = 1" "n_ref (new_component 6 ''b'' (300, 100)) = 6"
    "next_ref two_components = 11"
    by (simp_all add: two_components_def init_def new_component_def Let_def)
  from C3_no_self_loop[of two_components a_output "new_component 1 ''a'' (100, 100)" a_input
      "new_component 1 ''a'' (100, 100)" "[Some (180, 140)]" 5 "''x''" 6] f a b
  have 1: "snd (release_on_input (drag two_components a_output [Some (180, 140)]) a_input 5 ''x'' 6) = Return () \<and>
   connections (fst (release_on_input (drag two_components a_output [Some (180, 140)]) a_input 5 ''x'' 6)) =
     connections two_components \<and>
   sent (fst (release_on_input (drag two_components a_output [Some (180, 140)]) a_input 5 ''x'' 6)) =
     sent two_components" by simp
  from C3_no_self_loop[of two_components a_output "new_component 1 ''a'' (100, 100)" b_input
      "new_component 6 ''b'' (300, 100)" "[Some (180, 140)]" 5 "''x''" 6] f a c
  have 2: "connections (fst (release_on_input (drag two_components a_output [Some (180, 140)]) b_input 5 ''x'' 6))
     (Some (''conn_'' @ dec 5 @ ''_x'')) =
     Some \<lparr>c_id = Some (''conn_'' @ dec 5 @ ''_x''), c_from = a_output, c_to = b_input, c_line = 12\<rparr>"
    by (simp add: n new_component_def)
  from f a b c 1 2 show ?thesis by blast
qed

section \<open>The ports of a stored connection\<close>

text \<open>
  C9 (as the code has it). \<^verbatim>\<open>renderLoadedConnection\<close> leaves the map alone when it does
  not find both ends. When it does, the source port is a circle among the children of the
  group found under \<^verbatim>\<open>sourceComponentId\<close> whose name is \<^verbatim>\<open>sourcePortName\<close>, the target port
  a circle among the children of the group found under \<^verbatim>\<open>targetComponentId\<close> whose name is
  \<^verbatim>\<open>targetPortName\<close>, and the map either stays as it is or gets an entry from the one to
  the other; the names are whatever the descriptor says, no direction is checked. A
  gesture begun on a port named \<^verbatim>\<open>output\<close> and released on a port named \<^verbatim>\<open>input\<close> adds
  to the map only an entry from an output to an input.
\<close>

theorem C9_ports_by_name:
  "(endpoints s p = None \<longrightarrow> connections (fst (renderLoadedConnection s p r)) = connections s) \<and>
   (endpoints s p = Some (a, b) \<longrightarrow>
      (\<exists>g. findOne (layer s) (js_str (sourceComponentId p)) = Some g \<and> n_class g = Group \<and>
           a \<in> set (n_children g)) \<and>
      (\<exists>g. findOne (layer s) (js_str (targetComponentId p)) = Some g \<and> n_class g = Group \<and>
           b \<in> set (n_children g)) \<and>
      s_class a = Circle \<and> Some (s_name a) = sourcePortName p \<and>
      s_class b = Circle \<and> Some (s_name b) = targetPortName p \<and>
      (connections (fst (renderLoadedConnection s p r)) = connections s \<or>
       (\<exists>l. connections (fst (renderLoadedConnection s p r)) =
          (connections s)(connectionId p \<mapsto>
             \<lparr>c_id = connectionId p, c_from = a, c_to = b, c_line = l\<rparr>)))) \<and>
   (fresh s0 \<and> getParent s0 outputPort = Some N \<and> getParent s0 inputPort = Some M \<and>
    is_output outputPort \<and> is_input inputPort \<longrightarrow>
      (\<forall>k e. connections (fst (release_on_input (drag s0 outputPort moves) inputPort now rnd now')) k
                = Some e \<longrightarrow>
             connections s0 k = Some e \<or> is_output (c_from e) \<and> is_input (c_to e)))"
proof -
  have 1: "endpoints s p = None \<longrightarrow> connections (fst (renderLoadedConnection s p r)) = connections s"
    by (simp add: rLC_unresolved_connections)
  have 2: "(\<exists>g. findOne (layer s) (js_str (sourceComponentId p)) = Some g \<and> n_class g = Group \<and>
           a \<in> set (n_children g)) \<and>
      (\<exists>g. findOne (layer s) (js_str (targetComponentId p)) = Some g \<and> n_class g = Group \<and>
           b \<in> set (n_children g)) \<and>
      s_class a = Circle \<and> Some (s_name a) = sourcePortName p \<and>
      s_class b = Circle \<and> Some (s_name b) = targetPortName p \<and>
      (connections (fst (renderLoadedConnection s p r)) = connections s \<or>
       (\<exists>l. connections (fst (renderLoadedConnection s p r)) =
          (connections s)(connectionId p \<mapsto>
             \<lparr>c_id = connectionId p, c_from = a, c_to = b, c_line = l\<rparr>)))"
    if e: "endpoints s p = Some (a, b)"
    by (intro conjI resolved_ports[OF e] rLC_resolved_connections[OF e])
  have 3: "\<forall>k e. connections (fst (release_on_input (drag s0 outputPort moves) inputPort now rnd now')) k
                = Some e \<longrightarrow>
             connections s0 k = Some e \<or> is_output (c_from e) \<and> is_input (c_to e)"
    if h: "fresh s0 \<and> getParent s0 outputPort = Some N \<and> getParent s0 inputPort = Some M \<and>
      is_output outputPort \<and> is_input inputPort"
  proof (intro allI impI)
    fix k e
    assume c: "connections (fst (release_on_input (drag s0 outputPort moves) inputPort now rnd now')) k
                = Some e"
    from h have fr: "fresh s0" and pN: "getParent s0 outputPort = Some N"
      and pM: "getParent s0 inputPort = Some M" and io: "is_output outputPort" "is_input inputPort"
      by simp_all
    show "connections s0 k = Some e \<or> is_output (c_from e) \<and> is_input (c_to e)"
      by (rule gesture_ports[OF fr pN pM io c])
  qed
  show ?thesis
    by (rule conjI[OF 1 conjI[OF impI[OF 2] impI[OF 3]]])
qed

text \<open>
  The theorem at \<open>two_components\<close>: the descriptor from the output of \<open>a\<close> to the input of
  \<open>b\<close> resolves to these two circles, and the gesture between them stores the output of
  \<open>a\<close> as the source.
\<close>

theorem C9_ports_by_name_witness:
  "endpoints two_components (descr ''c1'' ''a'' ''output'' ''b'' ''input'') = Some (a_output, b_input) \<and>
   s_name a_output = ''output'' \<and> s_name b_input = ''input'' \<and>
   s_class a_output = Circle \<and> s_class b_input = Circle \<and>
   fresh two_components \<and> is_output a_output \<and> is_input b_input \<and>
   getParent two_components a_output = Some (new_component 1 ''a'' (100, 100)) \<and>
   getParent two_components b_input = Some (new_component 6 ''b'' (300, 100)) \<and>
   c_from (the (connections
     (fst (release_on_input (drag two_components a_output [Some (180, 140)]) b_input 5 ''x'' 6))
     (Some (''conn_'' @ dec 5 @ ''_x'')))) = a_output"
proof -
  have f: "fresh two_components"
    by (simp add: fresh_def two_components_def init_def new_component_def Let_def)
  have a: "getParent two_components a_output = Some (new_component 1 ''a'' (100, 100))"
    by (simp add: getParent_def two_components_def init_def new_component_def a_output_def Let_def)
  have c: "getParent two_components b_input = Some (new_component 6 ''b'' (300, 100))"
    by (simp add: getParent_def two_components_def init_def new_component_def b_input_def Let_def)
  have io: "is_output a_output" "is_input b_input"
    by (simp_all add: is_output_def is_input_def a_output_def b_input_def)
  have nm: "s_name a_output = ''output''" "s_name b_input = ''input''"
    "s_class a_output = Circle" "s_class b_input = Circle"
    by (simp_all add: a_output_def b_input_def)
  have n: "n_ref (new_component 6 ''b'' (300, 100)) \<noteq> n_ref (new_component 1 ''a'' (100, 100))"
    by (simp add: new_component_def Let_def)
  have dr: "dragging two_components (new_component 1 ''a'' (100, 100)) a_output
              (drag two_components a_output [Some (180, 140)])"
    by (rule drag_dragging[OF a f])
  have e: "connections
     (fst (release_on_input (drag two_components a_output [Some (180, 140)]) b_input 5 ''x'' 6))
     (Some (''conn_'' @ dec 5 @ ''_x'')) \<noteq> None"
    by (simp only: release_other(3)[OF dr f a c n]) simp
  have m: "connections two_components (Some (''conn_'' @ dec 5 @ ''_x'')) = None"
    by (simp add: two_components_def init_def)
  from C9_ports_by_name[of two_components "descr ''c1'' ''a'' ''output'' ''b'' ''input''" False
      a_output b_input two_components a_output "new_component 1 ''a'' (100, 100)" b_input
      "new_component 6 ''b'' (300, 100)" "[Some (180, 140)]" 5 "''x''" 6]
    f a c io
  have "\<forall>k e. connections
     (fst (release_on_input (drag two_components a_output [Some (180, 140)]) b_input 5 ''x'' 6)) k = Some e
       \<longrightarrow> connections two_components k = Some e \<or> is_output (c_from e) \<and> is_input (c_to e)"
    by blast
  with e m have "is_output (c_from (the (connections
     (fst (release_on_input (drag two_components a_output [Some (180, 140)]) b_input 5 ''x'' 6))
     (Some (''conn_'' @ dec 5 @ ''_x'')))))"
    by (metis option.exhaust_sel option.distinct(1))
  moreover have "c_from (the (connections
     (fst (release_on_input (drag two_components a_output [Some (180, 140)]) b_input 5 ''x'' 6))
     (Some (''conn_'' @ dec 5 @ ''_x'')))) = a_output"
    by (simp only: release_other(3)[OF dr f a c n]) simp
  ultimately show ?thesis using two_components_endpoints f a c io nm by blast
qed

text \<open>
  C9 as stated fails for a descriptor: one that names the port \<^verbatim>\<open>input\<close> of \<open>a\<close> as its
  source and the port \<^verbatim>\<open>output\<close> of \<open>b\<close> as its target is rendered and stored, with an input
  as source and an output as target.
\<close>

theorem C9_counterexample:
  "connections two_components (Some ''c1'') = None \<and>
   connections (fst (renderLoadedConnection two_components
                       (descr ''c1'' ''a'' ''input'' ''b'' ''output'') False)) (Some ''c1'') =
     Some \<lparr>c_id = Some ''c1'', c_from = a_input, c_to = b_output, c_line = 11\<rparr> \<and>
   \<not> is_output a_input \<and> \<not> is_input b_output"
proof -
  have 1: "connections two_components (Some ''c1'') = None"
    by (simp add: two_components_def init_def)
  have 2: "connectionId (descr ''c1'' ''a'' ''input'' ''b'' ''output'') = Some ''c1''"
    by (simp add: descr_def)
  have 3: "findOne (layer two_components)
             (js_str (connectionId (descr ''c1'' ''a'' ''input'' ''b'' ''output''))) = None"
    by (simp add: 2 js_str_def two_components_no_c1)
  have 4: "next_ref two_components = 11" by (simp add: two_components_def)
  have 5: "\<not> is_output a_input" "\<not> is_input b_output"
    by (simp_all add: is_output_def is_input_def a_input_def b_output_def)
  from rLC_created(3)[OF swapped_endpoints 3, of False] 1 5
  show ?thesis by (simp add: 2 4)
qed


end
